theory Spec2Isabelle
  imports Complex_Main "HOL-Library.Sublist" "HOL-Library.Word"
begin

section \<open>JavaScript values as the survey server sees them\<close>

text \<open>
  The server (\<^verbatim>\<open>public/project/main.js\<close>) is an Express application holding
  one in-memory store. Request bodies are parsed JSON objects; the value the
  code reads for a question is \<^verbatim>\<open>response[question.id]\<close>.

  \<^item> JavaScript numbers are IEEE doubles. \<open>JNum w\<close> is the integer \<open>sint w\<close>, from
    \<open>-2^53\<close> up to \<open>2^53 - 1\<close>: in that range a double is exact and prints all its
    digits. \<open>JNumOther s\<close> is any other number a JSON text can denote (fractional,
    larger, infinite), given by the string \<open>s\<close> JavaScript prints for it, such as
    \<^verbatim>\<open>2.5\<close> or \<^verbatim>\<open>1e+21\<close>: the server only ever tests such a number for truth
    (it is not zero) and converts it to a string. \<open>JNaN\<close> is the number no JSON
    text denotes. Nested objects as answer values are outside the model.
  \<^item> a string is a list of code units; \<open>char\<close> covers the code units below 256.
  \<^item> \<open>JInherited k\<close> is what a property read yields when the object has no own
    property \<open>k\<close> but \<open>k\<close> names a member of \<^verbatim>\<open>Object.prototype\<close>: a built-in
    function (or, for \<^verbatim>\<open>__proto__\<close>, the prototype object itself).
\<close>

datatype jv =
    JUndefined
  | JNull
  | JBool bool
  | JNum "54 word"
  | JNumOther string
  | JNaN
  | JStr string
  | JArr "jv list"
  | JInherited string

text \<open>Truthiness, as used by \<^verbatim>\<open>!answer\<close>, \<^verbatim>\<open>if (answer)\<close> and \<^verbatim>\<open>filter(Boolean)\<close>.\<close>

fun truthy :: "jv \<Rightarrow> bool" where
  "truthy JUndefined = False"
| "truthy JNull = False"
| "truthy (JBool b) = b"
| "truthy (JNum w) = (w \<noteq> 0)"
| "truthy (JNumOther s) = True"
| "truthy JNaN = False"
| "truthy (JStr s) = (s \<noteq> [])"
| "truthy (JArr xs) = True"
| "truthy (JInherited k) = True"

text \<open>The names every plain object inherits from \<^verbatim>\<open>Object.prototype\<close>.\<close>

definition object_prototype_keys :: "string list" where
  "object_prototype_keys =
     [''constructor'', ''__defineGetter__'', ''__defineSetter__'', ''hasOwnProperty'',
      ''__lookupGetter__'', ''__lookupSetter__'', ''isPrototypeOf'',
      ''propertyIsEnumerable'', ''toString'', ''valueOf'', ''__proto__'',
      ''toLocaleString'']"

type_synonym body = "string \<rightharpoonup> jv"

text \<open>\<^verbatim>\<open>obj[key]\<close> on a parsed JSON object: own property first, then the prototype.\<close>

definition js_get :: "body \<Rightarrow> string \<Rightarrow> jv" where
  "js_get obj k =
     (case obj k of
        Some v \<Rightarrow> v
      | None \<Rightarrow> if k \<in> set object_prototype_keys then JInherited k else JUndefined)"

subsection \<open>Number and value to string\<close>

definition digit_char :: "nat \<Rightarrow> char" where
  "digit_char d = char_of (48 + d)"

fun show_nat :: "nat \<Rightarrow> string" where
  "show_nat n = (if n < 10 then [digit_char n] else show_nat (n div 10) @ [digit_char (n mod 10)])"

declare show_nat.simps [simp del]

definition show_int :: "int \<Rightarrow> string" where
  "show_int i = (if i < 0 then CHR ''-'' # show_nat (nat (- i)) else show_nat (nat i))"

text \<open>
  \<^verbatim>\<open>ToString\<close>: an array is its elements joined by commas, with \<^verbatim>\<open>null\<close> and
  \<^verbatim>\<open>undefined\<close> elements rendered empty; a built-in function prints as native
  code, the prototype object as \<^verbatim>\<open>[object Object]\<close>.
\<close>

fun to_string :: "jv \<Rightarrow> string"
  and join_elems :: "jv list \<Rightarrow> string" where
  "to_string JUndefined = ''undefined''"
| "to_string JNull = ''null''"
| "to_string (JBool b) = (if b then ''true'' else ''false'')"
| "to_string (JNum w) = show_int (sint w)"
| "to_string (JNumOther s) = s"
| "to_string JNaN = ''NaN''"
| "to_string (JStr s) = s"
| "to_string (JArr xs) = join_elems xs"
| "to_string (JInherited k) =
     (if k = ''__proto__'' then ''[object Object]''
      else ''function '' @ (if k = ''constructor'' then ''Object'' else k) @ ''() { [native code] }'')"
| "join_elems [] = []"
| "join_elems (x # xs) =
     (if x = JUndefined \<or> x = JNull then [] else to_string x)
     @ (if xs = [] then [] else CHR '','' # join_elems xs)"

subsection \<open>Doubles\<close>

text \<open>
  The values of JavaScript arithmetic: a finite double, given by its exact
  rational value, the two infinities and \<^verbatim>\<open>NaN\<close> (the sign of zero is never
  observed by the server and is left out).
\<close>

datatype dbl = Fin rat | PInf | NInf | NaN

fun bit_length :: "nat \<Rightarrow> nat" where
  "bit_length n = (if n = 0 then 0 else Suc (bit_length (n div 2)))"

declare bit_length.simps [simp del]

definition pow2 :: "int \<Rightarrow> rat" where
  "pow2 k = (if 0 \<le> k then 2 ^ nat k else 1 / 2 ^ nat (- k))"

text \<open>For \<open>x > 0\<close>, the exponent \<open>e\<close> with \<open>2^e \<le> x < 2^(e+1)\<close>.\<close>

definition ilog2 :: "rat \<Rightarrow> int" where
  "ilog2 x =
     (let (p, q) = quotient_of x;
          e0 = int (bit_length (nat p)) - int (bit_length (nat q))
      in if pow2 e0 \<le> x then e0 else e0 - 1)"

text \<open>The multiple of \<open>2^k\<close> nearest to \<open>x\<close>, the even one on a tie.\<close>

definition round_at :: "int \<Rightarrow> rat \<Rightarrow> rat" where
  "round_at k x =
     (let t = x / pow2 k;
          f = \<lfloor>t\<rfloor>;
          r = t - of_int f
      in of_int (if r < 1 / 2 then f else if 1 / 2 < r then f + 1
                 else if even f then f else f + 1) * pow2 k)"

text \<open>
  Rounding a real result to a double: 53 significant bits, ties to even, spacing
  never below \<open>2^-1074\<close>, infinity from \<open>2^1024\<close> on.
\<close>

definition round_dbl :: "rat \<Rightarrow> dbl" where
  "round_dbl x =
     (if x = 0 then Fin 0
      else
        (let e = ilog2 \<bar>x\<bar>;
             y = round_at (max (e - 52) (- 1074)) x
         in if 2 ^ 1024 \<le> \<bar>y\<bar> then (if x < 0 then NInf else PInf) else Fin y))"

fun isNaN :: "dbl \<Rightarrow> bool" where
  "isNaN NaN = True"
| "isNaN v = False"

text \<open>\<^verbatim>\<open>num < n\<close> and \<^verbatim>\<open>num > n\<close> for a number \<open>n\<close> of the schema; false on \<^verbatim>\<open>NaN\<close>.\<close>

fun num_less :: "dbl \<Rightarrow> int \<Rightarrow> bool" where
  "num_less (Fin x) n = (x < of_int n)"
| "num_less NInf n = True"
| "num_less v n = False"

fun num_greater :: "dbl \<Rightarrow> int \<Rightarrow> bool" where
  "num_greater (Fin x) n = (of_int n < x)"
| "num_greater PInf n = True"
| "num_greater v n = False"

text \<open>\<^verbatim>\<open>a + b\<close> on doubles.\<close>

fun dadd :: "dbl \<Rightarrow> dbl \<Rightarrow> dbl" where
  "dadd (Fin a) (Fin b) = round_dbl (a + b)"
| "dadd NaN v = NaN"
| "dadd v NaN = NaN"
| "dadd PInf NInf = NaN"
| "dadd NInf PInf = NaN"
| "dadd PInf v = PInf"
| "dadd v PInf = PInf"
| "dadd NInf v = NInf"
| "dadd v NInf = NInf"

text \<open>\<^verbatim>\<open>a / n\<close> for an array length \<open>n > 0\<close>.\<close>

fun ddiv :: "dbl \<Rightarrow> nat \<Rightarrow> dbl" where
  "ddiv (Fin a) n = round_dbl (a / of_nat n)"
| "ddiv v n = v"

subsection \<open>parseInt\<close>

text \<open>
  \<^verbatim>\<open>parseInt(v)\<close> with no radix: convert to string, skip leading white space, read
  an optional sign, switch to radix 16 after a \<^verbatim>\<open>0x\<close>/\<^verbatim>\<open>0X\<close> prefix, then take the
  longest prefix of digits; no digit gives \<^verbatim>\<open>NaN\<close>. The integer read is rounded to a
  double (the language leaves digits after the twentieth to the implementation;
  V8 rounds the whole numeral correctly, as here).
\<close>

definition is_ws :: "char \<Rightarrow> bool" where
  "is_ws c = (of_char c \<in> {9, 10, 11, 12, 13, 32, 160 :: nat})"

definition digit_of :: "char \<Rightarrow> nat" where
  "digit_of c =
     (let k = (of_char c :: nat) in
      if 48 \<le> k \<and> k \<le> 57 then k - 48
      else if 97 \<le> k \<and> k \<le> 122 then k - 87
      else if 65 \<le> k \<and> k \<le> 90 then k - 55
      else 36)"

definition radix_value :: "nat \<Rightarrow> string \<Rightarrow> nat" where
  "radix_value R z = foldl (\<lambda>a c. R * a + digit_of c) 0 z"

definition parseInt_str :: "string \<Rightarrow> dbl" where
  "parseInt_str inputString =
     (let s1 = dropWhile is_ws inputString;
          neg = (s1 \<noteq> [] \<and> hd s1 = CHR ''-'');
          s2 = (if s1 \<noteq> [] \<and> (hd s1 = CHR ''+'' \<or> hd s1 = CHR ''-'') then tl s1 else s1);
          hex = (take 2 s2 = ''0x'' \<or> take 2 s2 = ''0X'');
          R = (if hex then 16 else 10);
          s3 = (if hex then drop 2 s2 else s2);
          z = takeWhile (\<lambda>c. digit_of c < R) s3
      in if z = [] then NaN
         else round_dbl (of_int (if neg then - int (radix_value R z) else int (radix_value R z))))"

definition parseInt :: "jv \<Rightarrow> dbl" where
  "parseInt v = parseInt_str (to_string v)"

section \<open>Schema model\<close>

text \<open>
  A question is a JSON object with a \<^verbatim>\<open>type\<close> string and type-specific fields; the
  code switches on \<^verbatim>\<open>question.type\<close> with no default branch, so any other type
  string (\<open>OtherType\<close>) gets no type-specific treatment. The id is a parameter of
  the record: a submitted question may lack one (\<open>string option\<close>), a stored one
  always has one (\<open>string\<close>). The bounds of a scale are integers from \<open>-2^53\<close> up
  to \<open>2^53 - 1\<close>.
\<close>

datatype qtype = Text | SingleChoice | MultipleChoice | Scale | OtherType

record opt =
  opt_id :: string
  opt_label :: string

record 'i question =
  qid :: 'i
  qtext :: string
  required :: bool
  qtype :: qtype
  options :: "opt list"
  minValue :: "54 word"
  maxValue :: "54 word"

record response =
  response_id :: string
  data :: body
  submittedAt :: string

record survey =
  survey_id :: string
  title :: string
  description :: string
  questions :: "string question list"
  responses :: "response list"
  createdAt :: string
  adminToken :: string
  updatedAt :: "string option"

section \<open>Response validator\<close>

definition dq :: char where
  "dq = char_of (34 :: nat)"

definition required_msg :: "string \<Rightarrow> string" where
  "required_msg t = ''Question '' @ [dq] @ t @ [dq] @ '' is required''"

definition must_be_text_msg :: "string \<Rightarrow> string" where
  "must_be_text_msg t = ''Question '' @ [dq] @ t @ [dq] @ '' must be text''"

definition too_long_msg :: "string \<Rightarrow> string" where
  "too_long_msg t = ''Question '' @ [dq] @ t @ [dq] @ '' response too long (max 5000 chars)''"

definition invalid_option_msg :: "string \<Rightarrow> string" where
  "invalid_option_msg t = ''Invalid option selected for '' @ [dq] @ t @ [dq]"

definition scale_msg :: "string \<Rightarrow> int \<Rightarrow> int \<Rightarrow> string" where
  "scale_msg t lo hi =
     ''Scale answer for '' @ [dq] @ t @ [dq] @ '' must be between '' @ show_int lo
     @ '' and '' @ show_int hi"

text \<open>\<^verbatim>\<open>typeof answer !== 'string'\<close> and \<^verbatim>\<open>Array.isArray(answer)\<close>.\<close>

fun is_string :: "jv \<Rightarrow> bool" where
  "is_string (JStr s) = True"
| "is_string v = False"

fun is_array :: "jv \<Rightarrow> bool" where
  "is_array (JArr xs) = True"
| "is_array v = False"

text \<open>
  \<^verbatim>\<open>answer.length > 5000\<close>: strings and arrays have a length; the built-in functions
  have their arity (at most 2); every other value has no \<^verbatim>\<open>length\<close> and the
  comparison with \<^verbatim>\<open>undefined\<close> is false.
\<close>

fun length_gt_5000 :: "jv \<Rightarrow> bool" where
  "length_gt_5000 (JStr s) = (length s > 5000)"
| "length_gt_5000 (JArr xs) = (length xs > 5000)"
| "length_gt_5000 v = False"

text \<open>
  \<^verbatim>\<open>validOptions.includes(a)\<close>: option ids are strings and \<^verbatim>\<open>includes\<close> compares
  without coercion, so only a string equal to an id is included.
\<close>

fun includes_js :: "string list \<Rightarrow> jv \<Rightarrow> bool" where
  "includes_js validOptions (JStr s) = (s \<in> set validOptions)"
| "includes_js validOptions v = False"

fun elements :: "jv \<Rightarrow> jv list" where
  "elements (JArr xs) = xs"
| "elements v = []"

text \<open>One iteration of the loop of \<^verbatim>\<open>validateResponse\<close>: the errors it pushes.\<close>

definition validate_question :: "string question \<Rightarrow> jv \<Rightarrow> string list" where
  "validate_question question answer =
     (if required question \<and> \<not> truthy answer then [required_msg (qtext question)]
      else case qtype question of
        Text \<Rightarrow>
          (if truthy answer \<and> \<not> is_string answer then [must_be_text_msg (qtext question)] else [])
          @ (if truthy answer \<and> length_gt_5000 answer then [too_long_msg (qtext question)] else [])
      | MultipleChoice \<Rightarrow>
          (if truthy answer then
             (let validOptions = map opt_id (options question) in
              if is_array answer then
                (if \<not> list_all (includes_js validOptions) (elements answer)
                 then [invalid_option_msg (qtext question)] else [])
              else if \<not> includes_js validOptions answer
                then [invalid_option_msg (qtext question)] else [])
           else [])
      | SingleChoice \<Rightarrow>
          (if truthy answer then
             (let validOptions = map opt_id (options question) in
              if is_array answer then
                (if \<not> list_all (includes_js validOptions) (elements answer)
                 then [invalid_option_msg (qtext question)] else [])
              else if \<not> includes_js validOptions answer
                then [invalid_option_msg (qtext question)] else [])
           else [])
      | Scale \<Rightarrow>
          (if truthy answer then
             (let num = parseInt answer in
              if isNaN num \<or> num_less num (sint (minValue question))
                 \<or> num_greater num (sint (maxValue question))
              then [scale_msg (qtext question) (sint (minValue question)) (sint (maxValue question))]
              else [])
           else [])
      | OtherType \<Rightarrow> [])"

fun validate_questions :: "string question list \<Rightarrow> body \<Rightarrow> string list" where
  "validate_questions [] response = []"
| "validate_questions (question # rest) response =
     validate_question question (js_get response (qid question)) @ validate_questions rest response"

definition validateResponse :: "survey \<Rightarrow> body \<Rightarrow> string list" where
  "validateResponse survey response = validate_questions (questions survey) response"

section \<open>Aggregator\<close>

text \<open>
  \<^verbatim>\<open>optionCounts\<close> is a plain object used as a dictionary from option id to
  \<^verbatim>\<open>{label, count}\<close>. Its own properties are kept in creation order; assigning an
  existing key replaces the value in place. Assigning the key \<^verbatim>\<open>__proto__\<close> creates no
  own property (it sets the prototype).
\<close>

type_synonym option_counts = "(string \<times> string \<times> nat) list"

fun obj_set :: "(string \<times> 'v) list \<Rightarrow> string \<Rightarrow> 'v \<Rightarrow> (string \<times> 'v) list" where
  "obj_set [] k v = [(k, v)]"
| "obj_set ((k', v') # kvs) k v = (if k' = k then (k, v) # kvs else (k', v') # obj_set kvs k v)"

definition init_counts :: "opt list \<Rightarrow> option_counts" where
  "init_counts opts =
     foldl (\<lambda>optionCounts opt.
              if opt_id opt = ''__proto__'' then optionCounts
              else obj_set optionCounts (opt_id opt) (opt_label opt, 0))
       [] opts"

text \<open>
  \<^verbatim>\<open>if (optionCounts[a]) optionCounts[a].count++\<close>: the key is \<^verbatim>\<open>a\<close> converted to a
  string; only an own entry is counted (an inherited member is truthy too, but
  incrementing its \<^verbatim>\<open>count\<close> does not touch the own entries).
\<close>

definition bump :: "option_counts \<Rightarrow> jv \<Rightarrow> option_counts" where
  "bump optionCounts a =
     map (\<lambda>(k, l, c). if k = to_string a then (k, l, Suc c) else (k, l, c)) optionCounts"

definition count_answer :: "option_counts \<Rightarrow> jv \<Rightarrow> option_counts" where
  "count_answer optionCounts answer =
     (if truthy answer then
        (if is_array answer then foldl bump optionCounts (elements answer)
         else bump optionCounts answer)
      else optionCounts)"

definition count_responses :: "option_counts \<Rightarrow> response list \<Rightarrow> string \<Rightarrow> option_counts" where
  "count_responses optionCounts rs q = foldl (\<lambda>oc r. count_answer oc (js_get (data r) q)) optionCounts rs"

text \<open>
  \<^verbatim>\<open>Object.entries\<close> lists the keys that are array indices (canonical decimal
  numerals below \<open>2^32 - 1\<close>) first, in ascending numeric order, then the other
  keys in creation order.
\<close>

definition is_array_index :: "string \<Rightarrow> bool" where
  "is_array_index k =
     (k \<noteq> [] \<and> list_all (\<lambda>c. digit_of c < 10) k \<and> (k = ''0'' \<or> hd k \<noteq> CHR ''0'')
      \<and> radix_value 10 k < 4294967295)"

definition entries :: "(string \<times> 'v) list \<Rightarrow> (string \<times> 'v) list" where
  "entries obj =
     sort_key (\<lambda>kv. radix_value 10 (fst kv)) (filter (\<lambda>kv. is_array_index (fst kv)) obj)
     @ filter (\<lambda>kv. \<not> is_array_index (fst kv)) obj"

text \<open>
  \<^verbatim>\<open>x.toFixed(2)\<close>, following the language definition. A value that is not finite
  prints as its name. From \<open>10^21\<close> on the result is the number's ordinary string,
  which is in exponent notation there; \<open>Exponential x\<close> stands for that string of
  the double \<open>x\<close>, whose digits are not computed here. Below \<open>10^21\<close>: sign, then the
  integer \<open>n\<close> nearest to \<open>100\<close> times the magnitude (the larger one on a tie),
  printed with at least three digits and a point before the last two.
\<close>

datatype average = Null | Printed string | Exponential rat

definition fixed2 :: "rat \<Rightarrow> string" where
  "fixed2 x0 =
     (let s = (if x0 < 0 then ''-'' else []);
          x = \<bar>x0\<bar>;
          n = nat \<lfloor>x * 100 + 1 / 2\<rfloor>;
          m = (if n = 0 then ''0'' else show_nat n);
          m' = (if length m \<le> 2 then replicate (3 - length m) (CHR ''0'') @ m else m);
          k = length m'
      in s @ take (k - 2) m' @ ''.'' @ drop (k - 2) m')"

fun toFixed2 :: "dbl \<Rightarrow> average" where
  "toFixed2 NaN = Printed ''NaN''"
| "toFixed2 PInf = Printed ''Infinity''"
| "toFixed2 NInf = Printed ''-Infinity''"
| "toFixed2 (Fin x) = (if 10 ^ 21 \<le> \<bar>x\<bar> then Exponential x else Printed (fixed2 x))"

datatype summary =
    TextSummary "jv list"
  | ChoiceSummary option_counts
  | ScaleSummary "dbl list" average
  | NoSummary

record question_results =
  qr_id :: string
  qr_text :: string
  qr_type :: qtype
  qr_summary :: summary

record results =
  res_surveyId :: string
  res_title :: string
  totalResponses :: nat
  res_questions :: "question_results list"

text \<open>
  \<^verbatim>\<open>survey.responses.map(r => parseInt(r.data[question.id])).filter(v => !isNaN(v))\<close>
\<close>

definition scaleValues_of :: "response list \<Rightarrow> string \<Rightarrow> dbl list" where
  "scaleValues_of rs q = filter (\<lambda>v. \<not> isNaN v) (map (\<lambda>r. parseInt (js_get (data r) q)) rs)"

text \<open>
  \<^verbatim>\<open>(scaleValues.reduce((a, b) => a + b, 0) / scaleValues.length).toFixed(2)\<close>, every
  step in doubles, or \<^verbatim>\<open>null\<close>.
\<close>

definition average_of :: "dbl list \<Rightarrow> average" where
  "average_of scaleValues =
     (if length scaleValues > 0
      then toFixed2 (ddiv (foldl dadd (Fin 0) scaleValues) (length scaleValues))
      else Null)"

definition summarise :: "survey \<Rightarrow> string question \<Rightarrow> summary" where
  "summarise survey question =
     (case qtype question of
        Text \<Rightarrow> TextSummary (filter truthy (map (\<lambda>r. js_get (data r) (qid question)) (responses survey)))
      | SingleChoice \<Rightarrow>
          ChoiceSummary (entries (count_responses (init_counts (options question))
                                    (responses survey) (qid question)))
      | MultipleChoice \<Rightarrow>
          ChoiceSummary (entries (count_responses (init_counts (options question))
                                    (responses survey) (qid question)))
      | Scale \<Rightarrow>
          (let scaleValues = scaleValues_of (responses survey) (qid question)
           in ScaleSummary scaleValues (average_of scaleValues))
      | OtherType \<Rightarrow> NoSummary)"

definition question_result :: "survey \<Rightarrow> string question \<Rightarrow> question_results" where
  "question_result survey question =
     \<lparr>qr_id = qid question, qr_text = qtext question, qr_type = qtype question,
      qr_summary = summarise survey question\<rparr>"

definition aggregate :: "survey \<Rightarrow> results" where
  "aggregate survey =
     \<lparr>res_surveyId = survey_id survey, res_title = title survey,
      totalResponses = length (responses survey),
      res_questions = map (question_result survey) (questions survey)\<rparr>"

section \<open>Survey registry\<close>

text \<open>
  The process state: \<^verbatim>\<open>store\<close> (own properties of \<^verbatim>\<open>store.surveys\<close>, and \<^verbatim>\<open>nextId\<close>)
  and the two \<^verbatim>\<open>app.locals\<close> fields. \<open>builtins_written\<close> records that a request has
  written survey fields onto a built-in object of the runtime (see \<open>updateSurvey\<close>);
  the functions below describe the server while it is \<open>False\<close>.
\<close>

record store =
  surveys :: "string \<rightharpoonup> survey"
  nextId :: nat
  currentSurveyId :: "string option"
  currentSurveyAdminToken :: "string option"
  builtins_written :: bool

definition initial_store :: store where
  "initial_store =
     \<lparr>surveys = Map.empty, nextId = 1, currentSurveyId = None,
      currentSurveyAdminToken = None, builtins_written = False\<rparr>"

text \<open>What a handler reads from outside the store: clock, random strings, request origin.\<close>

record env =
  now_iso :: string
  now_ms :: nat
  random_token :: string
  random_suffix :: string
  origin :: string

datatype error =
    NotFound
  | Unauthorized
  | AlreadyActive string
  | ValidationFailed "string list"
  | MalformedInput
  | InternalError

text \<open>
  \<^verbatim>\<open>store.surveys[req.params.surveyId]\<close>: \<^verbatim>\<open>store.surveys\<close> is a plain object, so a
  key it does not own but \<^verbatim>\<open>Object.prototype\<close> has yields a built-in member, which
  is truthy and passes the \<^verbatim>\<open>if (!survey)\<close> test.
\<close>

datatype slot = Missing | Own survey | Inherited

definition lookup_survey :: "store \<Rightarrow> string \<Rightarrow> slot" where
  "lookup_survey st surveyId =
     (case surveys st surveyId of
        Some survey \<Rightarrow> Own survey
      | None \<Rightarrow> if surveyId \<in> set object_prototype_keys then Inherited else Missing)"

definition generateId :: "store \<Rightarrow> string \<times> store" where
  "generateId st = (''survey_'' @ show_nat (nextId st), st\<lparr>nextId := nextId st + 1\<rparr>)"

record payload =
  p_title :: "string option"
  p_description :: "string option"
  p_questions :: "string option question list option"

text \<open>
  \<^verbatim>\<open>!title || !questions || !Array.isArray(questions) || questions.length === 0\<close>;
  \<open>None\<close> for the questions stands for a missing or non-array value. The elements
  of the array are question objects (on a \<^verbatim>\<open>null\<close> element \<^verbatim>\<open>q.id\<close> throws and the
  handler answers 500; such payloads are outside the model).
\<close>

definition invalid_payload :: "payload \<Rightarrow> bool" where
  "invalid_payload p =
     ((case p_title p of None \<Rightarrow> True | Some t \<Rightarrow> t = [])
      \<or> (case p_questions p of None \<Rightarrow> True | Some qs \<Rightarrow> qs = []))"

text \<open>\<^verbatim>\<open>questions.map((q, idx) => ({...q, id: q.id || `q_${idx}`}))\<close>\<close>

definition assign_id :: "nat \<Rightarrow> string option question \<Rightarrow> string question" where
  "assign_id idx q =
     \<lparr>qid = (case qid q of
                Some i \<Rightarrow> if i \<noteq> [] then i else ''q_'' @ show_nat idx
              | None \<Rightarrow> ''q_'' @ show_nat idx),
      qtext = qtext q, required = required q, qtype = qtype q, options = options q,
      minValue = minValue q, maxValue = maxValue q\<rparr>"

definition assign_ids :: "string option question list \<Rightarrow> string question list" where
  "assign_ids qs = map (\<lambda>(idx, q). assign_id idx q) (enumerate 0 qs)"

definition or_empty :: "string option \<Rightarrow> string" where
  "or_empty d = (case d of Some x \<Rightarrow> x | None \<Rightarrow> [])"

record create_reply =
  cr_id :: string
  cr_adminToken :: string
  cr_clientUrl :: string
  cr_adminUrl :: string

definition is_active :: "store \<Rightarrow> bool" where
  "is_active st = (case currentSurveyId st of Some c \<Rightarrow> c \<noteq> [] | None \<Rightarrow> False)"

text \<open>\<^verbatim>\<open>POST /api/surveys\<close>\<close>

definition createSurvey :: "env \<Rightarrow> payload \<Rightarrow> store \<Rightarrow> (error + create_reply) \<times> store" where
  "createSurvey e p st =
     (if is_active st then (Inl (AlreadyActive (or_empty (currentSurveyId st))), st)
      else if invalid_payload p then (Inl MalformedInput, st)
      else
        (let (surveyId, st1) = generateId st;
             survey = \<lparr>survey_id = surveyId, title = or_empty (p_title p),
                       description = or_empty (p_description p),
                       questions = assign_ids (case p_questions p of Some qs \<Rightarrow> qs | None \<Rightarrow> []),
                       responses = [], createdAt = now_iso e,
                       adminToken = random_token e, updatedAt = None\<rparr>
         in (Inr \<lparr>cr_id = surveyId, cr_adminToken = adminToken survey,
                   cr_clientUrl = origin e @ ''/survey/'' @ surveyId,
                   cr_adminUrl = origin e @ ''/admin/'' @ surveyId @ ''?token='' @ adminToken survey\<rparr>,
             st1\<lparr>surveys := (surveys st1)(surveyId \<mapsto> survey),
                  currentSurveyId := Some surveyId,
                  currentSurveyAdminToken := Some (adminToken survey)\<rparr>)))"

record update_reply =
  ur_id :: "string option"
  ur_title :: string
  ur_description :: string
  ur_questions :: "string question list"

text \<open>
  \<^verbatim>\<open>PUT /api/surveys/:surveyId\<close>, with \<open>token\<close> the query parameter (\<open>None\<close> when the
  request has none). When the id resolves to a built-in member, that object has
  no \<^verbatim>\<open>adminToken\<close>, so the comparison \<^verbatim>\<open>token !== undefined\<close> lets exactly the
  requests without a token through, and the assignments then land on the
  built-in object.
\<close>

definition updateSurvey ::
  "env \<Rightarrow> string \<Rightarrow> string option \<Rightarrow> payload \<Rightarrow> store \<Rightarrow> (error + update_reply) \<times> store" where
  "updateSurvey e surveyId token p st =
     (case lookup_survey st surveyId of
        Missing \<Rightarrow> (Inl NotFound, st)
      | Inherited \<Rightarrow>
          if token \<noteq> None then (Inl Unauthorized, st)
          else if invalid_payload p then (Inl MalformedInput, st)
          else (Inr \<lparr>ur_id = None, ur_title = or_empty (p_title p),
                     ur_description = or_empty (p_description p),
                     ur_questions = assign_ids (case p_questions p of Some qs \<Rightarrow> qs | None \<Rightarrow> [])\<rparr>,
                st\<lparr>builtins_written := True\<rparr>)
      | Own survey \<Rightarrow>
          if token \<noteq> Some (adminToken survey) then (Inl Unauthorized, st)
          else if invalid_payload p then (Inl MalformedInput, st)
          else
            (let survey' = survey\<lparr>title := or_empty (p_title p),
                                  description := or_empty (p_description p),
                                  questions := assign_ids (case p_questions p of Some qs \<Rightarrow> qs | None \<Rightarrow> []),
                                  updatedAt := Some (now_iso e)\<rparr>
             in (Inr \<lparr>ur_id = Some (survey_id survey'), ur_title = title survey',
                       ur_description = description survey', ur_questions = questions survey'\<rparr>,
                 st\<lparr>surveys := (surveys st)(surveyId \<mapsto> survey')\<rparr>)))"

text \<open>
  \<^verbatim>\<open>POST /api/surveys/:surveyId/responses\<close>. On a built-in member
  \<^verbatim>\<open>survey.questions\<close> is undefined, iterating it throws, and the handler's
  \<^verbatim>\<open>catch\<close> answers 500.
\<close>

definition submitResponse :: "env \<Rightarrow> string \<Rightarrow> body \<Rightarrow> store \<Rightarrow> (error + string) \<times> store" where
  "submitResponse e surveyId b st =
     (case lookup_survey st surveyId of
        Missing \<Rightarrow> (Inl NotFound, st)
      | Inherited \<Rightarrow> (Inl InternalError, st)
      | Own survey \<Rightarrow>
          (let errors = validateResponse survey b in
           if length errors > 0 then (Inl (ValidationFailed errors), st)
           else
             (let response = \<lparr>response_id = ''response_'' @ show_nat (now_ms e) @ ''_'' @ random_suffix e,
                               data = b, submittedAt = now_iso e\<rparr>
              in (Inr (response_id response),
                  st\<lparr>surveys := (surveys st)(surveyId \<mapsto> survey\<lparr>responses := responses survey @ [response]\<rparr>)\<rparr>))))"

text \<open>
  \<^verbatim>\<open>GET /api/surveys/:surveyId/results\<close>. The token test is
  \<^verbatim>\<open>req.query.token && req.query.token !== survey.adminToken\<close>. On a built-in member
  \<^verbatim>\<open>survey.responses.length\<close> throws and the handler answers 500.
\<close>

definition token_given :: "string option \<Rightarrow> bool" where
  "token_given token = (case token of Some t \<Rightarrow> t \<noteq> [] | None \<Rightarrow> False)"

definition getResults :: "string \<Rightarrow> string option \<Rightarrow> store \<Rightarrow> (error + results) \<times> store" where
  "getResults surveyId token st =
     (case lookup_survey st surveyId of
        Missing \<Rightarrow> (Inl NotFound, st)
      | Inherited \<Rightarrow> if token_given token then (Inl Unauthorized, st) else (Inl InternalError, st)
      | Own survey \<Rightarrow>
          if token_given token \<and> token \<noteq> Some (adminToken survey) then (Inl Unauthorized, st)
          else (Inr (aggregate survey), st))"

section \<open>The results handler and the runtime\<close>

text \<open>
  The results handler writes nothing to \<^verbatim>\<open>store\<close>, but it does write to objects of
  the runtime that outlive the request. In
  \<^verbatim>\<open>if (optionCounts[a]) optionCounts[a].count++\<close> a key that \<^verbatim>\<open>optionCounts\<close> does not
  own is looked up along the prototype chain: for the name of a built-in function
  of \<^verbatim>\<open>Object.prototype\<close> the increment puts a property \<^verbatim>\<open>count\<close> (with value \<^verbatim>\<open>NaN\<close>)
  on that function, and for \<^verbatim>\<open>__proto__\<close> it puts \<^verbatim>\<open>count\<close> on \<^verbatim>\<open>Object.prototype\<close>
  itself, from where every plain object inherits it. \<open>runtime\<close> records these
  writes; \<open>pristine\<close> is the runtime of a fresh process.
\<close>

record runtime =
  prototype_count :: bool
  member_count :: "string set"

definition pristine :: runtime where
  "pristine = \<lparr>prototype_count = False, member_count = {}\<rparr>"

text \<open>
  \<^verbatim>\<open>obj[key]\<close> in a given runtime: once \<^verbatim>\<open>Object.prototype\<close> carries \<^verbatim>\<open>count\<close>, an object
  without an own \<^verbatim>\<open>count\<close> yields \<^verbatim>\<open>NaN\<close> for it.
\<close>

definition js_read :: "runtime \<Rightarrow> body \<Rightarrow> string \<Rightarrow> jv" where
  "js_read rt obj k =
     (case obj k of
        Some v \<Rightarrow> v
      | None \<Rightarrow>
          if k \<in> set object_prototype_keys then JInherited k
          else if k = ''count'' \<and> prototype_count rt then JNaN
          else JUndefined)"

text \<open>\<^verbatim>\<open>store.surveys[req.params.surveyId]\<close> followed by \<^verbatim>\<open>if (!survey)\<close>.\<close>

definition find_survey :: "runtime \<Rightarrow> store \<Rightarrow> string \<Rightarrow> slot" where
  "find_survey rt st surveyId =
     (case surveys st surveyId of
        Some survey \<Rightarrow> Own survey
      | None \<Rightarrow> if truthy (js_read rt Map.empty surveyId) then Inherited else Missing)"

text \<open>
  The object \<^verbatim>\<open>optionCounts\<close>: its own entries and, when an option with id
  \<^verbatim>\<open>__proto__\<close> was assigned, the entry (label and count) that became its prototype.
\<close>

record counts_object =
  own_counts :: option_counts
  proto_counts :: "(string \<times> nat) option"

definition init_counts_object :: "opt list \<Rightarrow> counts_object" where
  "init_counts_object opts =
     foldl (\<lambda>optionCounts opt.
              if opt_id opt = ''__proto__''
              then optionCounts\<lparr>proto_counts := Some (opt_label opt, 0)\<rparr>
              else optionCounts\<lparr>own_counts :=
                     obj_set (own_counts optionCounts) (opt_id opt) (opt_label opt, 0)\<rparr>)
       \<lparr>own_counts = [], proto_counts = None\<rparr> opts"

text \<open>
  \<^verbatim>\<open>if (optionCounts[a]) optionCounts[a].count++\<close> with its writes. An own entry is
  counted. Otherwise the key is looked up in the prototype entry, if there is one
  (\<^verbatim>\<open>__proto__\<close> yields that entry, whose count is incremented; \<^verbatim>\<open>label\<close> and \<^verbatim>\<open>count\<close>
  yield a string and a number, on which the increment is lost), and then in
  \<^verbatim>\<open>Object.prototype\<close>, where the increment lands on the built-in found. An inherited
  \<^verbatim>\<open>count\<close> that is \<^verbatim>\<open>NaN\<close> is falsy.
\<close>

definition bump_object :: "counts_object \<times> runtime \<Rightarrow> jv \<Rightarrow> counts_object \<times> runtime" where
  "bump_object w a =
     (let optionCounts = fst w; rt = snd w; key = to_string a in
      if key \<in> fst ` set (own_counts optionCounts)
      then (optionCounts\<lparr>own_counts := bump (own_counts optionCounts) a\<rparr>, rt)
      else
        (case proto_counts optionCounts of
           Some (l, c) \<Rightarrow>
             if key = ''__proto__'' then (optionCounts\<lparr>proto_counts := Some (l, Suc c)\<rparr>, rt)
             else if key = ''label'' \<or> key = ''count'' then (optionCounts, rt)
             else if key \<in> set object_prototype_keys
             then (optionCounts, rt\<lparr>member_count := insert key (member_count rt)\<rparr>)
             else (optionCounts, rt)
         | None \<Rightarrow>
             if key = ''__proto__'' then (optionCounts, rt\<lparr>prototype_count := True\<rparr>)
             else if key \<in> set object_prototype_keys
             then (optionCounts, rt\<lparr>member_count := insert key (member_count rt)\<rparr>)
             else (optionCounts, rt)))"

definition count_answer_object :: "counts_object \<times> runtime \<Rightarrow> jv \<Rightarrow> counts_object \<times> runtime" where
  "count_answer_object w answer =
     (if truthy answer then
        (if is_array answer then foldl bump_object w (elements answer)
         else bump_object w answer)
      else w)"

definition count_responses_object ::
  "counts_object \<times> runtime \<Rightarrow> response list \<Rightarrow> string \<Rightarrow> counts_object \<times> runtime" where
  "count_responses_object w rs q =
     foldl (\<lambda>w r. count_answer_object w (js_read (snd w) (data r) q)) w rs"

definition summarise_in :: "runtime \<Rightarrow> survey \<Rightarrow> string question \<Rightarrow> summary \<times> runtime" where
  "summarise_in rt survey question =
     (case qtype question of
        Text \<Rightarrow>
          (TextSummary (filter truthy (map (\<lambda>r. js_read rt (data r) (qid question))
                                          (responses survey))), rt)
      | SingleChoice \<Rightarrow>
          (let w = count_responses_object (init_counts_object (options question), rt)
                     (responses survey) (qid question)
           in (ChoiceSummary (entries (own_counts (fst w))), snd w))
      | MultipleChoice \<Rightarrow>
          (let w = count_responses_object (init_counts_object (options question), rt)
                     (responses survey) (qid question)
           in (ChoiceSummary (entries (own_counts (fst w))), snd w))
      | Scale \<Rightarrow>
          (let scaleValues = filter (\<lambda>v. \<not> isNaN v)
                               (map (\<lambda>r. parseInt (js_read rt (data r) (qid question)))
                                  (responses survey))
           in (ScaleSummary scaleValues (average_of scaleValues), rt))
      | OtherType \<Rightarrow> (NoSummary, rt))"

text \<open>\<^verbatim>\<open>survey.questions.map(question => ...)\<close>, the runtime passing from one question to the next.\<close>

definition question_results_in ::
  "runtime \<Rightarrow> survey \<Rightarrow> string question list \<Rightarrow> question_results list \<times> runtime" where
  "question_results_in rt survey qs =
     foldl (\<lambda>acc question.
              (let sr = summarise_in (snd acc) survey question
               in (fst acc @ [\<lparr>qr_id = qid question, qr_text = qtext question,
                                qr_type = qtype question, qr_summary = fst sr\<rparr>], snd sr)))
       ([], rt) qs"

text \<open>
  The handler of \<^verbatim>\<open>GET /api/surveys/:surveyId/results\<close> as a step on store and
  runtime, given what a request may read from outside them.
\<close>

definition results_handler ::
  "env \<Rightarrow> string \<Rightarrow> string option \<Rightarrow> store \<times> runtime \<Rightarrow> (error + results) \<times> store \<times> runtime" where
  "results_handler e surveyId token w =
     (let st = fst w; rt = snd w in
      case find_survey rt st surveyId of
        Missing \<Rightarrow> (Inl NotFound, st, rt)
      | Inherited \<Rightarrow>
          if token_given token then (Inl Unauthorized, st, rt) else (Inl InternalError, st, rt)
      | Own survey \<Rightarrow>
          if token_given token \<and> token \<noteq> Some (adminToken survey) then (Inl Unauthorized, st, rt)
          else
            (let qr = question_results_in rt survey (questions survey)
             in (Inr \<lparr>res_surveyId = survey_id survey, res_title = title survey,
                       totalResponses = length (responses survey), res_questions = fst qr\<rparr>,
                 st, snd qr)))"

text \<open>A series of results requests, each with its own environment, id and token.\<close>

fun results_calls ::
  "(env \<times> string \<times> string option) list \<Rightarrow> store \<times> runtime \<Rightarrow> store \<times> runtime" where
  "results_calls [] w = w"
| "results_calls ((e, surveyId, token) # rest) w =
     results_calls rest (snd (results_handler e surveyId token w))"

section \<open>Vocabulary of the specification and sample data\<close>

text \<open>An answer the specification calls absent or empty, empty sequences left aside.\<close>

definition answer_missing :: "body \<Rightarrow> string \<Rightarrow> bool" where
  "answer_missing b k = (js_get b k = JUndefined \<or> js_get b k = JNull \<or> js_get b k = JStr [])"

text \<open>A value that is one of the question's declared option ids.\<close>

definition declared :: "string question \<Rightarrow> jv \<Rightarrow> bool" where
  "declared q v = (\<exists>x\<in>set (options q). v = JStr (opt_id x))"

text \<open>Whether the parsed integer of an answer lies in the question's inclusive range.\<close>

definition in_range :: "string question \<Rightarrow> jv \<Rightarrow> bool" where
  "in_range q a =
     (case parseInt a of
        Fin x \<Rightarrow> of_int (sint (minValue q)) \<le> x \<and> x \<le> of_int (sint (maxValue q))
      | _ \<Rightarrow> False)"

definition sample_options :: "opt list" where
  "sample_options = [\<lparr>opt_id = ''a'', opt_label = ''A''\<rparr>, \<lparr>opt_id = ''b'', opt_label = ''B''\<rparr>]"

definition sample_question :: "qtype \<Rightarrow> bool \<Rightarrow> 54 word \<Rightarrow> 54 word \<Rightarrow> string question" where
  "sample_question t r lo hi =
     \<lparr>qid = ''q_0'', qtext = ''Q'', required = r, qtype = t, options = sample_options,
      minValue = lo, maxValue = hi\<rparr>"

definition sample_survey :: "string question list \<Rightarrow> body list \<Rightarrow> survey" where
  "sample_survey qs bs =
     \<lparr>survey_id = ''survey_1'', title = ''T'', description = [], questions = qs,
      responses = map (\<lambda>b. \<lparr>response_id = ''r'', data = b, submittedAt = ''t''\<rparr>) bs,
      createdAt = ''t'', adminToken = ''secret'', updatedAt = None\<rparr>"

definition sample_store :: "survey \<Rightarrow> store" where
  "sample_store s =
     \<lparr>surveys = [survey_id s \<mapsto> s], nextId = 2, currentSurveyId = Some (survey_id s),
      currentSurveyAdminToken = Some (adminToken s), builtins_written = False\<rparr>"

definition sample_env :: env where
  "sample_env =
     \<lparr>now_iso = ''2024-01-01T00:00:00.000Z'', now_ms = 1704067200000, random_token = ''k3j9x0q1feb'',
      random_suffix = ''a1b2c3d4e'', origin = ''http://localhost:3000''\<rparr>"

text \<open>
  Requests that reach a handler writing to the store or computing results. The
  remaining routes (client and admin views, CSV export, QR code, health, pages)
  contain no assignment to \<^verbatim>\<open>store\<close> or \<^verbatim>\<open>app.locals\<close>.
\<close>

datatype request =
    Create payload
  | Update string "string option" payload
  | Submit string body
  | Results string "string option"

definition handle :: "env \<Rightarrow> request \<Rightarrow> store \<Rightarrow> store" where
  "handle e r st =
     (case r of
        Create p \<Rightarrow> snd (createSurvey e p st)
      | Update surveyId token p \<Rightarrow> snd (updateSurvey e surveyId token p st)
      | Submit surveyId b \<Rightarrow> snd (submitResponse e surveyId b st)
      | Results surveyId token \<Rightarrow> snd (getResults surveyId token st))"

fun run :: "(env \<times> request) list \<Rightarrow> store \<Rightarrow> store" where
  "run [] st = st"
| "run ((e, r) # rest) st = run rest (handle e r st)"

text \<open>
  What holds of the registry from the empty store on and is kept by every handler:
  while no survey is active the store is empty, and the active id names a stored
  survey carrying that id.
\<close>

definition registry_ok :: "store \<Rightarrow> bool" where
  "registry_ok st =
     ((\<not> is_active st \<longrightarrow> surveys st = Map.empty)
      \<and> (\<forall>c. currentSurveyId st = Some c \<longrightarrow> c \<noteq> [] \<and> (\<exists>s. surveys st c = Some s \<and> survey_id s = c)))"

definition sample_questions :: "string option question list" where
  "sample_questions =
     [\<lparr>qid = None, qtext = ''Name'', required = True, qtype = Text,
       options = [], minValue = 0, maxValue = 0\<rparr>,
      \<lparr>qid = Some ''rating'', qtext = ''Rating'', required = False, qtype = Scale,
       options = [], minValue = 1, maxValue = 5\<rparr>,
      \<lparr>qid = None, qtext = ''Dish'', required = False, qtype = SingleChoice,
       options = sample_options, minValue = 0, maxValue = 0\<rparr>]"

definition sample_payload :: payload where
  "sample_payload =
     \<lparr>p_title = Some ''Lunch'', p_description = None, p_questions = Some sample_questions\<rparr>"

text \<open>The survey after an authorised update with payload \<open>p\<close> at time \<open>now_iso e\<close>.\<close>

definition updated :: "env \<Rightarrow> payload \<Rightarrow> survey \<Rightarrow> survey" where
  "updated e p s =
     s\<lparr>title := or_empty (p_title p), description := or_empty (p_description p),
       questions := assign_ids (case p_questions p of Some qs \<Rightarrow> qs | None \<Rightarrow> []),
       updatedAt := Some (now_iso e)\<rparr>"

text \<open>
  The items of a stored answer as the aggregator walks them: the elements of a
  sequence, a truthy scalar as a singleton, nothing for a falsy value.
\<close>

definition answer_items :: "jv \<Rightarrow> jv list" where
  "answer_items a = (if truthy a then (if is_array a then elements a else [a]) else [])"

text \<open>How often option id \<open>k\<close> occurs among the items of all answers to question \<open>q\<close>.\<close>

definition occurrences :: "response list \<Rightarrow> string \<Rightarrow> string \<Rightarrow> nat" where
  "occurrences rs q k =
     sum_list (map (\<lambda>r. count_list (map to_string (answer_items (js_get (data r) q))) k) rs)"

text \<open>In how many responses option id \<open>k\<close> appears in the answer to question \<open>q\<close>.\<close>

definition responses_with :: "response list \<Rightarrow> string \<Rightarrow> string \<Rightarrow> nat" where
  "responses_with rs q k =
     length (filter (\<lambda>r. k \<in> set (map to_string (answer_items (js_get (data r) q)))) rs)"

text \<open>What \<^verbatim>\<open>parseInt\<close> finds in the stored answers to question \<open>q\<close>, in order.\<close>

definition parsed_values :: "response list \<Rightarrow> string \<Rightarrow> dbl list" where
  "parsed_values rs q =
     concat (map (\<lambda>r. case parseInt (js_get (data r) q) of NaN \<Rightarrow> [] | v \<Rightarrow> [v]) rs)"

text \<open>A list of integers as doubles.\<close>

definition exact :: "int list \<Rightarrow> dbl list" where
  "exact ns = map (\<lambda>n. Fin (of_int n)) ns"

definition mean :: "int list \<Rightarrow> rat" where
  "mean xs = of_int (sum_list xs) / of_int (int (length xs))"

text \<open>The decimal numeral of \<open>n\<close> hundredths, with sign: integer part, point, two digits.\<close>

definition decimal2 :: "bool \<Rightarrow> nat \<Rightarrow> string" where
  "decimal2 neg n =
     (if neg then ''-'' else []) @ show_nat (n div 100) @ ''.''
     @ [digit_char (n div 10 mod 10), digit_char (n mod 10)]"

text \<open>Adding \<open>f k\<close> to the count stored under every key \<open>k\<close>.\<close>

definition add_counts :: "(string \<Rightarrow> nat) \<Rightarrow> option_counts \<Rightarrow> option_counts" where
  "add_counts f oc = map (\<lambda>(k, l, c). (k, l, c + f k)) oc"

section \<open>Properties\<close>

declare of_int_sint [simp del]

subsection \<open>Doubles\<close>

lemma pow2_powi: "pow2 k = 2 powi k"
proof (cases "0 \<le> k")
  case True
  then show ?thesis by (simp add: pow2_def power_int_def)
next
  case False
  then show ?thesis by (simp add: pow2_def power_int_def power_one_over)
qed

lemma pow2_pos: "0 < pow2 k"
  by (simp add: pow2_def)

lemma pow2_add: "pow2 (a + b) = pow2 a * pow2 b"
  by (simp add: pow2_powi power_int_add)

lemma pow2_nat: "0 \<le> k \<Longrightarrow> pow2 k = 2 ^ nat k"
  by (simp add: pow2_def)

lemma pow2_mono: "a \<le> b \<Longrightarrow> pow2 a \<le> pow2 b"
  by (simp add: pow2_powi power_int_increasing)

lemma pow2_less: "a < b \<Longrightarrow> pow2 a < pow2 b"
  by (simp add: pow2_powi power_int_strict_increasing)

lemma bit_length_bounds: "0 < n \<Longrightarrow> 2 ^ (bit_length n - 1) \<le> n \<and> n < 2 ^ bit_length n"
proof (induction n rule: bit_length.induct)
  case (1 n)
  show ?case
  proof (cases "n div 2 = 0")
    case True
    with "1.prems" have "n = 1" by (simp add: div_eq_0_iff)
    then show ?thesis
      by (simp add: bit_length.simps [of "Suc 0"] bit_length.simps [of 0])
  next
    case False
    then have ih: "2 ^ (bit_length (n div 2) - 1) \<le> n div 2" "n div 2 < 2 ^ bit_length (n div 2)"
      using "1.IH" "1.prems" by simp_all
    have pos: "0 < bit_length (n div 2)"
      using False by (simp add: bit_length.simps [of "n div 2"])
    have b: "bit_length n = Suc (bit_length (n div 2))"
      using "1.prems" by (simp add: bit_length.simps [of n])
    have "(2::nat) ^ bit_length (n div 2) = 2 * 2 ^ (bit_length (n div 2) - 1)"
      using pos by (cases "bit_length (n div 2)") simp_all
    also have "\<dots> \<le> 2 * (n div 2)" using ih(1) by simp
    also have "\<dots> \<le> n" by simp
    finally have lo: "2 ^ (bit_length n - 1) \<le> n"
      using b by simp
    have hi: "n < 2 ^ bit_length n"
      using ih(2) b by simp
    from lo hi show ?thesis by simp
  qed
qed

lemma ilog2_bracket:
  assumes "0 < x"
  shows "pow2 (ilog2 x) \<le> x \<and> x < pow2 (ilog2 x + 1)"
proof -
  obtain p q where pq: "quotient_of x = (p, q)" by (cases "quotient_of x")
  have q: "0 < q" using quotient_of_denom_pos [OF pq] .
  have x: "x = of_int p / of_int q" using quotient_of_div [OF pq] .
  have p: "0 < p" using assms q x by (simp add: zero_less_divide_iff)
  define bp where "bp = bit_length (nat p)"
  define bq where "bq = bit_length (nat q)"
  have bpb: "2 ^ (bp - 1) \<le> nat p" "nat p < 2 ^ bp"
    using bit_length_bounds [of "nat p"] p by (simp_all add: bp_def)
  have bqb: "2 ^ (bq - 1) \<le> nat q" "nat q < 2 ^ bq"
    using bit_length_bounds [of "nat q"] q by (simp_all add: bq_def)
  have bp1: "1 \<le> bp" using p by (simp add: bp_def bit_length.simps [of "nat p"])
  have bq1: "1 \<le> bq" using q by (simp add: bq_def bit_length.simps [of "nat q"])
  have rp: "(2::rat) ^ (bp - 1) \<le> of_int p" "(of_int p :: rat) < 2 ^ bp"
  proof -
    have "(of_nat (2 ^ (bp - 1)) :: rat) \<le> of_nat (nat p)" using bpb(1) by (simp only: of_nat_le_iff)
    then show "(2::rat) ^ (bp - 1) \<le> of_int p" using p by simp
    have "(of_nat (nat p) :: rat) < of_nat (2 ^ bp)" using bpb(2) by (simp only: of_nat_less_iff)
    then show "(of_int p :: rat) < 2 ^ bp" using p by simp
  qed
  have rq: "(2::rat) ^ (bq - 1) \<le> of_int q" "(of_int q :: rat) < 2 ^ bq"
  proof -
    have "(of_nat (2 ^ (bq - 1)) :: rat) \<le> of_nat (nat q)" using bqb(1) by (simp only: of_nat_le_iff)
    then show "(2::rat) ^ (bq - 1) \<le> of_int q" using q by simp
    have "(of_nat (nat q) :: rat) < of_nat (2 ^ bq)" using bqb(2) by (simp only: of_nat_less_iff)
    then show "(of_int q :: rat) < 2 ^ bq" using q by simp
  qed
  define e0 where "e0 = int bp - int bq"
  have qpos: "(0::rat) < of_int q" using q by simp
  have hi: "x < pow2 (e0 + 1)"
  proof -
    have "e0 + 1 = int bp + (- int (bq - 1))"
      using bq1 by (simp add: e0_def)
    then have "pow2 (e0 + 1) = pow2 (int bp) * pow2 (- int (bq - 1))"
      by (simp only: pow2_add)
    also have "\<dots> = 2 ^ bp / 2 ^ (bq - 1)"
      by (simp add: pow2_powi power_int_minus divide_inverse)
    finally have e: "pow2 (e0 + 1) = 2 ^ bp / 2 ^ (bq - 1)" .
    have "x < 2 ^ bp / of_int q"
      unfolding x using rp(2) qpos by (simp add: divide_strict_right_mono)
    also have "\<dots> \<le> 2 ^ bp / 2 ^ (bq - 1)"
      using rq(1) by (simp add: frac_le)
    finally show ?thesis using e by simp
  qed
  have lo: "pow2 (e0 - 1) < x"
  proof -
    have "e0 - 1 = int (bp - 1) + (- int bq)"
      using bp1 by (simp add: e0_def)
    then have "pow2 (e0 - 1) = pow2 (int (bp - 1)) * pow2 (- int bq)"
      by (simp only: pow2_add)
    also have "\<dots> = 2 ^ (bp - 1) / 2 ^ bq"
      by (simp add: pow2_powi power_int_minus divide_inverse)
    finally have e: "pow2 (e0 - 1) = 2 ^ (bp - 1) / 2 ^ bq" .
    have "(2::rat) ^ (bp - 1) / 2 ^ bq < 2 ^ (bp - 1) / of_int q"
      using rq(2) qpos by (simp add: divide_strict_left_mono)
    also have "\<dots> \<le> x"
      unfolding x using rp(1) qpos by (simp add: divide_right_mono)
    finally show ?thesis using e by simp
  qed
  have il: "ilog2 x = (if pow2 e0 \<le> x then e0 else e0 - 1)"
    by (simp add: ilog2_def pq Let_def e0_def bp_def bq_def)
  show ?thesis
  proof (cases "pow2 e0 \<le> x")
    case True
    then show ?thesis using hi il by simp
  next
    case False
    then show ?thesis using lo il by simp
  qed
qed

lemma ilog2_ge: "0 < x \<Longrightarrow> pow2 k \<le> x \<Longrightarrow> k \<le> ilog2 x"
proof (rule ccontr)
  assume x: "0 < x" and k: "pow2 k \<le> x" and n: "\<not> k \<le> ilog2 x"
  then have "ilog2 x + 1 \<le> k" by simp
  then have "pow2 (ilog2 x + 1) \<le> pow2 k" by (rule pow2_mono)
  with ilog2_bracket [OF x] k show False by simp
qed

lemma ilog2_less: "0 < x \<Longrightarrow> x < pow2 k \<Longrightarrow> ilog2 x < k"
proof (rule ccontr)
  assume x: "0 < x" and k: "x < pow2 k" and n: "\<not> ilog2 x < k"
  then have "pow2 k \<le> pow2 (ilog2 x)" by (simp add: pow2_mono)
  with ilog2_bracket [OF x] k show False by simp
qed

lemma round_at_error: "\<bar>round_at k x - x\<bar> \<le> pow2 k / 2"
proof -
  define t where "t = x / pow2 k"
  define f where "f = \<lfloor>t\<rfloor>"
  define c where "c = (if t - of_int f < 1 / 2 then f else if 1 / 2 < t - of_int f then f + 1
                 else if even f then f else f + 1)"
  have fl: "of_int f \<le> t" "t < of_int f + 1" unfolding f_def by linarith+
  have c: "\<bar>of_int c - t\<bar> \<le> 1 / 2"
    using fl by (auto simp: c_def)
  have r: "round_at k x = of_int c * pow2 k"
    by (simp add: round_at_def Let_def t_def f_def c_def)
  have xt: "x = t * pow2 k" using pow2_pos [of k] by (simp add: t_def)
  have "\<bar>round_at k x - x\<bar> = \<bar>of_int c - t\<bar> * pow2 k"
    unfolding r using pow2_pos [of k] by (subst xt) (simp add: left_diff_distrib [symmetric] abs_mult)
  also have "\<dots> \<le> (1 / 2) * pow2 k"
    using c pow2_pos [of k] by (simp add: mult_right_mono)
  finally show ?thesis by simp
qed

lemma round_at_exact:
  assumes "x / pow2 k = of_int n"
  shows "round_at k x = x"
proof -
  have "x = of_int n * pow2 k" using assms pow2_pos [of k] by (simp add: field_simps)
  then show ?thesis by (simp add: round_at_def Let_def assms)
qed


lemma round_dbl_int:
  assumes "\<bar>n\<bar> \<le> 2 ^ 53"
  shows "round_dbl (of_int n) = Fin (of_int n)"
proof (cases "n = 0")
  case True
  then show ?thesis by (simp add: round_dbl_def)
next
  case False
  define x :: rat where "x = of_int n"
  have x0: "x \<noteq> 0" using False by (simp add: x_def)
  have ax: "\<bar>x\<bar> = of_int \<bar>n\<bar>" by (simp add: x_def)
  have pos: "0 < \<bar>x\<bar>" using x0 by simp
  have "1 \<le> \<bar>n\<bar>" using False by simp
  then have "(1::rat) \<le> of_int \<bar>n\<bar>" by (simp only: of_int_1_le_iff)
  then have lo: "pow2 0 \<le> \<bar>x\<bar>" by (simp add: pow2_def ax)
  have "(of_int \<bar>n\<bar> :: rat) \<le> of_int (2 ^ 53)" using assms by (simp only: of_int_le_iff)
  then have le: "\<bar>x\<bar> \<le> 2 ^ 53" by (simp add: ax)
  then have hi: "\<bar>x\<bar> < pow2 54" by (simp add: pow2_def)
  define e where "e = ilog2 \<bar>x\<bar>"
  have e0: "0 \<le> e" unfolding e_def using pos lo by (rule ilog2_ge)
  have e54: "e < 54" unfolding e_def using pos hi by (rule ilog2_less)
  have k: "max (e - 52) (- 1074) = e - 52" using e0 by simp
  have ex: "\<exists>m. x / pow2 (e - 52) = of_int m"
  proof (cases "e \<le> 52")
    case True
    then have "pow2 (e - 52) = 1 / 2 ^ nat (52 - e)"
      by (cases "e = 52") (simp_all add: pow2_def)
    then have "x / pow2 (e - 52) = of_int (n * 2 ^ nat (52 - e))"
      by (simp add: x_def)
    then show ?thesis by blast
  next
    case False
    then have e53: "e = 53" using e54 by simp
    have "pow2 e \<le> \<bar>x\<bar>" unfolding e_def using ilog2_bracket [OF pos] by simp
    then have "(2::rat) ^ 53 \<le> of_int \<bar>n\<bar>" by (simp add: e53 pow2_def ax)
    then have "(of_int (2 ^ 53) :: rat) \<le> of_int \<bar>n\<bar>" by simp
    then have "2 ^ 53 \<le> \<bar>n\<bar>" by (simp only: of_int_le_iff)
    with assms have "\<bar>n\<bar> = 2 ^ 53" by simp
    then have "n = 2 ^ 53 \<or> n = - (2 ^ 53)" by linarith
    then have "x / pow2 (e - 52) = of_int (n div 2)"
      by (auto simp: e53 pow2_def x_def)
    then show ?thesis by blast
  qed
  then obtain m where "x / pow2 (e - 52) = of_int m" by blast
  then have r: "round_at (e - 52) x = x" by (rule round_at_exact)
  have "\<not> 2 ^ 1024 \<le> \<bar>x\<bar>" using le by simp
  then have "round_dbl x = Fin x"
    using x0 by (simp add: round_dbl_def Let_def e_def [symmetric] k r)
  then show ?thesis by (simp add: x_def)
qed

lemma round_dbl_error:
  assumes "pow2 (- 1022) \<le> \<bar>x\<bar>" and "\<bar>x\<bar> < 2 ^ 1023"
  shows "\<exists>y. round_dbl x = Fin y \<and> \<bar>y - x\<bar> \<le> \<bar>x\<bar> / 2 ^ 53"
proof -
  have pos: "0 < \<bar>x\<bar>" using assms(1) pow2_pos [of "- 1022"] by linarith
  then have x0: "x \<noteq> 0" by simp
  define e where "e = ilog2 \<bar>x\<bar>"
  have e1: "- 1022 \<le> e" unfolding e_def using pos assms(1) by (rule ilog2_ge)
  have k: "max (e - 52) (- 1074) = e - 52" using e1 by simp
  define y where "y = round_at (e - 52) x"
  have "pow2 (e - 52) = pow2 e * pow2 (- 52)"
    using pow2_add [of e "- 52"] by simp
  also have "\<dots> = pow2 e / 2 ^ 52" by (simp add: pow2_def)
  finally have p: "pow2 (e - 52) / 2 = pow2 e / 2 ^ 53" by simp
  have "pow2 e \<le> \<bar>x\<bar>" unfolding e_def using ilog2_bracket [OF pos] by simp
  then have "pow2 e / 2 ^ 53 \<le> \<bar>x\<bar> / 2 ^ 53" by (simp add: divide_right_mono)
  then have err: "\<bar>y - x\<bar> \<le> \<bar>x\<bar> / 2 ^ 53"
    using round_at_error [of "e - 52" x] p by (simp add: y_def)
  have "\<bar>y\<bar> \<le> \<bar>x\<bar> + \<bar>x\<bar> / 2 ^ 53" using err by linarith
  also have "\<dots> \<le> \<bar>x\<bar> + \<bar>x\<bar>" by (simp add: field_simps)
  also have "\<dots> < 2 ^ 1024" using assms(2) by simp
  finally have "\<not> 2 ^ 1024 \<le> \<bar>y\<bar>" by simp
  then have "round_dbl x = Fin y"
    using x0 by (simp add: round_dbl_def Let_def e_def [symmetric] k y_def [symmetric])
  with err show ?thesis by blast
qed


subsection \<open>Printing and parsing integers\<close>

lemma digit_of_digit_char: "d < 10 \<Longrightarrow> digit_of (digit_char d) = d"
  by (simp add: digit_of_def digit_char_def Let_def)

lemma show_nat_digits: "c \<in> set (show_nat n) \<Longrightarrow> digit_of c < 10"
proof (induction n arbitrary: c rule: show_nat.induct)
  case (1 n)
  show ?case
  proof (cases "n < 10")
    case True
    with "1.prems" show ?thesis
      by (simp add: show_nat.simps [of n] digit_of_digit_char)
  next
    case False
    with "1.prems" have "c \<in> set (show_nat (n div 10)) \<or> c = digit_char (n mod 10)"
      by (auto simp: show_nat.simps [of n])
    then show ?thesis
      using "1.IH" [OF False] by (auto simp: digit_of_digit_char)
  qed
qed

lemma show_nat_nonempty: "show_nat n \<noteq> []"
  by (simp add: show_nat.simps [of n])

lemma digit_char_values:
  "digit_char 0 = CHR ''0''" "digit_char 1 = CHR ''1''" "digit_char 2 = CHR ''2''"
  "digit_char 3 = CHR ''3''" "digit_char 4 = CHR ''4''" "digit_char 5 = CHR ''5''"
  "digit_char 6 = CHR ''6''" "digit_char 7 = CHR ''7''" "digit_char 8 = CHR ''8''"
  "digit_char 9 = CHR ''9''" "digit_char (Suc 0) = CHR ''1''"
  "digit_char (Suc (Suc 0)) = CHR ''2''"
  by code_simp+

lemma show_nat_digit: "n < 10 \<Longrightarrow> show_nat n = [digit_char n]"
  by (simp add: show_nat.simps [of n])

lemma radix_value_snoc: "radix_value R (z @ [c]) = R * radix_value R z + digit_of c"
  by (simp add: radix_value_def)

lemma radix_value_show_nat: "radix_value 10 (show_nat n) = n"
proof (induction n rule: show_nat.induct)
  case (1 n)
  show ?case
  proof (cases "n < 10")
    case True
    then show ?thesis
      by (simp add: show_nat.simps [of n] radix_value_def digit_of_digit_char)
  next
    case False
    then show ?thesis
      using "1.IH" by (simp add: show_nat.simps [of n] radix_value_snoc digit_of_digit_char)
  qed
qed

lemma digits_not_hex_prefix:
  assumes "\<forall>c\<in>set s. digit_of c < 10"
  shows "take 2 s \<noteq> ''0x'' \<and> take 2 s \<noteq> ''0X''"
proof -
  have "CHR ''x'' \<notin> set s" "CHR ''X'' \<notin> set s"
    using assms by (auto simp: digit_of_def)
  moreover have "set (take 2 s) \<subseteq> set s" by (rule set_take_subset)
  ultimately show ?thesis by auto
qed

lemma parseInt_str_digits:
  assumes "s \<noteq> []" "\<forall>c\<in>set s. digit_of c < 10"
  shows "parseInt_str s = round_dbl (of_int (int (radix_value 10 s)))"
proof -
  have h: "digit_of (hd s) < 10" using assms by simp
  have ws: "\<not> is_ws (hd s)" using h by (auto simp: is_ws_def digit_of_def split: if_splits)
  have d: "dropWhile is_ws s = s" using ws assms(1) by (cases s) auto
  have sg: "hd s \<noteq> CHR ''-''" "hd s \<noteq> CHR ''+''" using h by (auto simp: digit_of_def)
  have tw: "takeWhile (\<lambda>c. digit_of c < 10) s = s" using assms(2) by (simp add: takeWhile_eq_all_conv)
  show ?thesis
    using digits_not_hex_prefix [OF assms(2)] assms(1)
    by (simp add: parseInt_str_def d sg tw)
qed

lemma parseInt_str_neg_digits:
  assumes "s \<noteq> []" "\<forall>c\<in>set s. digit_of c < 10"
  shows "parseInt_str (CHR ''-'' # s) = round_dbl (of_int (- int (radix_value 10 s)))"
proof -
  have ws: "\<not> is_ws (CHR ''-'')" by (simp add: is_ws_def)
  have tw: "takeWhile (\<lambda>c. digit_of c < 10) s = s" using assms(2) by (simp add: takeWhile_eq_all_conv)
  show ?thesis
    using digits_not_hex_prefix [OF assms(2)] assms(1)
    by (simp add: parseInt_str_def ws tw)
qed

lemma parseInt_str_show_int_round: "parseInt_str (show_int i) = round_dbl (of_int i)"
proof (cases "i < 0")
  case True
  then show ?thesis
    using parseInt_str_neg_digits [of "show_nat (nat (- i))"]
    by (simp add: show_int_def show_nat_nonempty show_nat_digits radix_value_show_nat)
next
  case False
  then show ?thesis
    using parseInt_str_digits [of "show_nat (nat i)"]
    by (simp add: show_int_def show_nat_nonempty show_nat_digits radix_value_show_nat)
qed

lemma parseInt_str_show_int: "\<bar>i\<bar> \<le> 2 ^ 53 \<Longrightarrow> parseInt_str (show_int i) = Fin (of_int i)"
  by (simp add: parseInt_str_show_int_round round_dbl_int)

lemma sint_safe: "\<bar>sint (w :: 54 word)\<bar> \<le> 2 ^ 53"
  using sint_ge [of w] sint_lt [of w] by simp

lemma parseInt_JNum: "parseInt (JNum w) = Fin (of_int (sint w))"
  unfolding parseInt_def to_string.simps by (rule parseInt_str_show_int [OF sint_safe])

lemma show_int_nonempty: "show_int i \<noteq> []"
  by (simp add: show_int_def show_nat_nonempty)

lemma parseInt_no_digit:
  assumes "\<forall>c\<in>set s. \<not> digit_of c < 10"
  shows "parseInt_str s = NaN"
proof -
  define s1 where "s1 = dropWhile is_ws s"
  define s2 where "s2 = (if s1 \<noteq> [] \<and> (hd s1 = CHR ''+'' \<or> hd s1 = CHR ''-'') then tl s1 else s1)"
  have sub1: "set s1 \<subseteq> set s"
    unfolding s1_def by (auto dest: set_dropWhileD)
  have sub2: "set s2 \<subseteq> set s1"
    unfolding s2_def by (auto dest: list.set_sel(2))
  have nd: "\<forall>c\<in>set s2. \<not> digit_of c < 10"
    using assms sub1 sub2 by blast
  have "CHR ''0'' \<notin> set s2"
    using nd by (auto simp: digit_of_def)
  moreover have "set (take 2 s2) \<subseteq> set s2" by (rule set_take_subset)
  ultimately have nohex: "take 2 s2 \<noteq> ''0x''" "take 2 s2 \<noteq> ''0X''"
    by auto
  have "takeWhile (\<lambda>c. digit_of c < 10) s2 = []"
    using nd by (cases s2) auto
  then show ?thesis
    using nohex by (simp add: parseInt_str_def Let_def s1_def [symmetric] s2_def [symmetric])
qed

lemma ilog2_eqI: "0 < x \<Longrightarrow> pow2 k \<le> x \<Longrightarrow> x < pow2 (k + 1) \<Longrightarrow> ilog2 x = k"
  using ilog2_ge [of x k] ilog2_less [of x "k + 1"] by simp

text \<open>
  Beyond \<open>2^53\<close> the integer read is rounded: \<open>2^53 + 1\<close> lies half way between two
  doubles and goes to the even one, \<open>2^53\<close>. A number that prints in exponent
  notation is read up to its point or exponent mark.
\<close>

lemma parseInt_rounds: "parseInt (JStr ''9007199254740993'') = Fin 9007199254740992"
proof -
  have d: "parseInt (JStr ''9007199254740993'') = round_dbl 9007199254740993"
    by (simp add: parseInt_def parseInt_str_def is_ws_def digit_of_def radix_value_def)
  have e: "ilog2 9007199254740993 = 53"
    by (rule ilog2_eqI) (simp_all add: pow2_def)
  have f: "\<lfloor>(9007199254740993 :: rat) / 2\<rfloor> = 4503599627370496"
    by (simp add: floor_eq_iff)
  have r: "round_at 1 9007199254740993 = 9007199254740992"
    by (simp add: round_at_def Let_def pow2_def f)
  show ?thesis
    by (simp add: d round_dbl_def Let_def e r)
qed

lemma parseInt_exponent_form: "parseInt (JNumOther ''1e+21'') = Fin 1"
proof -
  have "parseInt (JNumOther ''1e+21'') = round_dbl (of_int 1)"
    by (simp add: parseInt_def parseInt_str_def is_ws_def digit_of_def radix_value_def)
  then show ?thesis using round_dbl_int [of 1] by simp
qed

subsection \<open>Validator\<close>

lemma validate_questions_append:
  "validate_questions (xs @ ys) b = validate_questions xs b @ validate_questions ys b"
  by (induction xs) simp_all

lemma validate_question_falsy:
  "required q \<Longrightarrow> \<not> truthy a \<Longrightarrow> validate_question q a = [required_msg (qtext q)]"
  by (simp add: validate_question_def)

lemma validate_question_member:
  "q \<in> set qs \<Longrightarrow> set (validate_question q (js_get b (qid q))) \<subseteq> set (validate_questions qs b)"
  by (induction qs) auto

text \<open>
  C2 (as amended). For a required question whose answer is undefined, null or the
  empty string, the validator's output contains, at the question's position,
  exactly one violation: the required message, which contains the question's
  text. Nothing type-specific is emitted for that question, whatever its type.
\<close>

theorem required_missing_one_violation:
  assumes "questions s = pre @ q # post" and "required q" and "answer_missing b (qid q)"
  shows "validateResponse s b
           = validate_questions pre b @ [required_msg (qtext q)] @ validate_questions post b
         \<and> validate_question q (js_get b (qid q)) = [required_msg (qtext q)]
         \<and> sublist (qtext q) (required_msg (qtext q))"
proof -
  have f: "\<not> truthy (js_get b (qid q))"
    using assms(3) by (auto simp: answer_missing_def)
  have one: "validate_question q (js_get b (qid q)) = [required_msg (qtext q)]"
    using assms(2) f by (rule validate_question_falsy)
  have "required_msg (qtext q) = (''Question '' @ [dq]) @ qtext q @ ([dq] @ '' is required'')"
    by (simp add: required_msg_def)
  then have "sublist (qtext q) (required_msg (qtext q))"
    unfolding sublist_def by blast
  then show ?thesis
    using one assms(1) by (simp add: validateResponse_def validate_questions_append)
qed

theorem required_missing_one_violation_witness:
  "questions (sample_survey [sample_question Text True 1 5] []) = [] @ sample_question Text True 1 5 # []
   \<and> required (sample_question Text True 1 5)
   \<and> answer_missing Map.empty (qid (sample_question Text True 1 5))
   \<and> validateResponse (sample_survey [sample_question Text True 1 5] []) Map.empty
       = [required_msg ''Q'']"
  using required_missing_one_violation [of "sample_survey [sample_question Text True 1 5] []" "[]"
      "sample_question Text True 1 5" "[]" Map.empty]
  by (simp add: sample_survey_def sample_question_def answer_missing_def js_get_def
      object_prototype_keys_def)

text \<open>
  C2 as stated fails for the empty sequence: a required multiple-choice question
  answered with \<^verbatim>\<open>[]\<close> yields no violation at all.
\<close>

theorem required_empty_sequence_counterexample:
  "required (sample_question MultipleChoice True 1 5)
   \<and> js_get [''q_0'' \<mapsto> JArr []] (qid (sample_question MultipleChoice True 1 5)) = JArr []
   \<and> validateResponse (sample_survey [sample_question MultipleChoice True 1 5] [])
        [''q_0'' \<mapsto> JArr []] = []"
  by (simp add: sample_survey_def sample_question_def js_get_def validateResponse_def
      validate_question_def)

lemma validate_question_falsy_optional:
  "\<not> truthy a \<Longrightarrow> validate_question q a = (if required q then [required_msg (qtext q)] else [])"
  by (cases "qtype q") (simp_all add: validate_question_def)

lemma validate_question_scale:
  "qtype q = Scale \<Longrightarrow> truthy a \<Longrightarrow>
   validate_question q a
     = (if in_range q a then []
        else [scale_msg (qtext q) (sint (minValue q)) (sint (maxValue q))])"
  by (cases "parseInt a") (auto simp: validate_question_def in_range_def Let_def)

lemma in_range_show_int:
  "\<bar>v\<bar> \<le> 2 ^ 53 \<Longrightarrow>
   in_range q (JStr (show_int v)) = (sint (minValue q) \<le> v \<and> v \<le> sint (maxValue q))"
  by (simp add: in_range_def parseInt_def parseInt_str_show_int)

lemma in_range_JNum:
  "in_range q (JNum v) = (sint (minValue q) \<le> sint v \<and> sint v \<le> sint (maxValue q))"
  by (simp add: in_range_def parseInt_JNum)

text \<open>
  C3 (as amended). For a Scale question with \<open>minValue \<le> maxValue\<close> (and \<open>minValue\<close>
  above \<open>-2^53\<close>) and a truthy answer (anything but undefined, null, false, the
  number 0, \<^verbatim>\<open>NaN\<close> and the empty string), the validator accepts exactly when \<^verbatim>\<open>parseInt\<close>
  of the answer lies in the inclusive range: the decimal strings of \<open>minValue\<close>
  and \<open>maxValue\<close> are accepted, those of \<open>minValue - 1\<close> and \<open>maxValue + 1\<close> rejected,
  a non-zero integer answer is accepted iff it lies in the range, and every
  answer that does not parse is rejected, in particular every non-empty string
  without a decimal digit. A falsy answer gets no Scale check: it yields the
  required violation on a required question and nothing otherwise.
\<close>

theorem scale_accepts_exactly_range:
  assumes "qtype q = Scale" and "sint (minValue q) \<le> sint (maxValue q)"
    and "- (2 ^ 53) < sint (minValue q)"
  shows "(truthy a \<longrightarrow> (validate_question q a = []) = in_range q a)
       \<and> (truthy a \<and> parseInt a = NaN \<longrightarrow> validate_question q a \<noteq> [])
       \<and> validate_question q (JStr (show_int (sint (minValue q)))) = []
       \<and> validate_question q (JStr (show_int (sint (maxValue q)))) = []
       \<and> validate_question q (JStr (show_int (sint (minValue q) - 1))) \<noteq> []
       \<and> validate_question q (JStr (show_int (sint (maxValue q) + 1))) \<noteq> []
       \<and> (v \<noteq> 0 \<longrightarrow> (validate_question q (JNum v) = [])
                       = (sint (minValue q) \<le> sint v \<and> sint v \<le> sint (maxValue q)))
       \<and> (s \<noteq> [] \<and> (\<forall>c\<in>set s. \<not> digit_of c < 10) \<longrightarrow> validate_question q (JStr s) \<noteq> [])
       \<and> (\<not> truthy a
            \<longrightarrow> validate_question q a = (if required q then [required_msg (qtext q)] else []))"
proof -
  note vq = validate_question_scale [OF assms(1)]
  have lo: "- (2 ^ 53) \<le> sint (minValue q)" "sint (minValue q) < 2 ^ 53"
    using sint_ge [of "minValue q"] sint_lt [of "minValue q"] by simp_all
  have hi: "- (2 ^ 53) \<le> sint (maxValue q)" "sint (maxValue q) < 2 ^ 53"
    using sint_ge [of "maxValue q"] sint_lt [of "maxValue q"] by simp_all
  have b: "\<bar>sint (minValue q)\<bar> \<le> 2 ^ 53" "\<bar>sint (maxValue q)\<bar> \<le> 2 ^ 53"
    "\<bar>sint (minValue q) - 1\<bar> \<le> 2 ^ 53" "\<bar>sint (maxValue q) + 1\<bar> \<le> 2 ^ 53"
    using lo hi assms(3) by simp_all
  have 1: "truthy a \<longrightarrow> (validate_question q a = []) = in_range q a"
    by (simp add: vq)
  have 2: "truthy a \<and> parseInt a = NaN \<longrightarrow> validate_question q a \<noteq> []"
    by (simp add: vq in_range_def)
  have 3: "validate_question q (JStr (show_int (sint (minValue q)))) = []"
    using assms(2) by (simp add: vq show_int_nonempty in_range_show_int [OF b(1)])
  have 4: "validate_question q (JStr (show_int (sint (maxValue q)))) = []"
    using assms(2) by (simp add: vq show_int_nonempty in_range_show_int [OF b(2)])
  have 5: "validate_question q (JStr (show_int (sint (minValue q) - 1))) \<noteq> []"
    by (simp add: vq show_int_nonempty in_range_show_int [OF b(3)])
  have 6: "validate_question q (JStr (show_int (sint (maxValue q) + 1))) \<noteq> []"
    by (simp add: vq show_int_nonempty in_range_show_int [OF b(4)])
  have 7: "v \<noteq> 0 \<longrightarrow> (validate_question q (JNum v) = [])
                       = (sint (minValue q) \<le> sint v \<and> sint v \<le> sint (maxValue q))"
    by (simp add: vq in_range_JNum)
  have 8: "s \<noteq> [] \<and> (\<forall>c\<in>set s. \<not> digit_of c < 10) \<longrightarrow> validate_question q (JStr s) \<noteq> []"
    by (simp add: vq in_range_def parseInt_def parseInt_no_digit)
  have 9: "\<not> truthy a
            \<longrightarrow> validate_question q a = (if required q then [required_msg (qtext q)] else [])"
    using validate_question_falsy_optional [of a q] by blast
  from 1 2 3 4 5 6 7 8 9 show ?thesis by (intro conjI)
qed

theorem scale_accepts_exactly_range_witness:
  "qtype (sample_question Scale False 1 5) = Scale
   \<and> sint (minValue (sample_question Scale False 1 5))
       \<le> sint (maxValue (sample_question Scale False 1 5))
   \<and> - (2 ^ 53) < sint (minValue (sample_question Scale False 1 5))
   \<and> truthy (JStr ''3'') \<and> in_range (sample_question Scale False 1 5) (JStr ''3'')
   \<and> validate_question (sample_question Scale False 1 5) (JStr ''3'') = []
   \<and> truthy (JStr ''abc'') \<and> parseInt (JStr ''abc'') = NaN
   \<and> validate_question (sample_question Scale False 1 5) (JStr ''abc'') \<noteq> []
   \<and> validate_question (sample_question Scale False 1 5) (JNum 6) \<noteq> []
   \<and> \<not> truthy (JStr []) \<and> validate_question (sample_question Scale False 1 5) (JStr []) = []"
proof -
  let ?q = "sample_question Scale False 1 5"
  have p3: "parseInt (JStr ''3'') = Fin 3"
    using round_dbl_int [of 3]
    by (simp add: parseInt_def parseInt_str_def is_ws_def digit_of_def radix_value_def)
  have pa: "parseInt (JStr ''abc'') = NaN"
    by (simp add: parseInt_def parseInt_str_def is_ws_def digit_of_def radix_value_def)
  have q: "qtype ?q = Scale" "sint (minValue ?q) \<le> sint (maxValue ?q)"
    "- (2 ^ 53) < sint (minValue ?q)"
    by (simp_all add: sample_question_def)
  have f: "\<not> required ?q"
    by (simp add: sample_question_def)
  have r: "in_range ?q (JStr ''3'')"
    by (simp add: in_range_def p3 sample_question_def)
  have m: "\<not> (sint (minValue ?q) \<le> sint (6 :: 54 word) \<and> sint (6 :: 54 word) \<le> sint (maxValue ?q))"
    by (simp add: sample_question_def)
  have t: "truthy (JStr ''3'')" "truthy (JStr ''abc'')" "\<not> truthy (JStr [])" "(6 :: 54 word) \<noteq> 0"
    by simp_all
  note A = scale_accepts_exactly_range [OF q, where a = "JStr ''3''" and v = 6 and s = "''abc''"]
  note B = scale_accepts_exactly_range [OF q, where a = "JStr ''abc''" and v = 6 and s = "''abc''"]
  note C = scale_accepts_exactly_range [OF q, where a = "JStr []" and v = 6 and s = "''abc''"]
  have 1: "validate_question ?q (JStr ''3'') = []"
    using A t(1) r by blast
  have 2: "validate_question ?q (JStr ''abc'') \<noteq> []"
    using B t(2) pa by blast
  have 3: "validate_question ?q (JNum 6) \<noteq> []"
    using A t(4) m by blast
  have 4: "validate_question ?q (JStr []) = []"
    using C t(3) f by simp
  from q t(1) r 1 t(2) pa 2 3 t(3) 4 show ?thesis by (intro conjI)
qed

text \<open>
  \<^verbatim>\<open>parseInt\<close> reads a leading integer and ignores what follows it, so a string such
  as \<^verbatim>\<open>3abc\<close> is accepted on a 1 to 5 scale.
\<close>

lemma scale_leading_digits_accepted:
  "validate_question (sample_question Scale False 1 5) (JStr ''3abc'') = []"
proof -
  have "parseInt (JStr ''3abc'') = Fin 3"
    using round_dbl_int [of 3]
    by (simp add: parseInt_def parseInt_str_def is_ws_def digit_of_def radix_value_def)
  then show ?thesis
    by (simp add: validate_question_def sample_question_def)
qed

text \<open>
  The comparison is made on the double that \<^verbatim>\<open>parseInt\<close> returns: a number stored as
  \<open>10^21\<close> prints as \<^verbatim>\<open>1e+21\<close>, parses to 1 and is accepted on a 1 to 5 scale.
\<close>

lemma scale_exponent_form_accepted:
  "validate_question (sample_question Scale False 1 5) (JNumOther ''1e+21'') = []"
  by (simp add: validate_question_def sample_question_def parseInt_exponent_form)

text \<open>
  C3 as stated fails for a falsy answer: on a non-required question with range
  1 to 5 the number 0, which is \<open>minValue - 1\<close>, is accepted.
\<close>

theorem scale_zero_counterexample:
  "sint (minValue (sample_question Scale False 1 5)) \<le> sint (maxValue (sample_question Scale False 1 5))
   \<and> parseInt (JNum 0) = Fin (of_int (sint (minValue (sample_question Scale False 1 5)) - 1))
   \<and> validate_question (sample_question Scale False 1 5) (JNum 0) = []"
  by (simp add: parseInt_JNum sample_question_def validate_question_def)

lemma required_msg_neq_must_be_text: "required_msg t \<noteq> must_be_text_msg u"
proof
  assume "required_msg t = must_be_text_msg u"
  then have "last (butlast (required_msg t)) = last (butlast (must_be_text_msg u))"
    by simp
  then show False
    by (simp add: required_msg_def must_be_text_msg_def butlast_append)
qed

lemma required_msg_neq_scale: "required_msg t \<noteq> scale_msg u lo hi"
  by (simp add: required_msg_def scale_msg_def)

lemma validate_question_empty_sequence:
  "validate_question q (JArr [])
     = (case qtype q of
          Text \<Rightarrow> [must_be_text_msg (qtext q)]
        | SingleChoice \<Rightarrow> []
        | MultipleChoice \<Rightarrow> []
        | Scale \<Rightarrow> [scale_msg (qtext q) (sint (minValue q)) (sint (maxValue q))]
        | OtherType \<Rightarrow> [])"
  by (cases "qtype q")
    (simp_all add: validate_question_def parseInt_def parseInt_str_def)

text \<open>
  C9. The presence test is truthiness. A required question with any falsy
  answer yields just the required violation; so does a required Scale question
  whose range contains 0 when the answer is the number 0, and the submission is
  rejected with the store unchanged. The empty sequence is truthy and is treated
  as present: it never yields the required violation, whether the question is
  required or not; it goes to the type-specific checks, where a Text question
  reports that the answer must be text, a Scale question that it is out of
  range, and a choice question reports nothing.
\<close>

theorem falsy_treated_as_absent:
  "(required q \<and> \<not> truthy a \<longrightarrow> validate_question q a = [required_msg (qtext q)])
   \<and> (required q \<and> qtype q = Scale \<and> sint (minValue q) \<le> 0 \<and> 0 \<le> sint (maxValue q)
        \<longrightarrow> in_range q (JNum 0) \<and> validate_question q (JNum 0) = [required_msg (qtext q)])
   \<and> (surveys st sid = Some s \<and> q \<in> set (questions s) \<and> required q \<and> \<not> truthy (js_get b (qid q))
        \<longrightarrow> required_msg (qtext q) \<in> set (validateResponse s b)
            \<and> submitResponse e sid b st = (Inl (ValidationFailed (validateResponse s b)), st))
   \<and> truthy (JArr [])
   \<and> validate_question q (JArr []) = validate_question (q\<lparr>required := False\<rparr>) (JArr [])
   \<and> required_msg (qtext q) \<notin> set (validate_question q (JArr []))
   \<and> validate_question q (JArr [])
       = (case qtype q of
            Text \<Rightarrow> [must_be_text_msg (qtext q)]
          | SingleChoice \<Rightarrow> []
          | MultipleChoice \<Rightarrow> []
          | Scale \<Rightarrow> [scale_msg (qtext q) (sint (minValue q)) (sint (maxValue q))]
          | OtherType \<Rightarrow> [])"
proof -
  have 1: "required q \<and> \<not> truthy a \<longrightarrow> validate_question q a = [required_msg (qtext q)]"
    by (simp add: validate_question_falsy)
  have 2: "required q \<and> qtype q = Scale \<and> sint (minValue q) \<le> 0 \<and> 0 \<le> sint (maxValue q)
        \<longrightarrow> in_range q (JNum 0) \<and> validate_question q (JNum 0) = [required_msg (qtext q)]"
    by (simp add: validate_question_falsy in_range_JNum)
  have 3: "surveys st sid = Some s \<and> q \<in> set (questions s) \<and> required q \<and> \<not> truthy (js_get b (qid q))
        \<longrightarrow> required_msg (qtext q) \<in> set (validateResponse s b)
            \<and> submitResponse e sid b st = (Inl (ValidationFailed (validateResponse s b)), st)"
  proof (intro impI)
    assume h: "surveys st sid = Some s \<and> q \<in> set (questions s) \<and> required q \<and> \<not> truthy (js_get b (qid q))"
    then have "validate_question q (js_get b (qid q)) = [required_msg (qtext q)]"
      by (simp add: validate_question_falsy)
    moreover have "set (validate_question q (js_get b (qid q))) \<subseteq> set (validateResponse s b)"
      using h validate_question_member [of q "questions s" b] by (simp add: validateResponse_def)
    ultimately have m: "required_msg (qtext q) \<in> set (validateResponse s b)" by simp
    then have "validateResponse s b \<noteq> []" by auto
    then show "required_msg (qtext q) \<in> set (validateResponse s b)
            \<and> submitResponse e sid b st = (Inl (ValidationFailed (validateResponse s b)), st)"
      using h m by (simp add: submitResponse_def lookup_survey_def Let_def)
  qed
  have 4: "truthy (JArr [])" by simp
  have 5: "validate_question q (JArr []) = validate_question (q\<lparr>required := False\<rparr>) (JArr [])"
    by (cases "qtype q") (simp_all add: validate_question_empty_sequence)
  have 6: "required_msg (qtext q) \<notin> set (validate_question q (JArr []))"
    by (cases "qtype q")
      (simp_all add: validate_question_empty_sequence required_msg_neq_must_be_text
        required_msg_neq_scale)
  from 1 2 3 4 5 6 validate_question_empty_sequence [of q] show ?thesis by (intro conjI)
qed

theorem falsy_treated_as_absent_witness:
  "required (sample_question Scale True 0 5) \<and> \<not> truthy (JNum 0)
   \<and> qtype (sample_question Scale True 0 5) = Scale
   \<and> sint (minValue (sample_question Scale True 0 5)) \<le> 0
   \<and> 0 \<le> sint (maxValue (sample_question Scale True 0 5))
   \<and> surveys (sample_store (sample_survey [sample_question Scale True 0 5] [])) ''survey_1''
       = Some (sample_survey [sample_question Scale True 0 5] [])
   \<and> sample_question Scale True 0 5 \<in> set (questions (sample_survey [sample_question Scale True 0 5] []))
   \<and> \<not> truthy (js_get [''q_0'' \<mapsto> JNum 0] (qid (sample_question Scale True 0 5)))
   \<and> validate_question (sample_question Scale True 0 5) (JNum 0) = [required_msg ''Q'']
   \<and> submitResponse sample_env ''survey_1'' [''q_0'' \<mapsto> JNum 0]
        (sample_store (sample_survey [sample_question Scale True 0 5] []))
       = (Inl (ValidationFailed [required_msg ''Q'']),
          sample_store (sample_survey [sample_question Scale True 0 5] []))
   \<and> validate_question (sample_question Scale True 0 5) (JArr []) = [scale_msg ''Q'' 0 5]"
proof -
  let ?q = "sample_question Scale True 0 5"
  let ?s = "sample_survey [?q] []"
  have q: "required ?q" "qtype ?q = Scale" "sint (minValue ?q) \<le> 0" "0 \<le> sint (maxValue ?q)"
    by (simp_all add: sample_question_def)
  have x: "qtext ?q = ''Q''" "sint (minValue ?q) = 0" "sint (maxValue ?q) = 5"
    by (simp_all add: sample_question_def)
  have l: "surveys (sample_store ?s) ''survey_1'' = Some ?s"
    by (simp add: sample_store_def sample_survey_def)
  have m: "?q \<in> set (questions ?s)"
    by (simp add: sample_survey_def)
  have g: "js_get [''q_0'' \<mapsto> JNum 0] (qid ?q) = JNum 0"
    by (simp add: js_get_def sample_question_def)
  have n: "\<not> truthy (JNum 0)" by simp
  have n': "\<not> truthy (js_get [''q_0'' \<mapsto> JNum 0] (qid ?q))"
    by (simp add: g)
  have v: "validateResponse ?s [''q_0'' \<mapsto> JNum 0] = [required_msg ''Q'']"
    by (simp add: validateResponse_def sample_survey_def sample_question_def js_get_def
        validate_question_def)
  note T = falsy_treated_as_absent [where q = ?q and a = "JNum 0" and st = "sample_store ?s"
      and sid = "''survey_1''" and s = ?s and b = "[''q_0'' \<mapsto> JNum 0]" and e = sample_env]
  have 1: "validate_question ?q (JNum 0) = [required_msg ''Q'']"
    using T q(1) n unfolding x by blast
  have 2: "submitResponse sample_env ''survey_1'' [''q_0'' \<mapsto> JNum 0] (sample_store ?s)
       = (Inl (ValidationFailed [required_msg ''Q'']), sample_store ?s)"
    using T l m q(1) n' unfolding v by blast
  from T have "validate_question ?q (JArr [])
       = (case qtype ?q of
            Text \<Rightarrow> [must_be_text_msg (qtext ?q)]
          | SingleChoice \<Rightarrow> []
          | MultipleChoice \<Rightarrow> []
          | Scale \<Rightarrow> [scale_msg (qtext ?q) (sint (minValue ?q)) (sint (maxValue ?q))]
          | OtherType \<Rightarrow> [])"
    by (elim conjE)
  then have 3: "validate_question ?q (JArr []) = [scale_msg ''Q'' 0 5]"
    by (simp add: q(2) x)
  from q(1) n q(2) q(3) q(4) l m n' 1 2 3 show ?thesis by (intro conjI)
qed

lemma includes_js_declared: "includes_js (map opt_id (options q)) v = declared q v"
  by (cases v) (auto simp: declared_def)

lemma validate_question_choice:
  assumes "qtype q = SingleChoice \<or> qtype q = MultipleChoice" and "truthy a"
  shows "validate_question q a
          = (if (if is_array a then \<exists>x\<in>set (elements a). \<not> declared q x else \<not> declared q a)
             then [invalid_option_msg (qtext q)] else [])"
proof -
  have c: "list_all (includes_js (map opt_id (options q))) (elements a)
             = (\<forall>x\<in>set (elements a). declared q x)"
    by (simp add: list_all_iff includes_js_declared)
  from assms(1) show ?thesis
  proof
    assume "qtype q = SingleChoice"
    then show ?thesis
      using assms(2) by (simp add: validate_question_def c includes_js_declared)
  next
    assume "qtype q = MultipleChoice"
    then show ?thesis
      using assms(2) by (simp add: validate_question_def c includes_js_declared)
  qed
qed

text \<open>
  C4 (as amended). For a SingleChoice or MultipleChoice question and a truthy
  answer: a sequence is rejected iff some element is not a declared option id, a
  scalar iff it is not a declared option id; the rejection is the one
  invalid-option message. A non-empty string that is no declared id is always
  rejected, and a sequence of declared ids is accepted whatever its length, for
  SingleChoice too. A falsy answer gets no choice check: it yields the required
  violation on a required question and nothing otherwise.
\<close>

theorem choice_rejects_exactly_undeclared:
  assumes "qtype q = SingleChoice \<or> qtype q = MultipleChoice"
  shows "(truthy a \<and> is_array a
            \<longrightarrow> (validate_question q a \<noteq> []) = (\<exists>x\<in>set (elements a). \<not> declared q x))
       \<and> (truthy a \<and> \<not> is_array a \<longrightarrow> (validate_question q a \<noteq> []) = (\<not> declared q a))
       \<and> (truthy a \<and> validate_question q a \<noteq> []
            \<longrightarrow> validate_question q a = [invalid_option_msg (qtext q)])
       \<and> (i \<noteq> [] \<and> i \<notin> opt_id ` set (options q)
            \<longrightarrow> validate_question q (JStr i) = [invalid_option_msg (qtext q)])
       \<and> ((\<forall>x\<in>set xs. declared q x) \<longrightarrow> validate_question q (JArr xs) = [])
       \<and> (\<not> truthy a
            \<longrightarrow> validate_question q a = (if required q then [required_msg (qtext q)] else []))"
proof -
  note vq = validate_question_choice [OF assms]
  have 1: "truthy a \<and> is_array a
            \<longrightarrow> (validate_question q a \<noteq> []) = (\<exists>x\<in>set (elements a). \<not> declared q x)"
    by (simp add: vq)
  have 2: "truthy a \<and> \<not> is_array a \<longrightarrow> (validate_question q a \<noteq> []) = (\<not> declared q a)"
    by (simp add: vq)
  have 3: "truthy a \<and> validate_question q a \<noteq> []
            \<longrightarrow> validate_question q a = [invalid_option_msg (qtext q)]"
    by (simp add: vq)
  have 4: "i \<noteq> [] \<and> i \<notin> opt_id ` set (options q)
            \<longrightarrow> validate_question q (JStr i) = [invalid_option_msg (qtext q)]"
    by (auto simp: vq declared_def)
  have 5: "(\<forall>x\<in>set xs. declared q x) \<longrightarrow> validate_question q (JArr xs) = []"
    by (simp add: vq)
  have 6: "\<not> truthy a
            \<longrightarrow> validate_question q a = (if required q then [required_msg (qtext q)] else [])"
    using validate_question_falsy_optional [of a q] by blast
  from 1 2 3 4 5 6 show ?thesis by (intro conjI)
qed

theorem choice_rejects_exactly_undeclared_witness:
  "(qtype (sample_question SingleChoice False 1 5) = SingleChoice
      \<or> qtype (sample_question SingleChoice False 1 5) = MultipleChoice)
   \<and> truthy (JArr [JStr ''a'', JStr ''b'']) \<and> is_array (JArr [JStr ''a'', JStr ''b''])
   \<and> declared (sample_question SingleChoice False 1 5) (JStr ''a'')
   \<and> declared (sample_question SingleChoice False 1 5) (JStr ''b'')
   \<and> validate_question (sample_question SingleChoice False 1 5) (JArr [JStr ''a'', JStr ''b'']) = []
   \<and> truthy (JStr ''c'') \<and> \<not> is_array (JStr ''c'')
   \<and> ''c'' \<noteq> [] \<and> ''c'' \<notin> opt_id ` set (options (sample_question SingleChoice False 1 5))
   \<and> validate_question (sample_question SingleChoice False 1 5) (JStr ''c'')
       = [invalid_option_msg ''Q'']
   \<and> \<not> truthy JNull \<and> validate_question (sample_question SingleChoice False 1 5) JNull = []"
proof -
  have t: "qtype (sample_question SingleChoice False 1 5) = SingleChoice
      \<or> qtype (sample_question SingleChoice False 1 5) = MultipleChoice"
    by (simp add: sample_question_def)
  have d: "\<forall>x\<in>set [JStr ''a'', JStr ''b'']. declared (sample_question SingleChoice False 1 5) x"
    by (simp add: declared_def sample_question_def sample_options_def)
  have n: "''c'' \<notin> opt_id ` set (options (sample_question SingleChoice False 1 5))"
    by (simp add: sample_question_def sample_options_def)
  have x: "qtext (sample_question SingleChoice False 1 5) = ''Q''"
    by (simp add: sample_question_def)
  note T = choice_rejects_exactly_undeclared [OF t, of "JStr ''c''" "''c''" "[JStr ''a'', JStr ''b'']"]
  have a: "validate_question (sample_question SingleChoice False 1 5) (JArr [JStr ''a'', JStr ''b'']) = []"
    using T d by blast
  have b: "validate_question (sample_question SingleChoice False 1 5) (JStr ''c'')
       = [invalid_option_msg ''Q'']"
    using T n unfolding x by blast
  have c: "truthy (JArr [JStr ''a'', JStr ''b''])" "is_array (JArr [JStr ''a'', JStr ''b''])"
    "truthy (JStr ''c'')" "\<not> is_array (JStr ''c'')" "''c'' \<noteq> []"
    by simp_all
  have d2: "declared (sample_question SingleChoice False 1 5) (JStr ''a'')"
    "declared (sample_question SingleChoice False 1 5) (JStr ''b'')"
    using d by simp_all
  have f: "\<not> truthy JNull" by simp
  have g: "validate_question (sample_question SingleChoice False 1 5) JNull = []"
    using choice_rejects_exactly_undeclared [OF t, where a = JNull] f
    by (simp add: sample_question_def)
  from t c d2 a n b f g show ?thesis by (intro conjI)
qed

text \<open>
  C4 as stated fails for a falsy scalar: on a non-required question the number 0 is
  not a declared option id and is accepted.
\<close>

theorem choice_falsy_scalar_counterexample:
  "qtype (sample_question SingleChoice False 1 5) = SingleChoice
   \<and> \<not> is_array (JNum 0)
   \<and> \<not> declared (sample_question SingleChoice False 1 5) (JNum 0)
   \<and> validate_question (sample_question SingleChoice False 1 5) (JNum 0) = []"
  by (simp add: sample_question_def declared_def validate_question_def)

subsection \<open>Registry\<close>

lemma lookup_own: "surveys st sid = Some s \<Longrightarrow> lookup_survey st sid = Own s"
  by (simp add: lookup_survey_def)

lemma lookup_missing:
  "surveys st sid = None \<Longrightarrow> sid \<notin> set object_prototype_keys \<Longrightarrow> lookup_survey st sid = Missing"
  by (simp add: lookup_survey_def)

lemma lookup_own_iff: "(lookup_survey st sid = Own s) = (surveys st sid = Some s)"
  by (auto simp: lookup_survey_def split: option.splits)

lemma getResults_state: "snd (getResults sid tok st) = st"
  by (simp add: getResults_def split: slot.splits)

lemma createSurvey_active:
  "is_active st \<Longrightarrow> createSurvey e p st = (Inl (AlreadyActive (or_empty (currentSurveyId st))), st)"
  by (simp add: createSurvey_def)

lemma is_active_Some: "is_active st \<Longrightarrow> currentSurveyId st = Some (or_empty (currentSurveyId st))"
  by (auto simp: is_active_def or_empty_def split: option.splits)

lemma updateSurvey_current: "currentSurveyId (snd (updateSurvey e sid tok p st)) = currentSurveyId st"
  by (simp add: updateSurvey_def Let_def split: slot.splits)

lemma submitResponse_current: "currentSurveyId (snd (submitResponse e sid b st)) = currentSurveyId st"
  by (simp add: submitResponse_def Let_def split: slot.splits)

lemma handle_current:
  "is_active st \<Longrightarrow> currentSurveyId (handle e r st) = currentSurveyId st"
  by (cases r)
    (simp_all add: handle_def createSurvey_active updateSurvey_current submitResponse_current
      getResults_state)

lemma run_current: "is_active st \<Longrightarrow> currentSurveyId (run reqs st) = currentSurveyId st"
proof (induction reqs arbitrary: st)
  case Nil
  then show ?case by simp
next
  case (Cons er reqs)
  obtain e r where er: "er = (e, r)" by (cases er)
  have c: "currentSurveyId (handle e r st) = currentSurveyId st"
    using Cons.prems by (rule handle_current)
  then have "is_active (handle e r st)"
    using Cons.prems by (simp add: is_active_def)
  then show ?case
    using Cons.IH [of "handle e r st"] c er by simp
qed

lemma run_active: "is_active st \<Longrightarrow> is_active (run reqs st)"
  using run_current [of st reqs] by (simp add: is_active_def)

lemma survey_id_nonempty: "''survey_'' @ show_nat n \<noteq> []"
  by simp

lemma createSurvey_fresh:
  assumes "\<not> is_active st" and "\<not> invalid_payload p"
  shows "createSurvey e p st =
    (Inr \<lparr>cr_id = ''survey_'' @ show_nat (nextId st), cr_adminToken = random_token e,
          cr_clientUrl = origin e @ ''/survey/'' @ ''survey_'' @ show_nat (nextId st),
          cr_adminUrl = origin e @ ''/admin/'' @ ''survey_'' @ show_nat (nextId st) @ ''?token='' @ random_token e\<rparr>,
     st\<lparr>nextId := nextId st + 1,
        surveys := (surveys st)(''survey_'' @ show_nat (nextId st) \<mapsto>
           \<lparr>survey_id = ''survey_'' @ show_nat (nextId st), title = or_empty (p_title p),
            description = or_empty (p_description p),
            questions = assign_ids (case p_questions p of Some qs \<Rightarrow> qs | None \<Rightarrow> []),
            responses = [], createdAt = now_iso e, adminToken = random_token e, updatedAt = None\<rparr>),
        currentSurveyId := Some (''survey_'' @ show_nat (nextId st)),
        currentSurveyAdminToken := Some (random_token e)\<rparr>)"
  using assms by (simp add: createSurvey_def generateId_def Let_def)

lemma assign_ids_length: "length (assign_ids qs) = length qs"
  by (simp add: assign_ids_def)

lemma assign_ids_nth: "i < length qs \<Longrightarrow> assign_ids qs ! i = assign_id i (qs ! i)"
  by (simp add: assign_ids_def nth_enumerate_eq)

lemma registry_ok_create: "registry_ok st \<Longrightarrow> registry_ok (snd (createSurvey e p st))"
proof (cases "is_active st \<or> invalid_payload p")
  case True
  assume "registry_ok st"
  with True show ?thesis by (auto simp: createSurvey_def)
next
  case False
  assume "registry_ok st"
  show ?thesis
    using False by (simp add: createSurvey_fresh registry_ok_def is_active_def)
qed

lemma registry_ok_update: "registry_ok st \<Longrightarrow> registry_ok (snd (updateSurvey e sid tok p st))"
  by (auto simp: updateSurvey_def Let_def registry_ok_def is_active_def lookup_own_iff
      split: slot.splits)

lemma registry_ok_submit: "registry_ok st \<Longrightarrow> registry_ok (snd (submitResponse e sid b st))"
  by (auto simp: submitResponse_def Let_def registry_ok_def is_active_def lookup_own_iff
      split: slot.splits)

lemma registry_ok_handle: "registry_ok st \<Longrightarrow> registry_ok (handle e r st)"
  by (cases r)
    (simp_all add: handle_def registry_ok_create registry_ok_update registry_ok_submit
      getResults_state)

lemma registry_ok_initial: "registry_ok initial_store"
  by (simp add: registry_ok_def initial_store_def is_active_def)


lemma run_append: "run (xs @ ys) st = run ys (run xs st)"
  by (induction xs arbitrary: st) auto

lemma registry_ok_run: "registry_ok st \<Longrightarrow> registry_ok (run reqs st)"
proof (induction reqs arbitrary: st)
  case Nil
  then show ?case by simp
next
  case (Cons er reqs)
  obtain e r where er: "er = (e, r)" by (cases er)
  show ?case
    using Cons.IH [OF registry_ok_handle [OF Cons.prems, of e r]] er by simp
qed

text \<open>
  C5. While a survey is active, \<open>createSurvey\<close> fails with \<open>AlreadyActive\<close> carrying the
  active id and leaves the store as it is; this stays so after any further
  requests (every later call fails the same way), and in a registry that started
  well the echoed id names a stored survey. With no active survey, a non-empty
  title and a non-empty question list, \<open>createSurvey\<close> succeeds, stores the survey
  under the generated id and gives the question at index \<open>i\<close> the id
  \<^verbatim>\<open>q_\<close> followed by \<open>i\<close> when it has none (a non-empty supplied id is kept).
\<close>

theorem createSurvey_single_active:
  "(is_active st
      \<longrightarrow> createSurvey e p st = (Inl (AlreadyActive (or_empty (currentSurveyId st))), st)
          \<and> currentSurveyId st = Some (or_empty (currentSurveyId st)))
   \<and> (is_active st \<and> \<not> builtins_written (run reqs st)
      \<longrightarrow> createSurvey e p (run reqs st)
            = (Inl (AlreadyActive (or_empty (currentSurveyId st))), run reqs st))
   \<and> (registry_ok st \<and> is_active st
      \<longrightarrow> (\<exists>s. surveys st (or_empty (currentSurveyId st)) = Some s
               \<and> survey_id s = or_empty (currentSurveyId st)))
   \<and> (\<not> is_active st \<and> p_title p = Some t \<and> t \<noteq> [] \<and> p_questions p = Some qs \<and> qs \<noteq> []
      \<longrightarrow> (\<exists>reply st' s.
             createSurvey e p st = (Inr reply, st')
             \<and> cr_id reply = ''survey_'' @ show_nat (nextId st)
             \<and> surveys st' (cr_id reply) = Some s
             \<and> currentSurveyId st' = Some (cr_id reply) \<and> is_active st'
             \<and> survey_id s = cr_id reply \<and> title s = t \<and> responses s = []
             \<and> adminToken s = cr_adminToken reply
             \<and> length (questions s) = length qs
             \<and> (\<forall>i<length qs.
                  questions s ! i = assign_id i (qs ! i)
                  \<and> (qid (qs ! i) = None \<longrightarrow> qid (questions s ! i) = ''q_'' @ show_nat i)
                  \<and> (\<forall>x. qid (qs ! i) = Some x \<and> x \<noteq> [] \<longrightarrow> qid (questions s ! i) = x))))"
proof -
  have 1: "is_active st
      \<longrightarrow> createSurvey e p st = (Inl (AlreadyActive (or_empty (currentSurveyId st))), st)
          \<and> currentSurveyId st = Some (or_empty (currentSurveyId st))"
    using is_active_Some [of st] by (simp add: createSurvey_active)
  have 2: "is_active st \<and> \<not> builtins_written (run reqs st)
      \<longrightarrow> createSurvey e p (run reqs st)
            = (Inl (AlreadyActive (or_empty (currentSurveyId st))), run reqs st)"
    using createSurvey_active [of "run reqs st" e p] run_active [of st reqs]
      run_current [of st reqs]
    by auto
  have 3: "registry_ok st \<and> is_active st
      \<longrightarrow> (\<exists>s. surveys st (or_empty (currentSurveyId st)) = Some s
               \<and> survey_id s = or_empty (currentSurveyId st))"
    using is_active_Some [of st] by (auto simp: registry_ok_def)
  have 4: "\<not> is_active st \<and> p_title p = Some t \<and> t \<noteq> [] \<and> p_questions p = Some qs \<and> qs \<noteq> []
      \<longrightarrow> (\<exists>reply st' s.
             createSurvey e p st = (Inr reply, st')
             \<and> cr_id reply = ''survey_'' @ show_nat (nextId st)
             \<and> surveys st' (cr_id reply) = Some s
             \<and> currentSurveyId st' = Some (cr_id reply) \<and> is_active st'
             \<and> survey_id s = cr_id reply \<and> title s = t \<and> responses s = []
             \<and> adminToken s = cr_adminToken reply
             \<and> length (questions s) = length qs
             \<and> (\<forall>i<length qs.
                  questions s ! i = assign_id i (qs ! i)
                  \<and> (qid (qs ! i) = None \<longrightarrow> qid (questions s ! i) = ''q_'' @ show_nat i)
                  \<and> (\<forall>x. qid (qs ! i) = Some x \<and> x \<noteq> [] \<longrightarrow> qid (questions s ! i) = x)))"
  proof (intro impI)
    assume h: "\<not> is_active st \<and> p_title p = Some t \<and> t \<noteq> [] \<and> p_questions p = Some qs \<and> qs \<noteq> []"
    then have v: "\<not> invalid_payload p" by (simp add: invalid_payload_def)
    have a: "\<not> is_active st" using h by simp
    show "\<exists>reply st' s.
             createSurvey e p st = (Inr reply, st')
             \<and> cr_id reply = ''survey_'' @ show_nat (nextId st)
             \<and> surveys st' (cr_id reply) = Some s
             \<and> currentSurveyId st' = Some (cr_id reply) \<and> is_active st'
             \<and> survey_id s = cr_id reply \<and> title s = t \<and> responses s = []
             \<and> adminToken s = cr_adminToken reply
             \<and> length (questions s) = length qs
             \<and> (\<forall>i<length qs.
                  questions s ! i = assign_id i (qs ! i)
                  \<and> (qid (qs ! i) = None \<longrightarrow> qid (questions s ! i) = ''q_'' @ show_nat i)
                  \<and> (\<forall>x. qid (qs ! i) = Some x \<and> x \<noteq> [] \<longrightarrow> qid (questions s ! i) = x))"
      unfolding createSurvey_fresh [OF a v]
      using h
      by (simp add: is_active_def or_empty_def assign_ids_length assign_ids_nth assign_id_def)
  qed
  from 1 2 3 4 show ?thesis by (intro conjI)
qed


lemma sample_store_facts:
  "is_active (sample_store (sample_survey qs bs))"
  "registry_ok (sample_store (sample_survey qs bs))"
  "currentSurveyId (sample_store (sample_survey qs bs)) = Some ''survey_1''"
  "surveys (sample_store (sample_survey qs bs)) ''survey_1'' = Some (sample_survey qs bs)"
  "\<not> builtins_written (sample_store (sample_survey qs bs))"
  by (simp_all add: sample_store_def sample_survey_def is_active_def registry_ok_def)

lemma assign_ids_sample:
  "map qid (assign_ids sample_questions) = [''q_0'', ''rating'', ''q_2'']"
  by (simp add: assign_ids_def sample_questions_def enumerate_eq_zip upt_rec assign_id_def
      show_nat_digit digit_char_values)

theorem createSurvey_single_active_witness:
  "is_active (sample_store (sample_survey [] []))
   \<and> registry_ok (sample_store (sample_survey [] []))
   \<and> \<not> builtins_written (run [(sample_env, Create sample_payload), (sample_env, Results ''survey_1'' None)]
           (sample_store (sample_survey [] [])))
   \<and> createSurvey sample_env sample_payload
        (run [(sample_env, Create sample_payload), (sample_env, Results ''survey_1'' None)]
           (sample_store (sample_survey [] [])))
       = (Inl (AlreadyActive ''survey_1''),
          run [(sample_env, Create sample_payload), (sample_env, Results ''survey_1'' None)]
           (sample_store (sample_survey [] [])))
   \<and> surveys (sample_store (sample_survey [] [])) ''survey_1'' = Some (sample_survey [] [])
   \<and> \<not> is_active initial_store
   \<and> p_title sample_payload = Some ''Lunch'' \<and> ''Lunch'' \<noteq> []
   \<and> p_questions sample_payload = Some sample_questions \<and> sample_questions \<noteq> []
   \<and> (\<exists>reply st' s. createSurvey sample_env sample_payload initial_store = (Inr reply, st')
         \<and> cr_id reply = ''survey_1'' \<and> surveys st' (cr_id reply) = Some s \<and> is_active st'
         \<and> title s = ''Lunch'' \<and> length (questions s) = 3)"
proof -
  let ?st = "sample_store (sample_survey [] [])"
  let ?reqs = "[(sample_env, Create sample_payload), (sample_env, Results ''survey_1'' None)]"
  note T1 = createSurvey_single_active [of ?st sample_env sample_payload ?reqs]
  note T2 = createSurvey_single_active [of initial_store sample_env sample_payload "[]"
      "''Lunch''" sample_questions]
  have r: "run ?reqs ?st = ?st"
    by (simp add: handle_def createSurvey_active sample_store_facts getResults_state)
  have w: "\<not> builtins_written (run ?reqs ?st)"
    unfolding r by (rule sample_store_facts)
  have c: "or_empty (currentSurveyId ?st) = ''survey_1''"
    by (simp add: sample_store_facts or_empty_def)
  have a: "createSurvey sample_env sample_payload (run ?reqs ?st)
       = (Inl (AlreadyActive ''survey_1''), run ?reqs ?st)"
    using T1 sample_store_facts(1) [of "[]" "[]"] w unfolding c by blast
  have i: "\<not> is_active initial_store"
    by (simp add: is_active_def initial_store_def)
  have p: "p_title sample_payload = Some ''Lunch''" "''Lunch'' \<noteq> []"
    "p_questions sample_payload = Some sample_questions" "sample_questions \<noteq> []"
    by (simp_all add: sample_payload_def sample_questions_def)
  have n: "''survey_'' @ show_nat (nextId initial_store) = ''survey_1''"
    by (simp add: initial_store_def show_nat_digit digit_char_values)
  have l: "length sample_questions = 3"
    by (simp add: sample_questions_def)
  have f: "\<exists>reply st' s. createSurvey sample_env sample_payload initial_store = (Inr reply, st')
         \<and> cr_id reply = ''survey_1'' \<and> surveys st' (cr_id reply) = Some s \<and> is_active st'
         \<and> title s = ''Lunch'' \<and> length (questions s) = 3"
    using T2 i p unfolding n l by blast
  from sample_store_facts(1,2,4) [of "[]" "[]"] w a i p f
  show ?thesis by (intro conjI)
qed

lemma bump_absent: "to_string a \<notin> fst ` set oc \<Longrightarrow> bump oc a = oc"
  unfolding bump_def by (rule map_idI) force

lemma bump_object_own: "own_counts (fst (bump_object w a)) = bump (own_counts (fst w)) a"
  by (simp add: bump_object_def Let_def bump_absent split: option.splits prod.splits)

lemma foldl_bump_object_own:
  "own_counts (fst (foldl bump_object w xs)) = foldl bump (own_counts (fst w)) xs"
  by (induction xs arbitrary: w) (simp_all add: bump_object_own)

lemma count_answer_object_own:
  "own_counts (fst (count_answer_object w a)) = count_answer (own_counts (fst w)) a"
  by (simp add: count_answer_object_def count_answer_def bump_object_own foldl_bump_object_own)

lemma js_read_cases:
  "js_read rt b k = js_get b k \<or> (js_read rt b k = JNaN \<and> js_get b k = JUndefined)"
  by (simp add: js_read_def js_get_def split: option.splits)

lemma truthy_js_read: "truthy (js_read rt b k) = truthy (js_get b k)"
  using js_read_cases [of rt b k] by auto

lemma parseInt_undefined: "parseInt JUndefined = NaN" "parseInt JNaN = NaN"
  by (simp_all add: parseInt_def parseInt_str_def is_ws_def digit_of_def)

lemma parseInt_js_read: "parseInt (js_read rt b k) = parseInt (js_get b k)"
  using js_read_cases [of rt b k] by (auto simp: parseInt_undefined)

lemma count_answer_js_read: "count_answer oc (js_read rt b k) = count_answer oc (js_get b k)"
  using js_read_cases [of rt b k] by (auto simp: count_answer_def)

lemma filter_truthy_js_read:
  "filter truthy (map (\<lambda>r. js_read rt (data r) k) rs)
     = filter truthy (map (\<lambda>r. js_get (data r) k) rs)"
proof (induction rs)
  case Nil
  then show ?case by simp
next
  case (Cons r rs)
  then show ?case
    using js_read_cases [of rt "data r" k] by auto
qed

lemma count_responses_object_own:
  "own_counts (fst (count_responses_object w rs q)) = count_responses (own_counts (fst w)) rs q"
  unfolding count_responses_object_def count_responses_def
  by (induction rs arbitrary: w) (simp_all add: count_answer_object_own count_answer_js_read)

lemma init_counts_object_gen:
  "own_counts (foldl (\<lambda>optionCounts opt.
              if opt_id opt = ''__proto__''
              then optionCounts\<lparr>proto_counts := Some (opt_label opt, 0)\<rparr>
              else optionCounts\<lparr>own_counts :=
                     obj_set (own_counts optionCounts) (opt_id opt) (opt_label opt, 0)\<rparr>) oc opts)
     = foldl (\<lambda>optionCounts opt.
              if opt_id opt = ''__proto__'' then optionCounts
              else obj_set optionCounts (opt_id opt) (opt_label opt, 0)) (own_counts oc) opts"
  by (induction opts arbitrary: oc) simp_all

lemma init_counts_object_own: "own_counts (init_counts_object opts) = init_counts opts"
  by (simp add: init_counts_object_def init_counts_def init_counts_object_gen)

lemma summarise_in_summary: "fst (summarise_in rt s q) = summarise s q"
  by (cases "qtype q")
    (simp_all add: summarise_in_def summarise_def Let_def filter_truthy_js_read
      count_responses_object_own init_counts_object_own scaleValues_of_def parseInt_js_read)

lemma question_results_in_gen:
  "fst (foldl (\<lambda>acc question.
              (let sr = summarise_in (snd acc) s question
               in (fst acc @ [\<lparr>qr_id = qid question, qr_text = qtext question,
                                qr_type = qtype question, qr_summary = fst sr\<rparr>], snd sr)))
          acc qs)
     = fst acc @ map (question_result s) qs"
  by (induction qs arbitrary: acc) (simp_all add: Let_def summarise_in_summary question_result_def)

lemma question_results_in_results:
  "fst (question_results_in rt s qs) = map (question_result s) qs"
  by (simp add: question_results_in_def question_results_in_gen)

lemma find_survey_lookup: "find_survey rt st sid = lookup_survey st sid"
  by (simp add: find_survey_def lookup_survey_def js_read_def split: option.splits)

lemma results_handler_output:
  "fst (results_handler e sid tok (st, rt)) = fst (getResults sid tok st)"
  by (simp add: results_handler_def getResults_def find_survey_lookup Let_def aggregate_def
      question_results_in_results split: slot.splits)

lemma results_handler_store: "fst (snd (results_handler e sid tok (st, rt))) = st"
  by (simp add: results_handler_def Let_def split: slot.splits)

lemma results_calls_store: "fst (results_calls cs (st, rt)) = st"
proof (induction cs arbitrary: rt)
  case Nil
  then show ?case by simp
next
  case (Cons c cs)
  obtain e sid tok where c: "c = (e, sid, tok)" by (cases c)
  obtain st' rt' where r: "snd (results_handler e sid tok (st, rt)) = (st', rt')"
    by (cases "snd (results_handler e sid tok (st, rt))")
  have "st' = st"
    using results_handler_store [of e sid tok st rt] by (simp add: r)
  then show ?case
    using Cons.IH [of rt'] by (simp add: c r)
qed

text \<open>
  C8. The results handler reads neither the clock nor a random value, and leaves
  the store as it was. What it changes is the runtime: counting an answer that
  names a member of \<^verbatim>\<open>Object.prototype\<close> writes a \<^verbatim>\<open>count\<close> property there. These
  writes are not observed by a later call: in whatever runtime and environment
  the first call is made, and in whatever environment the second, the second of
  two consecutive calls returns the output of the first, which is the output
  determined by the store alone. The same holds when other results requests,
  for any ids and tokens, come between the two calls.
\<close>

theorem getResults_twice_identical:
  "fst (results_handler e2 sid tok (snd (results_handler e1 sid tok (st, rt))))
     = fst (results_handler e1 sid tok (st, rt))
   \<and> fst (snd (results_handler e1 sid tok (st, rt))) = st
   \<and> fst (results_handler e1 sid tok (st, rt)) = fst (getResults sid tok st)
   \<and> fst (results_handler e2 sid tok
             (results_calls cs (snd (results_handler e1 sid tok (st, rt)))))
       = fst (results_handler e1 sid tok (st, rt))"
proof -
  obtain out st' rt' where r: "results_handler e1 sid tok (st, rt) = (out, st', rt')"
    by (cases "results_handler e1 sid tok (st, rt)")
  have s: "st' = st"
    using results_handler_store [of e1 sid tok st rt] by (simp add: r)
  have o: "out = fst (getResults sid tok st)"
    using results_handler_output [of e1 sid tok st rt] by (simp add: r)
  have 1: "fst (results_handler e2 sid tok (st', rt')) = fst (getResults sid tok st)"
    unfolding s by (rule results_handler_output)
  obtain st'' rt'' where c: "results_calls cs (st, rt') = (st'', rt'')"
    by (cases "results_calls cs (st, rt')")
  have "st'' = st"
    using results_calls_store [of cs st rt'] by (simp add: c)
  then have 2: "fst (results_handler e2 sid tok (results_calls cs (st, rt')))
                  = fst (getResults sid tok st)"
    by (simp add: c results_handler_output)
  from 1 2 show ?thesis
    by (simp add: r s o)
qed

text \<open>
  The runtime does change: a stored answer \<^verbatim>\<open>__proto__\<close> to a choice question makes
  the first call put \<^verbatim>\<open>count\<close> on \<^verbatim>\<open>Object.prototype\<close>, and the second call, made in
  that runtime at another time, still returns the same counts.
\<close>

theorem getResults_twice_identical_witness:
  "snd (snd (results_handler sample_env ''survey_1'' None
        (sample_store (sample_survey [sample_question SingleChoice False 1 5]
                         [[''q_0'' \<mapsto> JStr ''__proto__''], [''q_0'' \<mapsto> JStr ''a'']]), pristine)))
     = \<lparr>prototype_count = True, member_count = {}\<rparr>
   \<and> pristine \<noteq> \<lparr>prototype_count = True, member_count = {}\<rparr>
   \<and> fst (results_handler (sample_env\<lparr>now_ms := 0, random_suffix := ''z''\<rparr>) ''survey_1'' None
        (sample_store (sample_survey [sample_question SingleChoice False 1 5]
                         [[''q_0'' \<mapsto> JStr ''__proto__''], [''q_0'' \<mapsto> JStr ''a'']]),
         \<lparr>prototype_count = True, member_count = {}\<rparr>))
     = fst (results_handler sample_env ''survey_1'' None
        (sample_store (sample_survey [sample_question SingleChoice False 1 5]
                         [[''q_0'' \<mapsto> JStr ''__proto__''], [''q_0'' \<mapsto> JStr ''a'']]), pristine))"
proof -
  let ?s = "sample_survey [sample_question SingleChoice False 1 5]
              [[''q_0'' \<mapsto> JStr ''__proto__''], [''q_0'' \<mapsto> JStr ''a'']]"
  let ?st = "sample_store ?s"
  let ?rt = "\<lparr>prototype_count = True, member_count = {}\<rparr>"
  let ?e = "sample_env\<lparr>now_ms := 0, random_suffix := ''z''\<rparr>"
  have f: "find_survey pristine ?st ''survey_1'' = Own ?s"
    by (simp add: find_survey_def sample_store_def sample_survey_def)
  have i: "init_counts_object sample_options
             = \<lparr>own_counts = [(''a'', ''A'', 0), (''b'', ''B'', 0)], proto_counts = None\<rparr>"
    by (simp add: init_counts_object_def sample_options_def)
  have q: "questions ?s = [sample_question SingleChoice False 1 5]"
    "responses ?s = [\<lparr>response_id = ''r'', data = [''q_0'' \<mapsto> JStr ''__proto__''], submittedAt = ''t''\<rparr>,
                     \<lparr>response_id = ''r'', data = [''q_0'' \<mapsto> JStr ''a''], submittedAt = ''t''\<rparr>]"
    by (simp_all add: sample_survey_def)
  have c: "snd (count_responses_object (init_counts_object sample_options, pristine)
                  (responses ?s) ''q_0'') = ?rt"
    unfolding q i
    by (simp add: count_responses_object_def count_answer_object_def bump_object_def js_read_def
        pristine_def object_prototype_keys_def bump_def)
  have m: "snd (summarise_in pristine ?s (sample_question SingleChoice False 1 5)) = ?rt"
    using c by (simp add: summarise_in_def sample_question_def Let_def)
  have 1: "snd (snd (results_handler sample_env ''survey_1'' None (?st, pristine))) = ?rt"
    using m by (simp add: results_handler_def f token_given_def Let_def question_results_in_def q(1))
  have 2: "pristine \<noteq> ?rt"
    by (simp add: pristine_def)
  have r: "snd (results_handler sample_env ''survey_1'' None (?st, pristine)) = (?st, ?rt)"
    using 1 results_handler_store [of sample_env "''survey_1''" None ?st pristine]
    by (simp add: prod_eq_iff)
  have 3: "fst (results_handler ?e ''survey_1'' None (?st, ?rt))
     = fst (results_handler sample_env ''survey_1'' None (?st, pristine))"
    using getResults_twice_identical [where ?e1.0 = sample_env and ?e2.0 = ?e
        and sid = "''survey_1''" and tok = None and st = ?st and rt = pristine]
    unfolding r by blast
  from 1 2 3 show ?thesis by (intro conjI)
qed

text \<open>
  C7 (as amended). For a stored survey, \<open>getResults\<close> fails with \<open>Unauthorized\<close> iff a
  non-empty token is supplied and differs from the survey's admin token; in every
  other case, in particular with no token or an empty one, it returns the full
  aggregate. For an id that is neither stored nor the name of a member of
  \<^verbatim>\<open>Object.prototype\<close> it fails with \<open>NotFound\<close>.
\<close>

theorem getResults_authorisation:
  "(surveys st sid = Some s
      \<longrightarrow> (fst (getResults sid tok st) = Inl Unauthorized)
            = (\<exists>t. tok = Some t \<and> t \<noteq> [] \<and> t \<noteq> adminToken s))
   \<and> (surveys st sid = Some s \<and> fst (getResults sid tok st) \<noteq> Inl Unauthorized
      \<longrightarrow> getResults sid tok st = (Inr (aggregate s), st))
   \<and> (surveys st sid = Some s \<and> (tok = None \<or> tok = Some [])
      \<longrightarrow> getResults sid tok st = (Inr (aggregate s), st))
   \<and> (surveys st sid = None \<and> sid \<notin> set object_prototype_keys
      \<longrightarrow> getResults sid tok st = (Inl NotFound, st))"
proof -
  have 1: "surveys st sid = Some s
      \<longrightarrow> (fst (getResults sid tok st) = Inl Unauthorized)
            = (\<exists>t. tok = Some t \<and> t \<noteq> [] \<and> t \<noteq> adminToken s)"
    by (cases tok) (auto simp: getResults_def lookup_own token_given_def)
  have 2: "surveys st sid = Some s \<and> fst (getResults sid tok st) \<noteq> Inl Unauthorized
      \<longrightarrow> getResults sid tok st = (Inr (aggregate s), st)"
    by (auto simp: getResults_def lookup_own)
  have 3: "surveys st sid = Some s \<and> (tok = None \<or> tok = Some [])
      \<longrightarrow> getResults sid tok st = (Inr (aggregate s), st)"
    by (cases tok) (auto simp: getResults_def lookup_own token_given_def)
  have 4: "surveys st sid = None \<and> sid \<notin> set object_prototype_keys
      \<longrightarrow> getResults sid tok st = (Inl NotFound, st)"
    by (simp add: getResults_def lookup_missing)
  from 1 2 3 4 show ?thesis by (intro conjI)
qed

text \<open>
  C7 as stated fails for a supplied empty token (\<^verbatim>\<open>?token=\<close>): it differs from the
  admin token, and the call succeeds.
\<close>

theorem getResults_empty_token_counterexample:
  "surveys (sample_store (sample_survey [] [])) ''survey_1'' = Some (sample_survey [] [])
   \<and> '''' \<noteq> adminToken (sample_survey [] [])
   \<and> getResults ''survey_1'' (Some '''') (sample_store (sample_survey [] []))
       = (Inr (aggregate (sample_survey [] [])), sample_store (sample_survey [] []))"
proof -
  have l: "surveys (sample_store (sample_survey [] [])) ''survey_1'' = Some (sample_survey [] [])"
    by (simp add: sample_store_def sample_survey_def)
  have t: "'''' \<noteq> adminToken (sample_survey [] [])"
    by (simp add: sample_survey_def)
  have "getResults ''survey_1'' (Some '''') (sample_store (sample_survey [] []))
       = (Inr (aggregate (sample_survey [] [])), sample_store (sample_survey [] []))"
    by (simp add: getResults_def lookup_own [OF l] token_given_def)
  with l t show ?thesis by (intro conjI)
qed

theorem getResults_authorisation_witness:
  "surveys (sample_store (sample_survey [] [])) ''survey_1'' = Some (sample_survey [] [])
   \<and> getResults ''survey_1'' None (sample_store (sample_survey [] []))
       = (Inr (aggregate (sample_survey [] [])), sample_store (sample_survey [] []))
   \<and> fst (getResults ''survey_1'' (Some ''guess'') (sample_store (sample_survey [] [])))
       = Inl Unauthorized
   \<and> fst (getResults ''survey_1'' (Some ''secret'') (sample_store (sample_survey [] [])))
       \<noteq> Inl Unauthorized
   \<and> getResults ''survey_1'' (Some ''secret'') (sample_store (sample_survey [] []))
       = (Inr (aggregate (sample_survey [] [])), sample_store (sample_survey [] []))
   \<and> surveys (sample_store (sample_survey [] [])) ''survey_7'' = None
   \<and> ''survey_7'' \<notin> set object_prototype_keys
   \<and> getResults ''survey_7'' None (sample_store (sample_survey [] []))
       = (Inl NotFound, sample_store (sample_survey [] []))"
proof -
  let ?s = "sample_survey [] []"
  let ?st = "sample_store ?s"
  note l = sample_store_facts(4) [of "[]" "[]"]
  have t: "adminToken ?s = ''secret''" by (simp add: sample_survey_def)
  have 1: "getResults ''survey_1'' None ?st = (Inr (aggregate ?s), ?st)"
    using getResults_authorisation [of ?st "''survey_1''" ?s None] l by blast
  have 2: "fst (getResults ''survey_1'' (Some ''guess'') ?st) = Inl Unauthorized"
    using getResults_authorisation [of ?st "''survey_1''" ?s "Some ''guess''"] l t by simp
  have 3: "fst (getResults ''survey_1'' (Some ''secret'') ?st) \<noteq> Inl Unauthorized"
    using getResults_authorisation [of ?st "''survey_1''" ?s "Some ''secret''"] l t by simp
  have 4: "getResults ''survey_1'' (Some ''secret'') ?st = (Inr (aggregate ?s), ?st)"
    using getResults_authorisation [of ?st "''survey_1''" ?s "Some ''secret''"] l 3 by blast
  have m: "surveys ?st ''survey_7'' = None"
    by (simp add: sample_store_def sample_survey_def)
  have k: "''survey_7'' \<notin> set object_prototype_keys"
    by (simp add: object_prototype_keys_def)
  have 5: "getResults ''survey_7'' None ?st = (Inl NotFound, ?st)"
    using getResults_authorisation [of ?st "''survey_7''" ?s None] m k by blast
  from l 1 2 3 4 m k 5 show ?thesis by (intro conjI)
qed

text \<open>
  An id naming a member of \<^verbatim>\<open>Object.prototype\<close> is not reported as not found: the
  handler reaches \<^verbatim>\<open>survey.responses.length\<close> on the built-in and answers 500.
\<close>

lemma getResults_inherited_id:
  "getResults ''constructor'' None initial_store = (Inl InternalError, initial_store)"
  by (simp add: getResults_def lookup_survey_def initial_store_def object_prototype_keys_def
      token_given_def)


text \<open>
  C6 (as amended). For a stored survey, \<open>updateSurvey\<close> with the matching admin token
  and a payload with a non-empty title and a non-empty question list replaces
  title, description and questions (ids re-assigned) and stamps \<open>updatedAt\<close>, while
  the survey's id, admin token, creation time and stored responses, and the rest
  of the store, stay as they were. With any other token it fails with
  \<open>Unauthorized\<close> and the store is unchanged. With the matching token and a payload
  lacking a title or questions it fails with \<open>MalformedInput\<close> and the store is
  unchanged. For an id that is neither stored nor the name of a member of
  \<^verbatim>\<open>Object.prototype\<close> it fails with \<open>NotFound\<close>.
\<close>

theorem updateSurvey_frame:
  "(surveys st sid = Some s \<and> tok = Some (adminToken s) \<and> \<not> invalid_payload p
      \<longrightarrow> updateSurvey e sid tok p st
            = (Inr \<lparr>ur_id = Some (survey_id s), ur_title = or_empty (p_title p),
                    ur_description = or_empty (p_description p),
                    ur_questions = questions (updated e p s)\<rparr>,
               st\<lparr>surveys := (surveys st)(sid \<mapsto> updated e p s)\<rparr>)
          \<and> title (updated e p s) = or_empty (p_title p)
          \<and> description (updated e p s) = or_empty (p_description p)
          \<and> questions (updated e p s)
              = assign_ids (case p_questions p of Some qs \<Rightarrow> qs | None \<Rightarrow> [])
          \<and> updatedAt (updated e p s) = Some (now_iso e)
          \<and> survey_id (updated e p s) = survey_id s \<and> adminToken (updated e p s) = adminToken s
          \<and> responses (updated e p s) = responses s \<and> createdAt (updated e p s) = createdAt s)
   \<and> (surveys st sid = Some s \<and> tok \<noteq> Some (adminToken s)
      \<longrightarrow> updateSurvey e sid tok p st = (Inl Unauthorized, st))
   \<and> (surveys st sid = Some s \<and> tok = Some (adminToken s) \<and> invalid_payload p
      \<longrightarrow> updateSurvey e sid tok p st = (Inl MalformedInput, st))
   \<and> (surveys st sid = None \<and> sid \<notin> set object_prototype_keys
      \<longrightarrow> updateSurvey e sid tok p st = (Inl NotFound, st))"
  by (simp add: updateSurvey_def lookup_own lookup_missing Let_def updated_def)

lemma updateSurvey_written:
  "surveys st sid = Some s \<Longrightarrow>
   builtins_written (snd (updateSurvey e sid tok p st)) = builtins_written st"
  by (simp add: updateSurvey_def lookup_own Let_def)

theorem updateSurvey_frame_witness:
  "surveys (sample_store (sample_survey [sample_question Text False 1 5] [[''q_0'' \<mapsto> JStr ''hello'']]))
       ''survey_1''
     = Some (sample_survey [sample_question Text False 1 5] [[''q_0'' \<mapsto> JStr ''hello'']])
   \<and> Some ''secret''
       = Some (adminToken (sample_survey [sample_question Text False 1 5] [[''q_0'' \<mapsto> JStr ''hello'']]))
   \<and> \<not> invalid_payload sample_payload
   \<and> snd (updateSurvey sample_env ''survey_1'' (Some ''secret'') sample_payload
          (sample_store (sample_survey [sample_question Text False 1 5] [[''q_0'' \<mapsto> JStr ''hello'']])))
       = (sample_store (sample_survey [sample_question Text False 1 5] [[''q_0'' \<mapsto> JStr ''hello'']]))
           \<lparr>surveys := (surveys (sample_store (sample_survey [sample_question Text False 1 5]
                                                 [[''q_0'' \<mapsto> JStr ''hello'']])))
              (''survey_1'' \<mapsto> updated sample_env sample_payload
                 (sample_survey [sample_question Text False 1 5] [[''q_0'' \<mapsto> JStr ''hello'']]))\<rparr>
   \<and> responses (updated sample_env sample_payload
        (sample_survey [sample_question Text False 1 5] [[''q_0'' \<mapsto> JStr ''hello'']]))
       = [\<lparr>response_id = ''r'', data = [''q_0'' \<mapsto> JStr ''hello''], submittedAt = ''t''\<rparr>]
   \<and> title (updated sample_env sample_payload
        (sample_survey [sample_question Text False 1 5] [[''q_0'' \<mapsto> JStr ''hello'']])) = ''Lunch''
   \<and> length (questions (updated sample_env sample_payload
        (sample_survey [sample_question Text False 1 5] [[''q_0'' \<mapsto> JStr ''hello'']]))) = 3
   \<and> adminToken (updated sample_env sample_payload
        (sample_survey [sample_question Text False 1 5] [[''q_0'' \<mapsto> JStr ''hello'']])) = ''secret''
   \<and> Some ''guess''
       \<noteq> Some (adminToken (sample_survey [sample_question Text False 1 5] [[''q_0'' \<mapsto> JStr ''hello'']]))
   \<and> updateSurvey sample_env ''survey_1'' (Some ''guess'') sample_payload
          (sample_store (sample_survey [sample_question Text False 1 5] [[''q_0'' \<mapsto> JStr ''hello'']]))
       = (Inl Unauthorized,
          sample_store (sample_survey [sample_question Text False 1 5] [[''q_0'' \<mapsto> JStr ''hello'']]))
   \<and> invalid_payload (sample_payload\<lparr>p_questions := Some []\<rparr>)
   \<and> updateSurvey sample_env ''survey_1'' (Some ''secret'') (sample_payload\<lparr>p_questions := Some []\<rparr>)
          (sample_store (sample_survey [sample_question Text False 1 5] [[''q_0'' \<mapsto> JStr ''hello'']]))
       = (Inl MalformedInput,
          sample_store (sample_survey [sample_question Text False 1 5] [[''q_0'' \<mapsto> JStr ''hello'']]))
   \<and> surveys (sample_store (sample_survey [sample_question Text False 1 5] [[''q_0'' \<mapsto> JStr ''hello'']]))
       ''survey_7'' = None
   \<and> ''survey_7'' \<notin> set object_prototype_keys
   \<and> updateSurvey sample_env ''survey_7'' (Some ''secret'') sample_payload
          (sample_store (sample_survey [sample_question Text False 1 5] [[''q_0'' \<mapsto> JStr ''hello'']]))
       = (Inl NotFound,
          sample_store (sample_survey [sample_question Text False 1 5] [[''q_0'' \<mapsto> JStr ''hello'']]))"
proof -
  let ?s = "sample_survey [sample_question Text False 1 5] [[''q_0'' \<mapsto> JStr ''hello'']]"
  let ?st = "sample_store ?s"
  let ?bad = "sample_payload\<lparr>p_questions := Some []\<rparr>"
  note l = sample_store_facts(4) [of "[sample_question Text False 1 5]" "[[''q_0'' \<mapsto> JStr ''hello'']]"]
  have t: "Some ''secret'' = Some (adminToken ?s)" "Some ''guess'' \<noteq> Some (adminToken ?s)"
    by (simp_all add: sample_survey_def)
  have v: "\<not> invalid_payload sample_payload"
    by (simp add: invalid_payload_def sample_payload_def sample_questions_def)
  have b: "invalid_payload ?bad"
    by (simp add: invalid_payload_def)
  note T = updateSurvey_frame [where st = ?st and sid = "''survey_1''" and s = ?s
      and tok = "Some ''secret''" and p = sample_payload and e = sample_env]
  have 1: "snd (updateSurvey sample_env ''survey_1'' (Some ''secret'') sample_payload ?st)
       = ?st\<lparr>surveys := (surveys ?st)(''survey_1'' \<mapsto> updated sample_env sample_payload ?s)\<rparr>"
    using T l t(1) v by simp
  have r: "responses (updated sample_env sample_payload ?s) = responses ?s"
    using T l t(1) v by blast
  have r': "responses ?s = [\<lparr>response_id = ''r'', data = [''q_0'' \<mapsto> JStr ''hello''], submittedAt = ''t''\<rparr>]"
    by (simp add: sample_survey_def)
  have ti: "title (updated sample_env sample_payload ?s) = or_empty (p_title sample_payload)"
    using T l t(1) v by blast
  have ti': "or_empty (p_title sample_payload) = ''Lunch''"
    by (simp add: sample_payload_def or_empty_def)
  have qs: "questions (updated sample_env sample_payload ?s)
              = assign_ids (case p_questions sample_payload of Some qs \<Rightarrow> qs | None \<Rightarrow> [])"
    using T l t(1) v by blast
  have qs': "length (assign_ids (case p_questions sample_payload of Some qs \<Rightarrow> qs | None \<Rightarrow> [])) = 3"
    by (simp add: assign_ids_length sample_payload_def sample_questions_def)
  have at: "adminToken (updated sample_env sample_payload ?s) = adminToken ?s"
    using T l t(1) v by blast
  have at': "adminToken ?s = ''secret''"
    by (simp add: sample_survey_def)
  have 2: "updateSurvey sample_env ''survey_1'' (Some ''guess'') sample_payload ?st
       = (Inl Unauthorized, ?st)"
    using updateSurvey_frame [where st = ?st and sid = "''survey_1''" and s = ?s
        and tok = "Some ''guess''" and p = sample_payload and e = sample_env]
      l t(2) by blast
  have 3: "updateSurvey sample_env ''survey_1'' (Some ''secret'') ?bad ?st = (Inl MalformedInput, ?st)"
    using updateSurvey_frame [where st = ?st and sid = "''survey_1''" and s = ?s
        and tok = "Some ''secret''" and p = ?bad and e = sample_env]
      l t(1) b by blast
  have m: "surveys ?st ''survey_7'' = None"
    by (simp add: sample_store_def sample_survey_def)
  have k: "''survey_7'' \<notin> set object_prototype_keys"
    by (simp add: object_prototype_keys_def)
  have 4: "updateSurvey sample_env ''survey_7'' (Some ''secret'') sample_payload ?st
       = (Inl NotFound, ?st)"
    using updateSurvey_frame [where st = ?st and sid = "''survey_7''" and s = ?s
        and tok = "Some ''secret''" and p = sample_payload and e = sample_env]
      m k by blast
  from l t(1) v 1 r [unfolded r'] ti [unfolded ti'] qs' [folded qs] at [unfolded at'] t(2) 2 b 3 m k 4
  show ?thesis by (intro conjI)
qed

text \<open>
  C6 as stated fails for a payload the handler refuses: with the matching token and
  an empty question list nothing is replaced.
\<close>

theorem updateSurvey_malformed_counterexample:
  "surveys (sample_store (sample_survey [] [])) ''survey_1'' = Some (sample_survey [] [])
   \<and> adminToken (sample_survey [] []) = ''secret''
   \<and> updateSurvey sample_env ''survey_1'' (Some ''secret'')
        \<lparr>p_title = Some ''New title'', p_description = None, p_questions = Some []\<rparr>
        (sample_store (sample_survey [] []))
       = (Inl MalformedInput, sample_store (sample_survey [] []))"
proof -
  note l = sample_store_facts(4) [of "[]" "[]"]
  have t: "adminToken (sample_survey [] []) = ''secret''"
    by (simp add: sample_survey_def)
  have "updateSurvey sample_env ''survey_1'' (Some ''secret'')
        \<lparr>p_title = Some ''New title'', p_description = None, p_questions = Some []\<rparr>
        (sample_store (sample_survey [] []))
       = (Inl MalformedInput, sample_store (sample_survey [] []))"
    by (simp add: updateSurvey_def lookup_own [OF l] t invalid_payload_def)
  with l t show ?thesis by (intro conjI)
qed

text \<open>
  An id naming a member of \<^verbatim>\<open>Object.prototype\<close> is not reported as not found: without
  a token the update is accepted and written onto the built-in object, with a
  token it is refused as unauthorised.
\<close>

lemma updateSurvey_inherited_id:
  "surveys initial_store ''constructor'' = None
   \<and> updateSurvey sample_env ''constructor'' None sample_payload initial_store
       = (Inr \<lparr>ur_id = None, ur_title = ''Lunch'', ur_description = [],
               ur_questions = assign_ids sample_questions\<rparr>,
          initial_store\<lparr>builtins_written := True\<rparr>)
   \<and> updateSurvey sample_env ''constructor'' (Some ''guess'') sample_payload initial_store
       = (Inl Unauthorized, initial_store)"
proof -
  have l: "lookup_survey initial_store ''constructor'' = Inherited"
    by (simp add: lookup_survey_def initial_store_def object_prototype_keys_def)
  have v: "\<not> invalid_payload sample_payload"
    by (simp add: invalid_payload_def sample_payload_def sample_questions_def)
  have p: "or_empty (p_title sample_payload) = ''Lunch''" "or_empty (p_description sample_payload) = []"
    "p_questions sample_payload = Some sample_questions"
    by (simp_all add: sample_payload_def or_empty_def)
  show ?thesis
    by (simp add: updateSurvey_def l v p) (simp add: initial_store_def)
qed

lemma handle_responses:
  assumes "registry_ok st" and "surveys st sid = Some s"
  shows "\<exists>s'. surveys (handle e r st) sid = Some s' \<and> prefix (responses s) (responses s')"
proof (cases r)
  case (Create p)
  have "is_active st" using assms by (auto simp: registry_ok_def)
  then show ?thesis using Create assms(2) by (simp add: handle_def createSurvey_active)
next
  case (Update sid' tok p)
  then show ?thesis
    using assms(2)
    by (auto simp: handle_def updateSurvey_def Let_def lookup_own_iff split: slot.splits)
next
  case (Submit sid' b)
  then show ?thesis
    using assms(2)
    by (auto simp: handle_def submitResponse_def Let_def lookup_own_iff split: slot.splits)
next
  case (Results sid' tok)
  then show ?thesis using assms(2) by (simp add: handle_def getResults_state)
qed

lemma run_responses:
  assumes "registry_ok st" and "surveys st sid = Some s"
  shows "\<exists>s'. surveys (run reqs st) sid = Some s' \<and> prefix (responses s) (responses s')"
  using assms
proof (induction reqs arbitrary: st s)
  case Nil
  then show ?case by simp
next
  case (Cons er reqs)
  obtain e r where er: "er = (e, r)" by (cases er)
  obtain s1 where s1: "surveys (handle e r st) sid = Some s1" "prefix (responses s) (responses s1)"
    using handle_responses [OF Cons.prems, of e r] by blast
  obtain s2 where s2: "surveys (run reqs (handle e r st)) sid = Some s2"
    "prefix (responses s1) (responses s2)"
    using Cons.IH [OF registry_ok_handle [OF Cons.prems(1), of e r] s1(1)] by blast
  from s1(2) s2(2) have "prefix (responses s) (responses s2)" by (rule prefix_order.trans)
  with s2(1) er show ?case by simp
qed

lemma validate_questions_cong:
  "(\<forall>q\<in>set qs. js_get b (qid q) = js_get b' (qid q))
   \<Longrightarrow> validate_questions qs b = validate_questions qs b'"
  by (induction qs) simp_all

lemma submitResponse_accepted:
  assumes "submitResponse e sid b st = (Inr rid, st')"
  shows "\<exists>s. surveys st sid = Some s \<and> validateResponse s b = []
           \<and> rid = ''response_'' @ show_nat (now_ms e) @ ''_'' @ random_suffix e
           \<and> st' = st\<lparr>surveys := (surveys st)(sid \<mapsto>
                  s\<lparr>responses := responses s @ [\<lparr>response_id = rid, data = b, submittedAt = now_iso e\<rparr>]\<rparr>)\<rparr>"
  using assms
  by (auto simp: submitResponse_def Let_def lookup_own_iff split: slot.splits if_splits)

text \<open>
  C10. An accepted submission appends one response whose data is the submitted
  body itself; a key that is no question id of the survey does not change the
  validator's verdict, so such entries are neither rejected nor removed; and
  after any further requests the stored response, with that data, is still among
  the survey's responses.
\<close>

theorem submitResponse_stores_verbatim:
  "(submitResponse e sid b st = (Inr rid, st')
      \<longrightarrow> (\<exists>s. surveys st sid = Some s \<and> validateResponse s b = []
             \<and> st' = st\<lparr>surveys := (surveys st)(sid \<mapsto>
                  s\<lparr>responses := responses s @ [\<lparr>response_id = rid, data = b, submittedAt = now_iso e\<rparr>]\<rparr>)\<rparr>))
   \<and> ((\<forall>q\<in>set (questions sv). qid q \<noteq> k)
      \<longrightarrow> validateResponse sv (b(k \<mapsto> v)) = validateResponse sv b)
   \<and> (registry_ok st \<and> submitResponse e sid b st = (Inr rid, st') \<and> \<not> builtins_written (run reqs st')
      \<longrightarrow> (\<exists>s'. surveys (run reqs st') sid = Some s'
             \<and> \<lparr>response_id = rid, data = b, submittedAt = now_iso e\<rparr> \<in> set (responses s')))"
proof -
  have 1: "submitResponse e sid b st = (Inr rid, st')
      \<longrightarrow> (\<exists>s. surveys st sid = Some s \<and> validateResponse s b = []
             \<and> st' = st\<lparr>surveys := (surveys st)(sid \<mapsto>
                  s\<lparr>responses := responses s @ [\<lparr>response_id = rid, data = b, submittedAt = now_iso e\<rparr>]\<rparr>)\<rparr>)"
    using submitResponse_accepted [of e sid b st rid st'] by blast
  have 2: "(\<forall>q\<in>set (questions sv). qid q \<noteq> k)
      \<longrightarrow> validateResponse sv (b(k \<mapsto> v)) = validateResponse sv b"
    unfolding validateResponse_def
    by (intro impI validate_questions_cong) (auto simp: js_get_def)
  have 3: "registry_ok st \<and> submitResponse e sid b st = (Inr rid, st') \<and> \<not> builtins_written (run reqs st')
      \<longrightarrow> (\<exists>s'. surveys (run reqs st') sid = Some s'
             \<and> \<lparr>response_id = rid, data = b, submittedAt = now_iso e\<rparr> \<in> set (responses s'))"
  proof (intro impI)
    assume h: "registry_ok st \<and> submitResponse e sid b st = (Inr rid, st') \<and> \<not> builtins_written (run reqs st')"
    let ?r = "\<lparr>response_id = rid, data = b, submittedAt = now_iso e\<rparr>"
    obtain s where s: "surveys st sid = Some s"
      "st' = st\<lparr>surveys := (surveys st)(sid \<mapsto> s\<lparr>responses := responses s @ [?r]\<rparr>)\<rparr>"
      using submitResponse_accepted [of e sid b st rid st'] h by blast
    have ok: "registry_ok st'"
      using registry_ok_submit [of st e sid b] h by simp
    have l: "surveys st' sid = Some (s\<lparr>responses := responses s @ [?r]\<rparr>)"
      using s(2) by simp
    obtain s' where s': "surveys (run reqs st') sid = Some s'"
      "prefix (responses (s\<lparr>responses := responses s @ [?r]\<rparr>)) (responses s')"
      using run_responses [OF ok l, of reqs] by blast
    have "?r \<in> set (responses s')"
      using s'(2) by (auto simp: prefix_def)
    with s'(1) show "\<exists>s'. surveys (run reqs st') sid = Some s' \<and> ?r \<in> set (responses s')"
      by blast
  qed
  from 1 2 3 show ?thesis by (intro conjI)
qed


lemma submitResponse_valid:
  assumes "surveys st sid = Some s" and "validateResponse s b = []"
  shows "submitResponse e sid b st
    = (Inr (''response_'' @ show_nat (now_ms e) @ ''_'' @ random_suffix e),
       st\<lparr>surveys := (surveys st)(sid \<mapsto> s\<lparr>responses := responses s @
            [\<lparr>response_id = ''response_'' @ show_nat (now_ms e) @ ''_'' @ random_suffix e,
              data = b, submittedAt = now_iso e\<rparr>]\<rparr>)\<rparr>)"
  using assms by (simp add: submitResponse_def lookup_own Let_def)

theorem submitResponse_stores_verbatim_witness:
  "registry_ok (sample_store (sample_survey [sample_question Text True 1 5] []))
   \<and> submitResponse sample_env ''survey_1'' [''q_0'' \<mapsto> JStr ''hi'', ''extra'' \<mapsto> JStr ''x'']
        (sample_store (sample_survey [sample_question Text True 1 5] []))
      = (Inr (''response_'' @ show_nat (now_ms sample_env) @ ''_'' @ random_suffix sample_env),
         snd (submitResponse sample_env ''survey_1'' [''q_0'' \<mapsto> JStr ''hi'', ''extra'' \<mapsto> JStr ''x'']
               (sample_store (sample_survey [sample_question Text True 1 5] []))))
   \<and> \<not> builtins_written
         (run [(sample_env, Update ''survey_1'' (Some ''secret'') sample_payload)]
            (snd (submitResponse sample_env ''survey_1'' [''q_0'' \<mapsto> JStr ''hi'', ''extra'' \<mapsto> JStr ''x'']
               (sample_store (sample_survey [sample_question Text True 1 5] [])))))
   \<and> set (questions (sample_survey [sample_question Text True 1 5] [])) = {sample_question Text True 1 5}
   \<and> qid (sample_question Text True 1 5) \<noteq> ''extra''
   \<and> validateResponse (sample_survey [sample_question Text True 1 5] [])
        [''q_0'' \<mapsto> JStr ''hi'', ''extra'' \<mapsto> JStr ''x'']
      = validateResponse (sample_survey [sample_question Text True 1 5] []) [''q_0'' \<mapsto> JStr ''hi'']
   \<and> (\<exists>s'. surveys (run [(sample_env, Update ''survey_1'' (Some ''secret'') sample_payload)]
            (snd (submitResponse sample_env ''survey_1'' [''q_0'' \<mapsto> JStr ''hi'', ''extra'' \<mapsto> JStr ''x'']
               (sample_store (sample_survey [sample_question Text True 1 5] []))))) ''survey_1'' = Some s'
         \<and> \<lparr>response_id = ''response_'' @ show_nat (now_ms sample_env) @ ''_'' @ random_suffix sample_env,
             data = [''q_0'' \<mapsto> JStr ''hi'', ''extra'' \<mapsto> JStr ''x''],
             submittedAt = now_iso sample_env\<rparr> \<in> set (responses s'))"
proof -
  let ?q = "sample_question Text True 1 5"
  let ?s = "sample_survey [?q] []"
  let ?st = "sample_store ?s"
  let ?base = "[''q_0'' \<mapsto> JStr ''hi'']"
  let ?b = "[''q_0'' \<mapsto> JStr ''hi'', ''extra'' \<mapsto> JStr ''x'']"
  let ?rid = "''response_'' @ show_nat (now_ms sample_env) @ ''_'' @ random_suffix sample_env"
  let ?reqs = "[(sample_env, Update ''survey_1'' (Some ''secret'') sample_payload)]"
  let ?st' = "snd (submitResponse sample_env ''survey_1'' ?b ?st)"
  note l = sample_store_facts(4) [of "[?q]" "[]"]
  note ok = sample_store_facts(2) [of "[?q]" "[]"]
  have v: "validateResponse ?s ?b = []"
    by (simp add: validateResponse_def sample_survey_def sample_question_def js_get_def
        validate_question_def)
  have sub: "submitResponse sample_env ''survey_1'' ?b ?st = (Inr ?rid, ?st')"
    by (simp add: submitResponse_valid [OF l v])
  have l': "surveys ?st' ''survey_1''
        = Some (?s\<lparr>responses := responses ?s @
            [\<lparr>response_id = ?rid, data = ?b, submittedAt = now_iso sample_env\<rparr>]\<rparr>)"
    by (simp add: submitResponse_valid [OF l v])
  have w': "\<not> builtins_written ?st'"
    by (simp add: submitResponse_valid [OF l v] sample_store_facts)
  have w: "\<not> builtins_written (run ?reqs ?st')"
    using w' by (simp add: handle_def updateSurvey_written [OF l'])
  have qs: "set (questions ?s) = {?q}" by (simp add: sample_survey_def)
  have k: "qid ?q \<noteq> ''extra''" by (simp add: sample_question_def)
  have c: "validateResponse ?s ?b = validateResponse ?s ?base"
    using submitResponse_stores_verbatim [where sv = ?s and b = ?base and k = "''extra''"
        and v = "JStr ''x''"] qs k
    by simp
  have r: "\<exists>s'. surveys (run ?reqs ?st') ''survey_1'' = Some s'
         \<and> \<lparr>response_id = ?rid, data = ?b, submittedAt = now_iso sample_env\<rparr> \<in> set (responses s')"
    using submitResponse_stores_verbatim [where e = sample_env and sid = "''survey_1''"
        and b = ?b and st = ?st and rid = ?rid and st' = ?st' and reqs = ?reqs] ok sub w
    by blast
  from ok sub w qs k c r show ?thesis by (intro conjI)
qed


subsection \<open>Aggregator\<close>

lemma foldl_dadd_exact:
  "\<bar>a\<bar> + sum_list (map abs ns) \<le> 2 ^ 53 \<Longrightarrow>
   foldl dadd (Fin (of_int a)) (exact ns) = Fin (of_int (a + sum_list ns))"
proof (induction ns arbitrary: a)
  case Nil
  then show ?case by (simp add: exact_def)
next
  case (Cons n ns)
  have b: "\<bar>a + n\<bar> \<le> 2 ^ 53"
    using Cons.prems sum_list_abs [of ns] by simp
  have s: "dadd (Fin (of_int a)) (Fin (of_int n)) = Fin (of_int (a + n))"
    using round_dbl_int [OF b] by simp
  have "\<bar>a + n\<bar> + sum_list (map abs ns) \<le> 2 ^ 53"
    using Cons.prems by simp
  from Cons.IH [OF this] show ?case
    using s by (simp add: exact_def add.assoc)
qed

lemma nearest_stable:
  fixes t :: rat
  assumes "0 < L" and "\<bar>t - of_int A / of_nat L\<bar> < 1 / (2 * of_nat L)"
    and "of_int N \<le> t + 1 / 2" and "t + 1 / 2 < of_int N + 1"
  shows "\<bar>of_int N - of_int A / of_nat L\<bar> \<le> (1 / 2 :: rat)"
proof -
  define l :: rat where "l = of_nat L"
  have l0: "0 < l" using assms(1) by (simp add: l_def)
  define d where "d = t * (2 * l)"
  have p: "0 < 2 * l" using l0 by simp
  have a2: "\<bar>t - of_int A / l\<bar> < 1 / (2 * l)"
    using assms(2) by (simp add: l_def)
  have "\<bar>t - of_int A / l\<bar> * (2 * l) < 1 / (2 * l) * (2 * l)"
    using a2 p by (rule mult_strict_right_mono)
  then have "\<bar>t - of_int A / l\<bar> * \<bar>2 * l\<bar> < 1"
    using l0 by simp
  then have "\<bar>(t - of_int A / l) * (2 * l)\<bar> < 1"
    by (simp only: abs_mult)
  moreover have "(t - of_int A / l) * (2 * l) = d - 2 * of_int A"
    using l0 by (simp add: d_def field_simps)
  ultimately have e: "\<bar>d - 2 * of_int A\<bar> < 1" by simp
  have "of_int N * (2 * l) \<le> (t + 1 / 2) * (2 * l)"
    using assms(3) p by (simp only: mult_right_mono less_imp_le)
  moreover have "(t + 1 / 2) * (2 * l) = d + l"
    by (simp add: d_def algebra_simps)
  ultimately have lo: "of_int N * (2 * l) - l \<le> d" by simp
  have "(t + 1 / 2) * (2 * l) < (of_int N + 1) * (2 * l)"
    using assms(4) p by (rule mult_strict_right_mono)
  moreover have "(of_int N + 1) * (2 * l) = of_int N * (2 * l) + 2 * l"
    by (simp add: algebra_simps)
  ultimately have hi: "d < of_int N * (2 * l) + l"
    using \<open>(t + 1 / 2) * (2 * l) = d + l\<close> by simp
  have "2 * of_int A < of_int N * (2 * l) + l + 1" using e hi by linarith
  then have "(of_int (2 * A) :: rat) < of_int (N * (2 * int L) + int L + 1)"
    by (simp add: l_def)
  then have "2 * A < N * (2 * int L) + int L + 1" by (simp only: of_int_less_iff)
  then have "2 * A \<le> N * (2 * int L) + int L" by simp
  then have "(of_int (2 * A) :: rat) \<le> of_int (N * (2 * int L) + int L)"
    by (simp only: of_int_le_iff)
  then have u: "2 * of_int A \<le> of_int N * (2 * l) + l" by (simp add: l_def)
  have "of_int N * (2 * l) - l - 1 < 2 * of_int A" using e lo by linarith
  then have "(of_int (N * (2 * int L) - int L - 1) :: rat) < of_int (2 * A)"
    by (simp add: l_def)
  then have "N * (2 * int L) - int L - 1 < 2 * A" by (simp only: of_int_less_iff)
  then have "N * (2 * int L) - int L \<le> 2 * A" by simp
  then have "(of_int (N * (2 * int L) - int L) :: rat) \<le> of_int (2 * A)"
    by (simp only: of_int_le_iff)
  then have v: "of_int N * (2 * l) - l \<le> 2 * of_int A" by (simp add: l_def)
  have "(of_int N - of_int A / l) * (2 * l) = of_int N * (2 * l) - 2 * of_int A"
    using l0 by (simp add: field_simps)
  then have "\<bar>(of_int N - of_int A / l) * (2 * l)\<bar> \<le> l"
    using u v by (simp add: abs_le_iff)
  then have "\<bar>of_int N - of_int A / l\<bar> * (2 * l) \<le> 1 / 2 * (2 * l)"
    using l0 by (simp add: abs_mult)
  then have "\<bar>of_int N - of_int A / l\<bar> \<le> 1 / 2"
    using p by (simp only: mult_le_cancel_right_pos)
  then show ?thesis by (simp add: l_def)
qed

lemma show_nat_step: "10 \<le> n \<Longrightarrow> show_nat n = show_nat (n div 10) @ [digit_char (n mod 10)]"
  by (simp add: show_nat.simps [of n])

lemma show_nat_last_two:
  "(if length (show_nat n) \<le> 2 then replicate (3 - length (show_nat n)) (CHR ''0'') @ show_nat n
    else show_nat n)
   = show_nat (n div 100) @ [digit_char (n div 10 mod 10), digit_char (n mod 10)]"
proof -
  consider "n < 10" | "10 \<le> n" "n < 100" | "100 \<le> n" by linarith
  then show ?thesis
  proof cases
    case 1
    then show ?thesis
      by (simp add: show_nat_digit digit_char_values numeral_3_eq_3)
  next
    case 2
    then have "n div 10 < 10" by simp
    then show ?thesis
      using 2 by (simp add: show_nat_step [of n] show_nat_digit digit_char_values)
  next
    case 3
    then have a: "10 \<le> n" and b: "10 \<le> n div 10" by simp_all
    have c: "n div 10 div 10 = n div 100" by (simp add: div_mult2_eq [symmetric])
    have e: "show_nat n = show_nat (n div 100) @ [digit_char (n div 10 mod 10), digit_char (n mod 10)]"
      by (simp add: show_nat_step [OF a] show_nat_step [OF b] c)
    have "length (show_nat n) = length (show_nat (n div 100)) + 2"
      by (subst e) simp
    then have "\<not> length (show_nat n) \<le> 2"
      using show_nat_nonempty [of "n div 100"] by simp
    then show ?thesis using e by (simp only: if_False)
  qed
qed

lemma show_nat_zero: "show_nat 0 = ''0''"
  by (simp add: show_nat_digit digit_char_values)

lemma fixed2_decimal2:
  "fixed2 x = decimal2 (x < 0) (nat \<lfloor>\<bar>x\<bar> * 100 + 1 / 2\<rfloor>)"
proof -
  define n where "n = nat \<lfloor>\<bar>x\<bar> * 100 + 1 / 2\<rfloor>"
  define m' where "m' = (if length (show_nat n) \<le> 2
      then replicate (3 - length (show_nat n)) (CHR ''0'') @ show_nat n else show_nat n)"
  have m: "(if n = 0 then ''0'' else show_nat n) = show_nat n"
    by (simp add: show_nat_zero)
  have s: "m' = show_nat (n div 100) @ [digit_char (n div 10 mod 10), digit_char (n mod 10)]"
    unfolding m'_def by (rule show_nat_last_two)
  have t: "take (length m' - 2) m' = show_nat (n div 100)"
    and d: "drop (length m' - 2) m' = [digit_char (n div 10 mod 10), digit_char (n mod 10)]"
    unfolding s by simp_all
  have "fixed2 x = (if x < 0 then ''-'' else []) @ take (length m' - 2) m' @ ''.''
        @ drop (length m' - 2) m'"
    unfolding fixed2_def Let_def n_def [symmetric] m m'_def [symmetric] by (rule refl)
  then show ?thesis
    by (simp add: t d decimal2_def n_def [symmetric])
qed


lemma scaleValues_parsed: "scaleValues_of rs q = parsed_values rs q"
  unfolding scaleValues_of_def parsed_values_def
  by (induction rs) (simp_all split: dbl.splits)

lemma average_of_exact:
  assumes "ns \<noteq> []" and "length ns < 2 ^ 32" and "sum_list (map abs ns) < 2 ^ 45"
  shows "\<exists>n. average_of (exact ns) = Printed (decimal2 (mean ns < 0) n)
             \<and> \<bar>of_nat n - \<bar>mean ns\<bar> * 100\<bar> \<le> (1 / 2 :: rat)"
proof -
  define S where "S = sum_list ns"
  define L where "L = length ns"
  define x where "x = mean ns"
  have L0: "0 < L" using assms(1) by (simp add: L_def)
  have aS: "\<bar>S\<bar> < 2 ^ 45"
    using sum_list_abs [of ns] assms(3) by (simp add: S_def)
  have "foldl dadd (Fin (of_int 0)) (exact ns) = Fin (of_int (0 + sum_list ns))"
    using assms(3) by (intro foldl_dadd_exact) simp
  then have f: "foldl dadd (Fin 0) (exact ns) = Fin (of_int S)"
    by (simp add: S_def)
  have x: "x = of_int S / of_nat L"
    by (simp add: x_def mean_def S_def L_def)
  have len: "length (exact ns) = L"
    by (simp add: exact_def L_def)
  have av: "average_of (exact ns) = toFixed2 (round_dbl x)"
    using L0 by (simp add: average_of_def f x len)
  show ?thesis
  proof (cases "S = 0")
    case True
    then have x0: "x = 0" by (simp add: x)
    have "fixed2 0 = decimal2 False 0"
      by (simp add: fixed2_decimal2)
    then have "average_of (exact ns) = Printed (decimal2 (mean ns < 0) 0)"
      using x0 by (simp add: av round_dbl_def x_def)
    moreover have "\<bar>of_nat 0 - \<bar>mean ns\<bar> * 100\<bar> \<le> (1 / 2 :: rat)"
      using x0 by (simp add: x_def)
    ultimately show ?thesis by blast
  next
    case False
    then have S1: "1 \<le> \<bar>S\<bar>" by simp
    have l: "(of_nat L :: rat) > 0" using L0 by simp
    have ax: "\<bar>x\<bar> = of_int \<bar>S\<bar> / of_nat L"
      by (simp add: x)
    have xpos: "0 < \<bar>x\<bar>"
      using False L0 by (simp add: x)
    have "(of_nat L :: rat) \<le> 2 ^ 32"
    proof -
      have "(of_nat L :: rat) \<le> of_nat (2 ^ 32)"
        using assms(2) unfolding L_def by (simp only: of_nat_le_iff less_imp_le)
      then show ?thesis by simp
    qed
    then have "1 / 2 ^ 32 \<le> 1 / (of_nat L :: rat)"
      using l by (simp add: frac_le)
    also have "\<dots> \<le> of_int \<bar>S\<bar> / of_nat L"
    proof -
      have "(1 :: rat) \<le> of_int \<bar>S\<bar>" using S1 by (simp only: of_int_1_le_iff)
      then show ?thesis using l by (simp only: divide_right_mono less_imp_le)
    qed
    finally have "1 / 2 ^ 32 \<le> \<bar>x\<bar>" by (simp only: ax)
    moreover have "pow2 (- 1022) \<le> pow2 (- 32)" by (rule pow2_mono) simp
    moreover have "pow2 (- 32) = 1 / 2 ^ 32" by (simp add: pow2_def)
    ultimately have lower: "pow2 (- 1022) \<le> \<bar>x\<bar>" by linarith
    have "of_int \<bar>S\<bar> / of_nat L \<le> (of_int \<bar>S\<bar> :: rat) / 1"
      using L0 by (intro divide_left_mono) simp_all
    moreover have "(of_int \<bar>S\<bar> :: rat) < of_int (2 ^ 45)"
      using aS by (simp only: of_int_less_iff)
    ultimately have x45: "\<bar>x\<bar> < 2 ^ 45" by (simp add: ax)
    then have upper: "\<bar>x\<bar> < 2 ^ 1023"
      by (rule less_le_trans) simp
    obtain y where y: "round_dbl x = Fin y" and err: "\<bar>y - x\<bar> \<le> \<bar>x\<bar> / 2 ^ 53"
      using round_dbl_error [OF lower upper] by blast
    have "\<bar>x\<bar> / 2 ^ 53 < \<bar>x\<bar>"
      using xpos by (simp add: field_simps)
    then have lt: "\<bar>y - x\<bar> < \<bar>x\<bar>" using err by linarith
    then have sign: "(y < 0) = (x < 0)" by linarith
    have "\<bar>y\<bar> < 2 * \<bar>x\<bar>" using lt by linarith
    then have "\<bar>y\<bar> < 2 ^ 46" using x45 by simp
    then have "\<bar>y\<bar> < 10 ^ 21" by (rule less_le_trans) simp
    then have pr: "toFixed2 (Fin y) = Printed (fixed2 y)" by simp
    define n where "n = nat \<lfloor>\<bar>y\<bar> * 100 + 1 / 2\<rfloor>"
    have nn: "0 \<le> \<lfloor>\<bar>y\<bar> * 100 + 1 / 2\<rfloor>" by simp
    then have ni: "int n = \<lfloor>\<bar>y\<bar> * 100 + 1 / 2\<rfloor>" by (simp add: n_def)
    have N1: "of_int (int n) \<le> \<bar>y\<bar> * 100 + 1 / 2"
      unfolding ni by (rule of_int_floor_le)
    have N2: "\<bar>y\<bar> * 100 + 1 / 2 < of_int (int n) + 1"
      unfolding ni by linarith
    have "\<bar>\<bar>y\<bar> - \<bar>x\<bar>\<bar> \<le> \<bar>x\<bar> / 2 ^ 53" using err by linarith
    then have "\<bar>\<bar>y\<bar> - \<bar>x\<bar>\<bar> * 100 \<le> \<bar>x\<bar> / 2 ^ 53 * 100"
      by (simp only: mult_right_mono zero_le_numeral)
    then have c1: "\<bar>\<bar>y\<bar> * 100 - \<bar>x\<bar> * 100\<bar> \<le> \<bar>x\<bar> * 100 / 2 ^ 53"
      by (simp add: abs_if split: if_splits)
    have "(of_int (\<bar>S\<bar> * 200) :: rat) < of_int (2 ^ 53)"
      using aS by (simp only: of_int_less_iff) simp
    then have "(of_int \<bar>S\<bar> :: rat) * 100 / 2 ^ 53 < 1 / 2"
      by simp
    then have "of_int \<bar>S\<bar> * 100 / 2 ^ 53 / (of_nat L :: rat) < 1 / 2 / of_nat L"
      using l by (simp only: divide_strict_right_mono)
    then have c2: "\<bar>x\<bar> * 100 / 2 ^ 53 < 1 / (2 * of_nat L)"
      by (simp add: ax field_simps)
    have x100: "\<bar>x\<bar> * 100 = of_int (\<bar>S\<bar> * 100) / of_nat L"
      by (simp add: ax)
    have close: "\<bar>\<bar>y\<bar> * 100 - of_int (\<bar>S\<bar> * 100) / of_nat L\<bar> < 1 / (2 * of_nat L)"
      using c1 c2 unfolding x100 by linarith
    have "\<bar>of_int (int n) - of_int (\<bar>S\<bar> * 100) / of_nat L\<bar> \<le> (1 / 2 :: rat)"
      using L0 close N1 N2 by (rule nearest_stable)
    then have r: "\<bar>of_nat n - \<bar>mean ns\<bar> * 100\<bar> \<le> (1 / 2 :: rat)"
      unfolding x100 [symmetric] by (simp add: x_def)
    have "average_of (exact ns) = Printed (decimal2 (mean ns < 0) n)"
      unfolding av y pr fixed2_decimal2 [of y] sign n_def by (simp add: x_def)
    with r show ?thesis by blast
  qed
qed

text \<open>
  Beyond that magnitude the printed average need not be a two-decimal numeral: a
  single stored value \<open>10^21\<close> is returned in exponent notation.
\<close>

lemma average_of_exponent_form: "average_of [Fin (10 ^ 21)] = Exponential (10 ^ 21)"
proof -
  have "ilog2 \<bar>10 ^ 21 :: rat\<bar> = 69"
    by (rule ilog2_eqI) (simp_all add: pow2_def)
  moreover have "round_at 17 (10 ^ 21) = 10 ^ 21"
    by (simp add: round_at_def pow2_def Let_def floor_eq_iff)
  ultimately have "round_dbl (10 ^ 21) = Fin (10 ^ 21)"
    by (simp add: round_dbl_def Let_def)
  then show ?thesis
    by (simp add: average_of_def)
qed

text \<open>
  The quotient is rounded to a double before it is printed: \<open>201 / 200\<close> becomes the
  double just below \<open>1.005\<close> and is printed as \<^verbatim>\<open>1.00\<close>, one of the two numerals at
  half a hundredth from the exact value.
\<close>

lemma average_below_tie: "toFixed2 (ddiv (Fin 201) 200) = Printed ''1.00''"
proof -
  have e: "ilog2 (201 / 200 :: rat) = 0"
    by (rule ilog2_eqI) (simp_all add: pow2_def)
  have f: "\<lfloor>(201 / 200 :: rat) / pow2 (- 52)\<rfloor> = 4526117625507348"
    by (simp add: pow2_def floor_eq_iff)
  have r: "round_at (- 52) (201 / 200) = 4526117625507348 / 2 ^ 52"
    unfolding round_at_def Let_def f by (simp add: pow2_def)
  have d: "round_dbl (201 / 200) = Fin (4526117625507348 / 2 ^ 52)"
    by (simp add: round_dbl_def Let_def e r)
  have "\<lfloor>\<bar>4526117625507348 / 2 ^ 52 :: rat\<bar> * 100 + 1 / 2\<rfloor> = 100"
    by (simp add: floor_eq_iff)
  then have n: "nat \<lfloor>\<bar>4526117625507348 / 2 ^ 52 :: rat\<bar> * 100 + 1 / 2\<rfloor> = 100"
    by (simp only: nat_numeral)
  have "fixed2 (4526117625507348 / 2 ^ 52) = ''1.00''"
    unfolding fixed2_decimal2 [of "4526117625507348 / 2 ^ 52"] n
    by (simp add: decimal2_def show_nat_digit digit_char_values)
  then show ?thesis
    by (simp add: d)
qed

lemma add_counts_eqI: "(\<And>k. f k = g k) \<Longrightarrow> add_counts f oc = add_counts g oc"
proof -
  assume "\<And>k. f k = g k"
  then have "f = g" by (rule ext)
  then show ?thesis by simp
qed

lemma add_counts_add: "add_counts g (add_counts f oc) = add_counts (\<lambda>k. f k + g k) oc"
  by (simp add: add_counts_def o_def split_def add.assoc)

lemma add_counts_zero: "(\<And>k. f k = 0) \<Longrightarrow> add_counts f oc = oc"
  by (simp add: add_counts_def)

lemma bump_add: "bump oc a = add_counts (\<lambda>k. if k = to_string a then 1 else 0) oc"
  unfolding bump_def add_counts_def
  by (intro map_cong refl) (auto split: prod.splits)

lemma foldl_bump: "foldl bump oc xs = add_counts (count_list (map to_string xs)) oc"
proof (induction xs arbitrary: oc)
  case Nil
  then show ?case by (simp add: add_counts_zero)
next
  case (Cons a xs)
  have "foldl bump oc (a # xs) = foldl bump (bump oc a) xs" by simp
  also have "\<dots> = add_counts (count_list (map to_string xs)) (bump oc a)"
    by (rule Cons.IH)
  also have "\<dots> = add_counts (\<lambda>k. (if k = to_string a then 1 else 0)
                                     + count_list (map to_string xs) k) oc"
    by (simp only: bump_add add_counts_add)
  also have "\<dots> = add_counts (count_list (map to_string (a # xs))) oc"
    by (rule add_counts_eqI) auto
  finally show ?case .
qed

lemma count_answer_add:
  "count_answer oc a = add_counts (count_list (map to_string (answer_items a))) oc"
proof (cases "truthy a")
  case False
  then show ?thesis
    by (simp add: count_answer_def answer_items_def add_counts_zero)
next
  case True
  show ?thesis
  proof (cases "is_array a")
    case True
    with \<open>truthy a\<close> show ?thesis
      by (simp add: count_answer_def answer_items_def foldl_bump)
  next
    case False
    have "bump oc a = add_counts (count_list (map to_string [a])) oc"
      unfolding bump_add by (rule add_counts_eqI) auto
    with False \<open>truthy a\<close> show ?thesis
      by (simp add: count_answer_def answer_items_def)
  qed
qed

lemma count_responses_gen:
  "foldl (\<lambda>oc r. count_answer oc (js_get (data r) q)) (add_counts f oc) rs
   = add_counts (\<lambda>k. f k + occurrences rs q k) oc"
proof (induction rs arbitrary: f)
  case Nil
  show ?case by (simp add: occurrences_def)
next
  case (Cons r rs)
  let ?c = "count_list (map to_string (answer_items (js_get (data r) q)))"
  have "foldl (\<lambda>oc r. count_answer oc (js_get (data r) q)) (add_counts f oc) (r # rs)
        = foldl (\<lambda>oc r. count_answer oc (js_get (data r) q))
            (add_counts (\<lambda>k. f k + ?c k) oc) rs"
    by (simp only: foldl_Cons count_answer_add add_counts_add)
  also have "\<dots> = add_counts (\<lambda>k. (f k + ?c k) + occurrences rs q k) oc"
    by (rule Cons.IH)
  also have "\<dots> = add_counts (\<lambda>k. f k + occurrences (r # rs) q k) oc"
    by (rule add_counts_eqI) (simp add: occurrences_def)
  finally show ?case .
qed

lemma count_responses_add:
  "count_responses oc rs q = add_counts (occurrences rs q) oc"
proof -
  have "count_responses oc rs q
        = foldl (\<lambda>oc r. count_answer oc (js_get (data r) q)) (add_counts (\<lambda>k. 0) oc) rs"
    by (simp add: count_responses_def add_counts_zero)
  also have "\<dots> = add_counts (\<lambda>k. 0 + occurrences rs q k) oc"
    by (rule count_responses_gen)
  finally show ?thesis by simp
qed

lemma obj_set_keys:
  "map fst (obj_set kvs k v) = (if k \<in> fst ` set kvs then map fst kvs else map fst kvs @ [k])"
  by (induction kvs k v rule: obj_set.induct) (auto simp: image_iff)

lemma obj_set_set: "set (obj_set kvs k v) \<subseteq> set kvs \<union> {(k, v)}"
  by (induction kvs k v rule: obj_set.induct) auto

lemma obj_set_distinct: "distinct (map fst kvs) \<Longrightarrow> distinct (map fst (obj_set kvs k v))"
  by (simp add: obj_set_keys)

lemma init_counts_snoc:
  "init_counts (opts @ [x]) =
     (if opt_id x = ''__proto__'' then init_counts opts
      else obj_set (init_counts opts) (opt_id x) (opt_label x, 0))"
  by (simp add: init_counts_def)

lemma init_counts_props:
  "distinct (map fst (init_counts opts))
   \<and> set (map fst (init_counts opts)) = opt_id ` set opts - {''__proto__''}
   \<and> (\<forall>(k, l, c)\<in>set (init_counts opts). c = 0 \<and> (\<exists>x\<in>set opts. opt_id x = k \<and> opt_label x = l))"
proof (induction opts rule: rev_induct)
  case Nil
  then show ?case by (simp add: init_counts_def)
next
  case (snoc x opts)
  show ?case
  proof (cases "opt_id x = ''__proto__''")
    case True
    with snoc show ?thesis by (auto simp: init_counts_snoc)
  next
    case False
    have s: "set (obj_set (init_counts opts) (opt_id x) (opt_label x, 0))
             \<subseteq> set (init_counts opts) \<union> {(opt_id x, opt_label x, 0)}"
      by (rule obj_set_set)
    have 1: "distinct (map fst (init_counts (opts @ [x])))"
      using snoc False by (simp add: init_counts_snoc obj_set_distinct)
    have 2: "set (map fst (init_counts (opts @ [x]))) = opt_id ` set (opts @ [x]) - {''__proto__''}"
      using snoc False by (auto simp: init_counts_snoc obj_set_keys)
    have 3: "\<forall>(k, l, c)\<in>set (init_counts (opts @ [x])).
               c = 0 \<and> (\<exists>y\<in>set (opts @ [x]). opt_id y = k \<and> opt_label y = l)"
      using snoc s False by (fastforce simp: init_counts_snoc)
    from 1 2 3 show ?thesis by (intro conjI)
  qed
qed

lemma entries_set: "set (entries obj) = set obj"
  by (auto simp: entries_def)

lemma entries_distinct:
  assumes "distinct (map fst obj)"
  shows "distinct (map fst (entries obj))"
proof -
  have d: "distinct obj" and i: "inj_on fst (set obj)"
    using assms by (simp_all add: distinct_map)
  have "distinct (entries obj)"
    using d by (auto simp: entries_def)
  moreover have "inj_on fst (set (entries obj))"
    using i by (simp add: entries_set)
  ultimately show ?thesis by (simp add: distinct_map)
qed

lemma add_counts_keys: "map fst (add_counts f oc) = map fst oc"
  by (simp add: add_counts_def split_def o_def)

lemma add_counts_set:
  "set (add_counts f oc) = (\<lambda>(k, l, c). (k, l, c + f k)) ` set oc"
  by (simp add: add_counts_def)

lemma choice_counts_props:
  "distinct (map fst (entries (count_responses (init_counts opts) rs q)))
   \<and> set (map fst (entries (count_responses (init_counts opts) rs q)))
       = opt_id ` set opts - {''__proto__''}
   \<and> (\<forall>(k, l, c)\<in>set (entries (count_responses (init_counts opts) rs q)).
         c = occurrences rs q k \<and> (\<exists>x\<in>set opts. opt_id x = k \<and> opt_label x = l))"
proof -
  note P = init_counts_props [of opts]
  let ?oc = "count_responses (init_counts opts) rs q"
  have k: "map fst ?oc = map fst (init_counts opts)"
    by (simp add: count_responses_add add_counts_keys)
  have 1: "distinct (map fst (entries ?oc))"
    using P k by (simp add: entries_distinct)
  have "set (map fst (entries ?oc)) = set (map fst ?oc)"
    by (simp add: entries_set)
  then have 2: "set (map fst (entries ?oc)) = opt_id ` set opts - {''__proto__''}"
    using P k by simp
  have 3: "\<forall>(k, l, c)\<in>set (entries ?oc).
         c = occurrences rs q k \<and> (\<exists>x\<in>set opts. opt_id x = k \<and> opt_label x = l)"
    using P by (fastforce simp: entries_set count_responses_add add_counts_set)
  from 1 2 3 show ?thesis by (intro conjI)
qed

lemma sample_parse: "parseInt (JStr ''2'') = Fin 2" "parseInt (JStr ''4'') = Fin 4"
  "parseInt (JStr ''6'') = Fin 6"
  using round_dbl_int [of 2] round_dbl_int [of 4] round_dbl_int [of 6]
  by (simp_all add: parseInt_def parseInt_str_def is_ws_def digit_of_def radix_value_def)

lemma sample_average: "average_of (exact [2, 4, 6]) = Printed ''4.00''"
proof -
  have "foldl dadd (Fin (of_int 0)) (exact [2, 4, 6]) = Fin (of_int (0 + sum_list [2, 4, 6]))"
    by (rule foldl_dadd_exact) simp
  then have f: "foldl dadd (Fin 0) (exact [2, 4, 6]) = Fin 12" by simp
  have d: "round_dbl 4 = Fin 4"
    using round_dbl_int [of 4] by simp
  have "\<lfloor>\<bar>4 :: rat\<bar> * 100 + 1 / 2\<rfloor> = 400"
    by (simp add: floor_eq_iff)
  then have n: "nat \<lfloor>\<bar>4 :: rat\<bar> * 100 + 1 / 2\<rfloor> = 400"
    by (simp only: nat_numeral)
  have "fixed2 4 = ''4.00''"
    unfolding fixed2_decimal2 [of 4] n
    by (simp add: decimal2_def show_nat_digit digit_char_values)
  moreover have "length (exact [2, 4, 6]) = 3"
    by (simp add: exact_def)
  ultimately show ?thesis
    by (simp add: average_of_def f d)
qed

lemma sample_scale_summary:
  "summarise (sample_survey [sample_question Scale False 1 10]
        [[''q_0'' \<mapsto> JStr ''2''], [''q_0'' \<mapsto> JStr ''4''], [''q_0'' \<mapsto> JStr ''6'']])
     (sample_question Scale False 1 10)
   = ScaleSummary (exact [2, 4, 6]) (Printed ''4.00'')"
proof -
  have "scaleValues_of (responses (sample_survey [sample_question Scale False 1 10]
        [[''q_0'' \<mapsto> JStr ''2''], [''q_0'' \<mapsto> JStr ''4''], [''q_0'' \<mapsto> JStr ''6'']])) ''q_0''
      = exact [2, 4, 6]"
    by (simp add: scaleValues_of_def sample_survey_def js_get_def sample_parse exact_def)
  then show ?thesis
    by (simp add: summarise_def sample_question_def Let_def sample_average)
qed

lemma sample_keys_not_indices: "\<not> is_array_index ''a''" "\<not> is_array_index ''b''"
  by (simp_all add: is_array_index_def digit_of_def)

lemma sample_init_counts: "init_counts sample_options = [(''a'', ''A'', 0), (''b'', ''B'', 0)]"
  by (simp add: init_counts_def sample_options_def)

lemma sample_choice_summary:
  "summarise (sample_survey [sample_question SingleChoice False 1 5]
        [[''q_0'' \<mapsto> JStr ''a''], [''q_0'' \<mapsto> JStr ''a''], [''q_0'' \<mapsto> JStr ''b'']])
     (sample_question SingleChoice False 1 5)
   = ChoiceSummary [(''a'', ''A'', 2), (''b'', ''B'', 1)]"
  by (simp add: summarise_def sample_question_def sample_survey_def sample_init_counts count_responses_def
      count_answer_def bump_def js_get_def entries_def sample_keys_not_indices)

lemma sample_repeat_summary:
  "summarise (sample_survey [sample_question SingleChoice False 1 5]
        [[''q_0'' \<mapsto> JArr [JStr ''a'', JStr ''a'']]])
     (sample_question SingleChoice False 1 5)
   = ChoiceSummary [(''a'', ''A'', 2), (''b'', ''B'', 0)]"
  by (simp add: summarise_def sample_question_def sample_survey_def sample_init_counts count_responses_def
      count_answer_def bump_def js_get_def entries_def sample_keys_not_indices)

lemma sample_repeat_responses_with:
  "responses_with (responses (sample_survey [sample_question SingleChoice False 1 5]
        [[''q_0'' \<mapsto> JArr [JStr ''a'', JStr ''a'']]])) ''q_0'' ''a'' = 1"
  by (simp add: responses_with_def sample_survey_def js_get_def answer_items_def)

lemma sample_repeat_accepted:
  "validateResponse (sample_survey [sample_question SingleChoice False 1 5] [])
     [''q_0'' \<mapsto> JArr [JStr ''a'', JStr ''a'']] = []"
  by (simp add: validateResponse_def sample_survey_def sample_question_def js_get_def
      validate_question_def sample_options_def)

lemma summarise_scale:
  assumes "qtype q = Scale"
  shows "summarise s q
     = ScaleSummary (parsed_values (responses s) (qid q))
         (average_of (parsed_values (responses s) (qid q)))"
  using assms by (simp add: summarise_def Let_def scaleValues_parsed)

lemma summarise_choice:
  assumes "qtype q = SingleChoice \<or> qtype q = MultipleChoice"
  shows "summarise s q
     = ChoiceSummary (entries (count_responses (init_counts (options q)) (responses s) (qid q)))"
  using assms by (auto simp: summarise_def)

text \<open>
  C1 (as amended). The results carry the survey's id, title and response count and
  one entry per question, in question order. For a Scale question the entry holds
  the numbers \<^verbatim>\<open>parseInt\<close> finds in the stored answers, in submission order, and no
  average when there is none. When these numbers are integers whose magnitudes
  add up to less than \<open>2^45\<close> (and there are fewer than \<open>2^32\<close> of them, as in any
  array), the sum is exact in double arithmetic and the average is printed as a
  two-decimal numeral within half a hundredth of their arithmetic mean: stored
  answers 2, 4, 6 give \<^verbatim>\<open>4.00\<close>. For a SingleChoice or MultipleChoice question the
  entry lists each declared option id once (an option with the reserved id
  \<^verbatim>\<open>__proto__\<close> aside) and nothing else, each with the label of a declared option of
  that id and with the number of occurrences of the id among the items of the
  stored answers, a truthy scalar counting as one item and an id repeated inside
  one sequence counting each time: options a, b with stored answers a, a, b give
  a: 2, b: 1.
\<close>

theorem aggregate_per_question:
  "res_surveyId (aggregate s) = survey_id s \<and> res_title (aggregate s) = title s
   \<and> totalResponses (aggregate s) = length (responses s)
   \<and> map qr_id (res_questions (aggregate s)) = map qid (questions s)
   \<and> map qr_summary (res_questions (aggregate s)) = map (summarise s) (questions s)
   \<and> (surveys st sid = Some s \<and> \<not> (token_given tok \<and> tok \<noteq> Some (adminToken s))
        \<longrightarrow> getResults sid tok st = (Inr (aggregate s), st))
   \<and> (qtype q = Scale
        \<longrightarrow> (\<exists>average. summarise s q = ScaleSummary (parsed_values (responses s) (qid q)) average
              \<and> (parsed_values (responses s) (qid q) = [] \<longrightarrow> average = Null)
              \<and> (parsed_values (responses s) (qid q) = exact ns \<and> ns \<noteq> []
                  \<and> length ns < 2 ^ 32 \<and> sum_list (map abs ns) < 2 ^ 45
                    \<longrightarrow> (\<exists>n. average = Printed (decimal2 (mean ns < 0) n)
                             \<and> \<bar>of_nat n - \<bar>mean ns\<bar> * 100\<bar> \<le> 1 / 2))))
   \<and> (qtype q = SingleChoice \<or> qtype q = MultipleChoice
        \<longrightarrow> (\<exists>oc. summarise s q = ChoiceSummary oc
              \<and> distinct (map fst oc)
              \<and> set (map fst oc) \<subseteq> opt_id ` set (options q)
              \<and> opt_id ` set (options q) - {''__proto__''} \<subseteq> set (map fst oc)
              \<and> (\<forall>(k, l, c)\<in>set oc.
                    c = occurrences (responses s) (qid q) k
                    \<and> (\<exists>x\<in>set (options q). opt_id x = k \<and> opt_label x = l))))
   \<and> summarise (sample_survey [sample_question Scale False 1 10]
          [[''q_0'' \<mapsto> JStr ''2''], [''q_0'' \<mapsto> JStr ''4''], [''q_0'' \<mapsto> JStr ''6'']])
        (sample_question Scale False 1 10)
       = ScaleSummary (exact [2, 4, 6]) (Printed ''4.00'')
   \<and> summarise (sample_survey [sample_question SingleChoice False 1 5]
          [[''q_0'' \<mapsto> JStr ''a''], [''q_0'' \<mapsto> JStr ''a''], [''q_0'' \<mapsto> JStr ''b'']])
        (sample_question SingleChoice False 1 5)
       = ChoiceSummary [(''a'', ''A'', 2), (''b'', ''B'', 1)]"
proof -
  have 1: "res_surveyId (aggregate s) = survey_id s" "res_title (aggregate s) = title s"
    "totalResponses (aggregate s) = length (responses s)"
    "map qr_id (res_questions (aggregate s)) = map qid (questions s)"
    "map qr_summary (res_questions (aggregate s)) = map (summarise s) (questions s)"
    by (simp_all add: aggregate_def question_result_def o_def)
  have 2: "surveys st sid = Some s \<and> \<not> (token_given tok \<and> tok \<noteq> Some (adminToken s))
        \<longrightarrow> getResults sid tok st = (Inr (aggregate s), st)"
    by (auto simp: getResults_def lookup_own)
  have 3: "qtype q = Scale
        \<longrightarrow> (\<exists>average. summarise s q = ScaleSummary (parsed_values (responses s) (qid q)) average
              \<and> (parsed_values (responses s) (qid q) = [] \<longrightarrow> average = Null)
              \<and> (parsed_values (responses s) (qid q) = exact ns \<and> ns \<noteq> []
                  \<and> length ns < 2 ^ 32 \<and> sum_list (map abs ns) < 2 ^ 45
                    \<longrightarrow> (\<exists>n. average = Printed (decimal2 (mean ns < 0) n)
                             \<and> \<bar>of_nat n - \<bar>mean ns\<bar> * 100\<bar> \<le> 1 / 2)))"
  proof (intro impI)
    assume t: "qtype q = Scale"
    have a: "summarise s q = ScaleSummary (parsed_values (responses s) (qid q))
                 (average_of (parsed_values (responses s) (qid q)))"
      using t by (rule summarise_scale)
    have b: "parsed_values (responses s) (qid q) = []
               \<longrightarrow> average_of (parsed_values (responses s) (qid q)) = Null"
      by (simp add: average_of_def)
    have c: "parsed_values (responses s) (qid q) = exact ns \<and> ns \<noteq> []
                  \<and> length ns < 2 ^ 32 \<and> sum_list (map abs ns) < 2 ^ 45
               \<longrightarrow> (\<exists>n. average_of (parsed_values (responses s) (qid q))
                             = Printed (decimal2 (mean ns < 0) n)
                           \<and> \<bar>of_nat n - \<bar>mean ns\<bar> * 100\<bar> \<le> 1 / 2)"
    proof (intro impI)
      assume h: "parsed_values (responses s) (qid q) = exact ns \<and> ns \<noteq> []
                  \<and> length ns < 2 ^ 32 \<and> sum_list (map abs ns) < 2 ^ 45"
      then have "\<exists>n. average_of (exact ns) = Printed (decimal2 (mean ns < 0) n)
             \<and> \<bar>of_nat n - \<bar>mean ns\<bar> * 100\<bar> \<le> (1 / 2 :: rat)"
        by (intro average_of_exact) simp_all
      then show "\<exists>n. average_of (parsed_values (responses s) (qid q))
                      = Printed (decimal2 (mean ns < 0) n)
                    \<and> \<bar>of_nat n - \<bar>mean ns\<bar> * 100\<bar> \<le> 1 / 2"
        using h by simp
    qed
    from a b c show "\<exists>average. summarise s q
                = ScaleSummary (parsed_values (responses s) (qid q)) average
              \<and> (parsed_values (responses s) (qid q) = [] \<longrightarrow> average = Null)
              \<and> (parsed_values (responses s) (qid q) = exact ns \<and> ns \<noteq> []
                  \<and> length ns < 2 ^ 32 \<and> sum_list (map abs ns) < 2 ^ 45
                    \<longrightarrow> (\<exists>n. average = Printed (decimal2 (mean ns < 0) n)
                             \<and> \<bar>of_nat n - \<bar>mean ns\<bar> * 100\<bar> \<le> 1 / 2))"
      by blast
  qed
  have 4: "qtype q = SingleChoice \<or> qtype q = MultipleChoice
        \<longrightarrow> (\<exists>oc. summarise s q = ChoiceSummary oc
              \<and> distinct (map fst oc)
              \<and> set (map fst oc) \<subseteq> opt_id ` set (options q)
              \<and> opt_id ` set (options q) - {''__proto__''} \<subseteq> set (map fst oc)
              \<and> (\<forall>(k, l, c)\<in>set oc.
                    c = occurrences (responses s) (qid q) k
                    \<and> (\<exists>x\<in>set (options q). opt_id x = k \<and> opt_label x = l)))"
    using summarise_choice [of q s] choice_counts_props [of "options q" "responses s" "qid q"]
    by auto
  from 1 2 3 4 sample_scale_summary sample_choice_summary show ?thesis by (intro conjI)
qed

theorem aggregate_per_question_witness:
  "surveys (sample_store (sample_survey [sample_question SingleChoice False 1 5]
          [[''q_0'' \<mapsto> JStr ''a''], [''q_0'' \<mapsto> JStr ''a''], [''q_0'' \<mapsto> JStr ''b'']])) ''survey_1''
     = Some (sample_survey [sample_question SingleChoice False 1 5]
          [[''q_0'' \<mapsto> JStr ''a''], [''q_0'' \<mapsto> JStr ''a''], [''q_0'' \<mapsto> JStr ''b'']])
   \<and> \<not> token_given None
   \<and> fst (getResults ''survey_1'' None
        (sample_store (sample_survey [sample_question SingleChoice False 1 5]
          [[''q_0'' \<mapsto> JStr ''a''], [''q_0'' \<mapsto> JStr ''a''], [''q_0'' \<mapsto> JStr ''b'']])))
     = Inr (aggregate (sample_survey [sample_question SingleChoice False 1 5]
          [[''q_0'' \<mapsto> JStr ''a''], [''q_0'' \<mapsto> JStr ''a''], [''q_0'' \<mapsto> JStr ''b'']]))
   \<and> qtype (sample_question SingleChoice False 1 5) = SingleChoice
   \<and> occurrences (responses (sample_survey [sample_question SingleChoice False 1 5]
          [[''q_0'' \<mapsto> JStr ''a''], [''q_0'' \<mapsto> JStr ''a''], [''q_0'' \<mapsto> JStr ''b'']])) ''q_0'' ''a'' = 2
   \<and> qtype (sample_question Scale False 1 10) = Scale
   \<and> parsed_values (responses (sample_survey [sample_question Scale False 1 10]
          [[''q_0'' \<mapsto> JStr ''2''], [''q_0'' \<mapsto> JStr ''4''], [''q_0'' \<mapsto> JStr ''6'']])) ''q_0''
     = exact [2, 4, 6]
   \<and> [2, 4, 6] \<noteq> ([] :: int list) \<and> length [2, 4, 6 :: int] < 2 ^ 32
   \<and> sum_list (map abs [2, 4, 6 :: int]) < 2 ^ 45
   \<and> mean [2, 4, 6] = 4
   \<and> (\<exists>n. summarise (sample_survey [sample_question Scale False 1 10]
          [[''q_0'' \<mapsto> JStr ''2''], [''q_0'' \<mapsto> JStr ''4''], [''q_0'' \<mapsto> JStr ''6'']])
        (sample_question Scale False 1 10)
       = ScaleSummary (exact [2, 4, 6]) (Printed (decimal2 False n))
       \<and> \<bar>of_nat n - (400 :: rat)\<bar> \<le> 1 / 2)"
proof -
  let ?qc = "sample_question SingleChoice False 1 5"
  let ?sc = "sample_survey [?qc]
          [[''q_0'' \<mapsto> JStr ''a''], [''q_0'' \<mapsto> JStr ''a''], [''q_0'' \<mapsto> JStr ''b'']]"
  let ?qs = "sample_question Scale False 1 10"
  let ?ss = "sample_survey [?qs]
          [[''q_0'' \<mapsto> JStr ''2''], [''q_0'' \<mapsto> JStr ''4''], [''q_0'' \<mapsto> JStr ''6'']]"
  note l = sample_store_facts(4) [of "[?qc]"
      "[[''q_0'' \<mapsto> JStr ''a''], [''q_0'' \<mapsto> JStr ''a''], [''q_0'' \<mapsto> JStr ''b'']]"]
  have g: "\<not> token_given None" by (simp add: token_given_def)
  have r: "fst (getResults ''survey_1'' None (sample_store ?sc)) = Inr (aggregate ?sc)"
    using aggregate_per_question [where s = ?sc and st = "sample_store ?sc"
        and sid = "''survey_1''" and tok = None] l g by simp
  have tc: "qtype ?qc = SingleChoice" and ts: "qtype ?qs = Scale" and i: "qid ?qs = ''q_0''"
    by (simp_all add: sample_question_def)
  have oc: "occurrences (responses ?sc) ''q_0'' ''a'' = 2"
    by (simp add: occurrences_def sample_survey_def js_get_def answer_items_def)
  have pv: "parsed_values (responses ?ss) ''q_0'' = exact [2, 4, 6]"
    by (simp add: parsed_values_def sample_survey_def js_get_def sample_parse exact_def)
  have b: "[2, 4, 6] \<noteq> ([] :: int list)" "length [2, 4, 6 :: int] < 2 ^ 32"
    "sum_list (map abs [2, 4, 6 :: int]) < 2 ^ 45"
    by simp_all
  have me: "mean [2, 4, 6] = 4"
    by (simp add: mean_def)
  have "\<exists>average. summarise ?ss ?qs = ScaleSummary (parsed_values (responses ?ss) (qid ?qs)) average
          \<and> (parsed_values (responses ?ss) (qid ?qs) = [] \<longrightarrow> average = Null)
          \<and> (parsed_values (responses ?ss) (qid ?qs) = exact [2, 4, 6] \<and> [2, 4, 6] \<noteq> ([] :: int list)
              \<and> length [2, 4, 6 :: int] < 2 ^ 32 \<and> sum_list (map abs [2, 4, 6 :: int]) < 2 ^ 45
                \<longrightarrow> (\<exists>n. average = Printed (decimal2 (mean [2, 4, 6] < 0) n)
                         \<and> \<bar>of_nat n - \<bar>mean [2, 4, 6]\<bar> * 100\<bar> \<le> 1 / 2))"
    using aggregate_per_question [where s = ?ss and q = ?qs and ns = "[2, 4, 6]"] ts by blast
  then obtain average where
    a1: "summarise ?ss ?qs = ScaleSummary (parsed_values (responses ?ss) (qid ?qs)) average"
    and a2: "parsed_values (responses ?ss) (qid ?qs) = exact [2, 4, 6] \<and> [2, 4, 6] \<noteq> ([] :: int list)
              \<and> length [2, 4, 6 :: int] < 2 ^ 32 \<and> sum_list (map abs [2, 4, 6 :: int]) < 2 ^ 45
                \<longrightarrow> (\<exists>n. average = Printed (decimal2 (mean [2, 4, 6] < 0) n)
                         \<and> \<bar>of_nat n - \<bar>mean [2, 4, 6]\<bar> * 100\<bar> \<le> 1 / 2)"
    by blast
  from a2 pv b i obtain n where
    n: "average = Printed (decimal2 (mean [2, 4, 6] < 0) n)"
      "\<bar>of_nat n - \<bar>mean [2, 4, 6]\<bar> * 100\<bar> \<le> (1 / 2 :: rat)"
    by auto
  have su: "\<exists>n. summarise ?ss ?qs = ScaleSummary (exact [2, 4, 6]) (Printed (decimal2 False n))
       \<and> \<bar>of_nat n - (400 :: rat)\<bar> \<le> 1 / 2"
    using a1 n unfolding me i pv by auto
  from l g r tc oc ts pv b me su show ?thesis by (intro conjI)
qed

text \<open>
  C1 as stated fails where an answer repeats an option id: the sequence
  \<^verbatim>\<open>["a", "a"]\<close> passes validation, and the one response in which option a appears
  is counted twice.
\<close>

theorem choice_count_repeated_counterexample:
  "validateResponse (sample_survey [sample_question SingleChoice False 1 5] [])
     [''q_0'' \<mapsto> JArr [JStr ''a'', JStr ''a'']] = []
   \<and> summarise (sample_survey [sample_question SingleChoice False 1 5]
          [[''q_0'' \<mapsto> JArr [JStr ''a'', JStr ''a'']]])
        (sample_question SingleChoice False 1 5)
       = ChoiceSummary [(''a'', ''A'', 2), (''b'', ''B'', 0)]
   \<and> responses_with (responses (sample_survey [sample_question SingleChoice False 1 5]
          [[''q_0'' \<mapsto> JArr [JStr ''a'', JStr ''a'']]])) ''q_0'' ''a'' = 1"
  using sample_repeat_accepted sample_repeat_summary sample_repeat_responses_with by (intro conjI)

end
